(* ===== verification/Prelude.thy ===== *)
theory Prelude
  imports Main "HOL-Library.Word" "HOL-Library.AList"
begin

text \<open>
  Shared vocabulary of the development: the faults a run can end in, the result type of
  every stateful operation with its sequencing combinator and its small calculus of
  postconditions, the widths of the C and Go integers that cross the language border,
  bytes and NUL-terminated C strings, and decimal printing. Nothing here models a single
  function of the program; the component theories rest on it.
\<close>

section \<open>Proof collections\<close>

named_theorems res_simps \<open>equations that evaluate results and their sequencing\<close>
named_theorems holds_intros \<open>rules that establish a postcondition of an operation\<close>
named_theorems width_simps \<open>facts on the widths of machine integers\<close>

section \<open>Errors, faults and results\<close>

text \<open>
  \<open>JSError\<close> is the struct of errors.go; \<open>goerror\<close> is Go's \<open>error\<close> interface as the
  package returns it: a JavaScript exception or a plain \<open>errors.New\<close> text.
\<close>

record JSError =
  Message :: string
  Location :: string
  StackTrace :: string

datatype goerror = JSErr JSError | GoErr string

text \<open>
  A fault is how a run ends without returning: a Go panic raised by the package (with a
  text or an error value), a Go run-time panic (nil dereference, index or slice bound), or
  the end of the process (a read or write through a null or dangling C pointer, a V8
  \<open>ToLocalChecked\<close>/\<open>ToChecked\<close> on an empty handle, exhausted memory). Go code can recover
  from the first two groups and not from the last.
\<close>

datatype fault =
    PanicText string
  | PanicErr goerror
  | NilDeref
  | IndexOutOfRange
  | Segv
  | V8Abort
  | OutOfMemory

fun recoverable :: "fault \<Rightarrow> bool" where
  "recoverable Segv = False"
| "recoverable V8Abort = False"
| "recoverable OutOfMemory = False"
| "recoverable _ = True"

datatype ('a, 'w) res = Ok 'a 'w | Fault fault 'w

fun bindR :: "('a, 'w) res \<Rightarrow> ('a \<Rightarrow> 'w \<Rightarrow> ('b, 'w) res) \<Rightarrow> ('b, 'w) res" where
  "bindR (Ok a w) k = k a w"
| "bindR (Fault f w) k = Fault f w"

lemma bindR_assoc [res_simps]: "bindR (bindR m f) g = bindR m (\<lambda>a w. bindR (f a w) g)"
  by (cases m) auto

lemma bindR_Ok_right [simp]: "bindR m Ok = m"
  by (cases m) auto

lemma bindR_eq_Ok:
  "bindR m k = Ok b w' \<longleftrightarrow> (\<exists>a w. m = Ok a w \<and> k a w = Ok b w')"
  by (cases m) auto

lemma bindR_eq_Fault:
  "bindR m k = Fault f w' \<longleftrightarrow> m = Fault f w' \<or> (\<exists>a w. m = Ok a w \<and> k a w = Fault f w')"
  by (cases m) auto

lemma bindR_cong [fundef_cong]:
  assumes "m = m'" and "\<And>a w. m' = Ok a w \<Longrightarrow> k a w = k' a w"
  shows "bindR m k = bindR m' k'"
  using assms by (cases m') auto

text \<open>
  \<open>holds Q R r\<close>: if \<open>r\<close> returned, its value and state satisfy \<open>Q\<close>; if it ended in a panic
  that Go code can recover from, the state it leaves satisfies \<open>R\<close>. Nothing is asked of a
  process that has ended.
\<close>

fun holds :: "('a \<Rightarrow> 'w \<Rightarrow> bool) \<Rightarrow> ('w \<Rightarrow> bool) \<Rightarrow> ('a, 'w) res \<Rightarrow> bool" where
  "holds Q R (Ok a w) = Q a w"
| "holds Q R (Fault f w) = (recoverable f \<longrightarrow> R w)"

abbreviation keeps :: "('w \<Rightarrow> bool) \<Rightarrow> ('a, 'w) res \<Rightarrow> bool" where
  "keeps P \<equiv> holds (\<lambda>_. P) P"

lemma holds_bindR:
  assumes "holds Q R m" and "\<And>a w. Q a w \<Longrightarrow> holds Q' R (k a w)"
  shows "holds Q' R (bindR m k)"
  using assms by (cases m) auto

lemma keeps_bindR [holds_intros]:
  assumes "keeps P m" and "\<And>a w. P w \<Longrightarrow> holds Q P (k a w)"
  shows "holds Q P (bindR m k)"
  using assms by (rule holds_bindR)

lemma keeps_bindR_eq:
  assumes "keeps P m" and "\<And>a w. m = Ok a w \<Longrightarrow> P w \<Longrightarrow> holds Q P (k a w)"
  shows "holds Q P (bindR m k)"
  using assms by (cases m) auto

lemma keeps_Ok [holds_intros]: "P w \<Longrightarrow> keeps P (Ok a w)"
  by simp

lemma keeps_Fault [holds_intros]: "(recoverable f \<Longrightarrow> P w) \<Longrightarrow> holds Q P (Fault f w)"
  by simp

lemma holds_if [holds_intros]:
  "(b \<Longrightarrow> holds Q R x) \<Longrightarrow> (\<not> b \<Longrightarrow> holds Q R y) \<Longrightarrow> holds Q R (if b then x else y)"
  by simp

lemma holds_option [holds_intros]:
  "(x = None \<Longrightarrow> holds Q R n) \<Longrightarrow> (\<And>y. x = Some y \<Longrightarrow> holds Q R (s y)) \<Longrightarrow> holds Q R (case x of None \<Rightarrow> n | Some y \<Rightarrow> s y)"
  by (cases x) auto

lemma holds_sum [holds_intros]:
  "(\<And>y. x = Inl y \<Longrightarrow> holds Q R (l y)) \<Longrightarrow> (\<And>y. x = Inr y \<Longrightarrow> holds Q R (r y)) \<Longrightarrow>
     holds Q R (case x of Inl y \<Rightarrow> l y | Inr y \<Rightarrow> r y)"
  by (cases x) auto

lemma holds_prod [holds_intros]:
  "(\<And>a b. x = (a, b) \<Longrightarrow> holds Q R (f a b)) \<Longrightarrow> holds Q R (case x of (a, b) \<Rightarrow> f a b)"
  by (cases x) auto

lemma holds_prod_app [holds_intros]:
  "(\<And>a b. x = (a, b) \<Longrightarrow> holds Q R (f a b w)) \<Longrightarrow> holds Q R ((case x of (a, b) \<Rightarrow> f a b) w)"
  by (cases x) auto

lemma holds_list [holds_intros]:
  "(x = [] \<Longrightarrow> holds Q R n) \<Longrightarrow> (\<And>y ys. x = y # ys \<Longrightarrow> holds Q R (c y ys)) \<Longrightarrow>
     holds Q R (case x of [] \<Rightarrow> n | y # ys \<Rightarrow> c y ys)"
  by (cases x) auto

lemma holds_Let [holds_intros]: "holds Q R (f x) \<Longrightarrow> holds Q R (Let x f)"
  by simp

lemma holds_mono:
  assumes "holds Q R m" and "\<And>a w. Q a w \<Longrightarrow> Q' a w" and "\<And>w. R w \<Longrightarrow> R' w"
  shows "holds Q' R' m"
  using assms by (cases m) auto

lemma holds_conj:
  "holds Q R m \<Longrightarrow> holds Q' R' m \<Longrightarrow> holds (\<lambda>a w. Q a w \<and> Q' a w) (\<lambda>w. R w \<and> R' w) m"
  by (cases m) auto

lemma holds_OkD: "holds Q R m \<Longrightarrow> m = Ok a w \<Longrightarrow> Q a w"
  by simp

section \<open>Machine integers\<close>

text \<open>
  Values keep their mathematical integer type; what a conversion does to them is written
  out. \<open>c_int\<close> is the conversion to a 32-bit two's complement \<open>int\<close> (cgo's \<open>C.int\<close>),
  \<open>c_long\<close> the conversion to 64 bits, which is both the C++ \<open>long\<close> and Go's \<open>int\<close> on the
  four platforms the package links against; \<open>c_uint\<close> is \<open>uint32\<close>.
\<close>

definition c_int :: "int \<Rightarrow> int" where
  "c_int x = (x + 2 ^ 31) mod 2 ^ 32 - 2 ^ 31"

definition c_long :: "int \<Rightarrow> int" where
  "c_long x = (x + 2 ^ 63) mod 2 ^ 64 - 2 ^ 63"

definition c_uint :: "int \<Rightarrow> int" where
  "c_uint x = x mod 2 ^ 32"

lemma c_int_id [width_simps]: "- (2 ^ 31) \<le> x \<Longrightarrow> x < 2 ^ 31 \<Longrightarrow> c_int x = x"
  by (simp add: c_int_def)

lemma c_long_id [width_simps]: "- (2 ^ 63) \<le> x \<Longrightarrow> x < 2 ^ 63 \<Longrightarrow> c_long x = x"
  by (simp add: c_long_def)

lemma c_uint_id [width_simps]: "0 \<le> x \<Longrightarrow> x < 2 ^ 32 \<Longrightarrow> c_uint x = x"
  by (simp add: c_uint_def)

lemma c_int_range: "- (2 ^ 31) \<le> c_int x \<and> c_int x < 2 ^ 31"
  by (simp add: c_int_def)

lemma c_long_range: "- (2 ^ 63) \<le> c_long x \<and> c_long x < 2 ^ 63"
  by (simp add: c_long_def)

lemma c_int_fixed_iff: "c_int x = x \<longleftrightarrow> - (2 ^ 31) \<le> x \<and> x < 2 ^ 31"
  using c_int_range [of x] c_int_id [of x] by metis

lemma c_int_periodic: "c_int (x + 2 ^ 32 * k) = c_int x"
proof -
  have "x + 2 ^ 32 * k + 2 ^ 31 = (x + 2 ^ 31) + 2 ^ 32 * k"
    by simp
  then have "(x + 2 ^ 32 * k + 2 ^ 31) mod 2 ^ 32 = (x + 2 ^ 31) mod (2 ^ 32 :: int)"
    by (simp only: mod_mult_self2)
  then show ?thesis by (simp only: c_int_def)
qed

lemma c_long_cong: "c_long x = c_long y \<longleftrightarrow> x mod 2 ^ 64 = y mod 2 ^ 64"
proof -
  have "c_long x = c_long y \<longleftrightarrow> (x + 2 ^ 63) mod 2 ^ 64 = (y + 2 ^ 63) mod (2 ^ 64 :: int)"
    by (simp add: c_long_def)
  also have "\<dots> \<longleftrightarrow> x mod 2 ^ 64 = y mod (2 ^ 64 :: int)"
    by (simp add: mod_eq_dvd_iff)
  finally show ?thesis .
qed

lemma c_long_mod: "c_long x mod 2 ^ 64 = x mod 2 ^ 64"
  by (simp add: c_long_def mod_simps)

lemma c_int_eq_sint: "c_int x = sint (word_of_int x :: 32 word)"
  by (simp add: c_int_def sint_sbintrunc' signed_take_bit_eq_take_bit_shift take_bit_eq_mod)

section \<open>Bytes and C strings\<close>

text \<open>
  A Go string is a byte sequence, here a \<open>char list\<close> (a \<open>char\<close> is one byte). A C string
  is read up to its first NUL byte.
\<close>

type_synonym bytes = "char list"

abbreviation NUL :: char where
  "NUL \<equiv> CHR 0x00"

definition c_str :: "bytes \<Rightarrow> bytes" where
  "c_str bs = takeWhile (\<lambda>c. c \<noteq> NUL) bs"

lemma c_str_append_NUL [simp]: "c_str (s @ [NUL]) = c_str s"
  by (induction s) (auto simp: c_str_def)

lemma c_str_no_NUL: "NUL \<notin> set s \<Longrightarrow> c_str s = s"
  unfolding c_str_def by (induction s) auto

lemma NUL_notin_c_str [simp]: "NUL \<notin> set (c_str s)"
  by (auto simp: c_str_def dest: set_takeWhileD)

lemma c_str_idem [simp]: "c_str (c_str s) = c_str s"
  by (simp add: c_str_no_NUL)

lemma c_str_Nil [simp]: "c_str [] = []"
  by (simp add: c_str_def)

section \<open>Decimal printing\<close>

text \<open>What an output stream prints for an \<open>int\<close>: a minus sign and the decimal digits.\<close>

fun dec_nat :: "nat \<Rightarrow> string" where
  "dec_nat n = (if n < 10 then [char_of (48 + n)] else dec_nat (n div 10) @ [char_of (48 + n mod 10)])"

declare dec_nat.simps [simp del]

definition dec_int :: "int \<Rightarrow> string" where
  "dec_int i = (if i < 0 then ''-'' @ dec_nat (nat (- i)) else dec_nat (nat i))"

lemma dec_nat_chars: "c \<in> set (dec_nat n) \<Longrightarrow> c \<noteq> NUL"
proof (induction n rule: dec_nat.induct)
  case (1 n)
  have digit: "char_of (48 + k) \<noteq> NUL" if "k < 10" for k :: nat
  proof
    assume "char_of (48 + k) = NUL"
    then have "of_char (char_of (48 + k) :: char) = (0 :: nat)" by simp
    with that show False by (simp add: of_char_of)
  qed
  show ?case
  proof (cases "n < 10")
    case True
    with "1.prems" digit [of n] show ?thesis by (simp add: dec_nat.simps [of n])
  next
    case False
    with "1.prems" have "c \<in> set (dec_nat (n div 10)) \<or> c = char_of (48 + n mod 10)"
      by (auto simp: dec_nat.simps [of n])
    with "1.IH" [OF False] digit [of "n mod 10"] show ?thesis by auto
  qed
qed

lemma dec_int_chars: "c \<in> set (dec_int i) \<Longrightarrow> c \<noteq> NUL"
  by (auto simp: dec_int_def dest: dec_nat_chars split: if_splits)

section \<open>Association lists\<close>

lemma map_of_update_cases:
  "map_of (AList.update k v xs) = (map_of xs)(k \<mapsto> v)"
  by (rule update_conv')

lemma set_update_distinct:
  "distinct (map fst xs) \<Longrightarrow> k \<notin> fst ` set xs \<Longrightarrow> set (AList.update k v xs) = insert (k, v) (set xs)"
  by (induction xs) auto

lemma length_update_fresh:
  "k \<notin> fst ` set xs \<Longrightarrow> length (AList.update k v xs) = Suc (length xs)"
  by (induction xs) auto

lemma set_delete_key: "set (AList.delete k xs) = {p \<in> set xs. fst p \<noteq> k}"
  by (auto simp: AList.delete_eq)

lemma length_delete_key:
  "distinct (map fst xs) \<Longrightarrow> k \<in> fst ` set xs \<Longrightarrow> Suc (length (AList.delete k xs)) = length xs"
proof (induction xs)
  case Nil
  then show ?case by simp
next
  case (Cons p xs)
  show ?case
  proof (cases "fst p = k")
    case True
    with Cons.prems(1) have "\<forall>q \<in> set xs. fst q \<noteq> k" by (auto simp: image_iff)
    then have "AList.delete k xs = xs"
      by (auto simp: AList.delete_eq filter_id_conv)
    with True show ?thesis by (cases p) simp
  next
    case False
    with Cons show ?thesis by (cases p) auto
  qed
qed

end
