(* ===== verification/Runtime.thy ===== *)
theory Runtime
  imports Prelude
begin

text \<open>
  The state both halves of the program share. The C++ half (v8go.cc) keeps \<open>m_ctx\<close>,
  \<open>m_value\<close>, \<open>m_template\<close> and \<open>m_unboundScript\<close> objects on the C++ heap; the Go half
  keeps \<open>Isolate\<close>, \<open>Context\<close> and \<open>template\<close> structs on the Go heap and the package
  variables of context.go and isolate.go. Pointers are addresses into partial maps, so that
  aliasing, null, dangling and double-freed pointers are all visible. V8 itself is not part
  of the repository: its state is the type parameter \<open>'e\<close>, what a V8 handle refers to is
  \<open>'j\<close>, and a Go callback closure is \<open>'cb\<close>.
\<close>

section \<open>The C++ structs\<close>

type_synonym addr = nat

text \<open>\<open>struct m_ctx\<close>: the values it tracks by id, its unbound scripts, its V8 context.\<close>

record 'j m_ctx =
  mc_iso :: addr
  mc_vals :: "(int \<times> addr) list"
  mc_unboundScripts :: "addr list"
  mc_ptr :: 'j
  mc_nextValId :: int

text \<open>\<open>struct m_value\<close>: its id in the table of its context, its isolate, its context, its handle.\<close>

record 'j m_value =
  mv_id :: int
  mv_iso :: addr
  mv_ctx :: "addr option"
  mv_ptr :: 'j

record 'j m_template =
  mt_iso :: addr
  mt_ptr :: 'j

record 'j m_unboundScript =
  mu_ptr :: 'j

text \<open>
  A live V8 isolate, as far as v8go.cc reads it: the embedder data slot 0, which holds the
  isolate's internal \<open>m_ctx\<close>.
\<close>

record v8_isolate =
  slot0 :: "addr option"

text \<open>
  The C structs of the profiler in v8go.h: the profiler with its V8 object and isolate, a
  profile with its title block and its root node, and a node of the top-down tree, whose
  strings V8 keeps and whose children are an array of node pointers.
\<close>

record 'j CPUProfiler_c =
  pr_ptr :: "'j option"
  pr_iso :: "addr option"

record 'j CPUProfile_c =
  cp_ptr :: "'j option"
  cp_title :: "addr option"
  cp_root :: addr
  cp_startTime :: int
  cp_endTime :: int

record 'j CPUProfileNode_c =
  cn_ptr :: 'j
  cn_nodeId :: "32 word"
  cn_scriptId :: int
  cn_scriptResourceName :: bytes
  cn_functionName :: bytes
  cn_lineNumber :: int
  cn_columnNumber :: int
  cn_hitCount :: "32 word"
  cn_bailoutReason :: bytes
  cn_childrenCount :: int
  cn_children :: "addr list"

text \<open>What \<open>malloc\<close> blocks of the program hold: bytes, 64-bit words or one \<open>uint32_t\<close>.\<close>

datatype block = Chars bytes | U64s "64 word list" | U32 "32 word"

section \<open>The Go structs\<close>

text \<open>\<open>type Value struct\<close>: the C++ value and the Go context, either of which may be nil.\<close>

record Value =
  v_ptr :: "addr option"
  v_ctx :: "addr option"

text \<open>\<open>type Isolate struct\<close>; the mutex is implicit, every operation on \<open>cbs\<close> being atomic.\<close>

record 'cb Isolate =
  i_ptr :: "addr option"
  cbSeq :: int
  cbs :: "int \<Rightarrow> 'cb option"
  i_null :: "Value option"
  i_undefined :: "Value option"

text \<open>\<open>type Context struct\<close>: its registry reference, the C++ context, the Go isolate.\<close>

record Context =
  c_ref :: int
  c_ptr :: "addr option"
  c_iso :: addr

text \<open>\<open>type template struct\<close>; the isolate is nil in the empty global template of NewContext.\<close>

record template =
  t_ptr :: "addr option"
  t_iso :: "addr option"

text \<open>\<open>type CPUProfileNode struct\<close>, with its links to the parent and the children.\<close>

record CPUProfileNode =
  n_nodeID :: int
  n_scriptID :: int
  n_scriptResourceName :: bytes
  n_functionName :: bytes
  n_lineNumber :: int
  n_columnNumber :: int
  n_hitCount :: int
  n_bailoutReason :: bytes
  n_children :: "addr list"
  n_parent :: "addr option"

text \<open>\<open>type ctxRef struct\<close> and the package variables \<open>ctxSeq\<close> and \<open>ctxRegistry\<close>.\<close>

record ctxRef =
  r_ctx :: addr
  refCount :: int

record registry =
  ctxSeq :: int
  ctxRegistry :: "int \<Rightarrow> ctxRef option"

section \<open>The world\<close>

record ('e, 'j, 'cb) world =
  brk :: nat
  isolates :: "addr \<Rightarrow> v8_isolate option"
  mctxs :: "addr \<Rightarrow> 'j m_ctx option"
  mvals :: "addr \<Rightarrow> 'j m_value option"
  mtmpls :: "addr \<Rightarrow> 'j m_template option"
  mscripts :: "addr \<Rightarrow> 'j m_unboundScript option"
  cprofilers :: "addr \<Rightarrow> 'j CPUProfiler_c option"
  cprofiles :: "addr \<Rightarrow> 'j CPUProfile_c option"
  cnodes :: "addr \<Rightarrow> 'j CPUProfileNode_c option"
  blocks :: "addr \<Rightarrow> block option"
  gbrk :: nat
  gisos :: "addr \<Rightarrow> 'cb Isolate option"
  gctxs :: "addr \<Rightarrow> Context option"
  gtmpls :: "addr \<Rightarrow> template option"
  gnodes :: "addr \<Rightarrow> CPUProfileNode option"
  reg :: registry
  v8once :: bool
  v8 :: 'e

type_synonym ('a, 'e, 'j, 'cb) op = "('e, 'j, 'cb) world \<Rightarrow> ('a, ('e, 'j, 'cb) world) res"

text \<open>
  The two halves allocate from their own supply of addresses, which are never reused, so
  that a stale pointer is always recognised as such. The supplies end at \<open>mem_limit\<close>, the
  size of the user address space of the supported platforms.
\<close>

definition mem_limit :: nat where
  "mem_limit = 2 ^ 47"

definition c_new :: "(addr, 'e, 'j, 'cb) op" where
  "c_new w = (if brk w < mem_limit then Ok (brk w) (w\<lparr>brk := Suc (brk w)\<rparr>)
              else Fault OutOfMemory w)"

definition go_new :: "(addr, 'e, 'j, 'cb) op" where
  "go_new w = (if gbrk w < mem_limit then Ok (gbrk w) (w\<lparr>gbrk := Suc (gbrk w)\<rparr>)
               else Fault OutOfMemory w)"

text \<open>Reading through a C pointer (\<open>None\<close> is \<open>nullptr\<close>) and through a Go pointer.\<close>

definition c_deref :: "(addr \<Rightarrow> 'a option) \<Rightarrow> addr option \<Rightarrow> (addr \<times> 'a) option" where
  "c_deref h p = (case p of None \<Rightarrow> None
     | Some a \<Rightarrow> (case h a of None \<Rightarrow> None | Some x \<Rightarrow> Some (a, x)))"

lemma c_deref_simps [simp]:
  "c_deref h None = None"
  "c_deref h (Some a) = map_option (Pair a) (h a)"
  by (auto simp: c_deref_def split: option.splits)

lemma c_deref_Some_iff: "c_deref h p = Some (a, x) \<longleftrightarrow> p = Some a \<and> h a = Some x"
  by (cases p) auto

section \<open>Blocks and strings across the border\<close>

definition malloc :: "block \<Rightarrow> (addr, 'e, 'j, 'cb) op" where
  "malloc b w = bindR (c_new w) (\<lambda>a w. Ok a (w\<lparr>blocks := (blocks w)(a \<mapsto> b)\<rparr>))"

text \<open>\<open>free\<close>: nothing for a null pointer, undefined for a pointer that is not a live block.\<close>

definition cfree :: "addr option \<Rightarrow> (unit, 'e, 'j, 'cb) op" where
  "cfree p w = (case p of None \<Rightarrow> Ok () w
     | Some a \<Rightarrow> (case blocks w a of None \<Rightarrow> Fault Segv w
                  | Some _ \<Rightarrow> Ok () (w\<lparr>blocks := (blocks w)(a := None)\<rparr>)))"

text \<open>\<open>C.CString\<close> copies the bytes of a Go string and adds a NUL.\<close>

definition CString :: "bytes \<Rightarrow> (addr, 'e, 'j, 'cb) op" where
  "CString s = malloc (Chars (s @ [NUL]))"

text \<open>
  What C reads through a \<open>const char*\<close>: the bytes before the first NUL; \<open>None\<close> when the
  pointer is not a live block of bytes that has one.
\<close>

definition read_cstr :: "addr \<Rightarrow> ('e, 'j, 'cb) world \<Rightarrow> bytes option" where
  "read_cstr a w = (case blocks w a of
       Some (Chars bs) \<Rightarrow> (if NUL \<in> set bs then Some (c_str bs) else None)
     | _ \<Rightarrow> None)"

text \<open>\<open>C.GoString\<close> (the empty string for nil) and \<open>C.GoStringN\<close>.\<close>

definition GoString :: "addr option \<Rightarrow> (bytes, 'e, 'j, 'cb) op" where
  "GoString p w = (case p of None \<Rightarrow> Ok [] w
     | Some a \<Rightarrow> (case read_cstr a w of None \<Rightarrow> Fault Segv w | Some s \<Rightarrow> Ok s w))"

definition GoStringN :: "addr option \<Rightarrow> int \<Rightarrow> (bytes, 'e, 'j, 'cb) op" where
  "GoStringN p n w = (case p of None \<Rightarrow> Ok [] w
     | Some a \<Rightarrow> (case blocks w a of
          Some (Chars bs) \<Rightarrow> (if 0 \<le> n \<and> nat n \<le> length bs then Ok (take (nat n) bs) w
                              else Fault Segv w)
        | _ \<Rightarrow> Fault Segv w))"

text \<open>
  \<open>defer C.free(p)\<close>: the rest of the function runs, then the block is freed, also when the
  function is left by a Go panic.
\<close>

fun defer_free :: "addr option \<Rightarrow> ('a, ('e, 'j, 'cb) world) res \<Rightarrow> ('a, ('e, 'j, 'cb) world) res" where
  "defer_free p (Ok a w) = bindR (cfree p w) (\<lambda>_ w. Ok a w)"
| "defer_free p (Fault f w) =
     (if recoverable f then bindR (cfree p w) (\<lambda>_ w. Fault f w) else Fault f w)"

text \<open>\<open>cs := C.CString(s); defer C.free(cs)\<close> around the rest of a function.\<close>

definition withCString :: "bytes \<Rightarrow> (addr \<Rightarrow> ('a, 'e, 'j, 'cb) op) \<Rightarrow> ('a, 'e, 'j, 'cb) op" where
  "withCString s body w = bindR (CString s w) (\<lambda>p w. defer_free (Some p) (body p w))"

section \<open>Laws of the heaps\<close>

lemma c_new_simps [res_simps]:
  "brk w < mem_limit \<Longrightarrow> c_new w = Ok (brk w) (w\<lparr>brk := Suc (brk w)\<rparr>)"
  by (simp add: c_new_def)

lemma go_new_simps [res_simps]:
  "gbrk w < mem_limit \<Longrightarrow> go_new w = Ok (gbrk w) (w\<lparr>gbrk := Suc (gbrk w)\<rparr>)"
  by (simp add: go_new_def)

lemma c_new_eq_Ok:
  "c_new w = Ok a w' \<longleftrightarrow> brk w < mem_limit \<and> a = brk w \<and> w' = w\<lparr>brk := Suc (brk w)\<rparr>"
  by (auto simp: c_new_def)

lemma c_new_eq_Fault: "c_new w = Fault f w' \<longleftrightarrow> \<not> brk w < mem_limit \<and> f = OutOfMemory \<and> w' = w"
  by (auto simp: c_new_def)

lemma go_new_eq_Ok:
  "go_new w = Ok a w' \<longleftrightarrow> gbrk w < mem_limit \<and> a = gbrk w \<and> w' = w\<lparr>gbrk := Suc (gbrk w)\<rparr>"
  by (auto simp: go_new_def)

lemma malloc_eq_Ok:
  "malloc b w = Ok a w' \<longleftrightarrow> brk w < mem_limit \<and> a = brk w \<and>
     w' = w\<lparr>brk := Suc (brk w), blocks := (blocks w)(brk w \<mapsto> b)\<rparr>"
  by (auto simp: malloc_def bindR_eq_Ok c_new_eq_Ok)

lemma malloc_eq_Fault:
  "malloc b w = Fault f w' \<longleftrightarrow> \<not> brk w < mem_limit \<and> f = OutOfMemory \<and> w' = w"
  by (auto simp: malloc_def bindR_eq_Fault c_new_def)

lemma read_cstr_CString [simp]:
  "blocks w a = Some (Chars (s @ [NUL])) \<Longrightarrow> read_cstr a w = Some (c_str s)"
  by (simp add: read_cstr_def)

lemma withCString_Ok:
  assumes "brk w < mem_limit"
    and "body (brk w) (w\<lparr>brk := Suc (brk w), blocks := (blocks w)(brk w \<mapsto> Chars (s @ [NUL]))\<rparr>) = Ok r w2"
    and "blocks w2 (brk w) \<noteq> None"
  shows "withCString s body w = Ok r (w2\<lparr>blocks := (blocks w2)(brk w := None)\<rparr>)"
  using assms by (auto simp: withCString_def CString_def malloc_def c_new_def cfree_def)

end
