(* ===== verification/Interfaces.thy ===== *)
theory Interfaces
  imports Prelude
begin

text \<open>
  The contracts several components share, as locales: tables that hand out numbered
  handles (the context registry, the callback table of an isolate, the value table of a C++
  context), tables whose handles can be given back, resources that are disposed of at most
  once, transition systems with an invariant, and refinement between transition systems. Each
  locale is interpreted in the theory of the component that provides the operations.
\<close>

section \<open>Tables of numbered handles\<close>

text \<open>Handing out handles for a whole list of entries, one after the other.\<close>

primrec allocs :: "('a \<Rightarrow> 's \<Rightarrow> 'r \<times> 's) \<Rightarrow> 'a list \<Rightarrow> 's \<Rightarrow> 'r list \<times> 's" where
  "allocs alloc [] s = ([], s)"
| "allocs alloc (x # xs) s =
     (let (r, s1) = alloc x s; (rs, s2) = allocs alloc xs s1 in (r # rs, s2))"

text \<open>
  \<open>room n s\<close> says that \<open>n\<close> more handles can be handed out before the counter of the table
  repeats itself.
\<close>

locale handle_table =
  fixes alloc :: "'a \<Rightarrow> 's \<Rightarrow> 'r \<times> 's"
    and look :: "'s \<Rightarrow> 'r \<Rightarrow> 'a option"
    and inv :: "'s \<Rightarrow> bool"
    and room :: "nat \<Rightarrow> 's \<Rightarrow> bool"
  assumes alloc_inv: "inv s \<Longrightarrow> room (Suc n) s \<Longrightarrow> alloc x s = (r, s') \<Longrightarrow> inv s'"
    and alloc_room: "inv s \<Longrightarrow> room (Suc n) s \<Longrightarrow> alloc x s = (r, s') \<Longrightarrow> room n s'"
    and alloc_fresh: "inv s \<Longrightarrow> room (Suc n) s \<Longrightarrow> alloc x s = (r, s') \<Longrightarrow> look s r = None"
    and alloc_look: "inv s \<Longrightarrow> room (Suc n) s \<Longrightarrow> alloc x s = (r, s') \<Longrightarrow> look s' = (look s)(r \<mapsto> x)"
begin

lemma allocs_step:
  assumes "allocs alloc (x # xs) s = (rs, s')"
  obtains r s1 rs' where "alloc x s = (r, s1)" "allocs alloc xs s1 = (rs', s')" "rs = r # rs'"
  using assms by (auto split: prod.splits)

lemma allocs_inv:
  assumes "inv s" "room (length xs) s" "allocs alloc xs s = (rs, s')"
  shows "inv s' \<and> room 0 s'"
  using assms
proof (induction xs arbitrary: s rs)
  case Nil
  then show ?case by simp
next
  case (Cons x xs)
  from Cons.prems(3) obtain r s1 rs' where
    a: "alloc x s = (r, s1)" and b: "allocs alloc xs s1 = (rs', s')"
    by (rule allocs_step)
  from Cons.prems(1,2) a have "inv s1" "room (length xs) s1"
    by (auto dest: alloc_inv alloc_room)
  then show ?case using b by (rule Cons.IH)
qed

lemma allocs_keep:
  assumes "inv s" "room (length xs) s" "allocs alloc xs s = (rs, s')" "look s q = Some y"
  shows "look s' q = Some y \<and> q \<notin> set rs"
  using assms
proof (induction xs arbitrary: s rs)
  case Nil
  then show ?case by simp
next
  case (Cons x xs)
  from Cons.prems(3) obtain r s1 rs' where
    a: "alloc x s = (r, s1)" and b: "allocs alloc xs s1 = (rs', s')" and rs: "rs = r # rs'"
    by (rule allocs_step)
  from Cons.prems(1,2) a have s1: "inv s1" "room (length xs) s1" and
    "look s1 = (look s)(r \<mapsto> x)" "look s r = None"
    by (auto dest: alloc_inv alloc_room alloc_look alloc_fresh)
  with Cons.prems(4) have "look s1 q = Some y" and "q \<noteq> r" by auto
  with Cons.IH [OF s1 b] rs show ?case by simp
qed

lemma allocs_handles:
  assumes "inv s" "room (length xs) s" "allocs alloc xs s = (rs, s')"
  shows "length rs = length xs \<and> distinct rs \<and> (\<forall>i < length xs. look s' (rs ! i) = Some (xs ! i))"
  using assms
proof (induction xs arbitrary: s rs)
  case Nil
  then show ?case by simp
next
  case (Cons x xs)
  from Cons.prems(3) obtain r s1 rs' where
    a: "alloc x s = (r, s1)" and b: "allocs alloc xs s1 = (rs', s')" and rs: "rs = r # rs'"
    by (rule allocs_step)
  from Cons.prems(1,2) a have s1: "inv s1" "room (length xs) s1" and "look s1 r = Some x"
    by (auto dest: alloc_inv alloc_room alloc_look)
  from allocs_keep [OF s1 b this(3)] have r: "look s' r = Some x" "r \<notin> set rs'" by auto
  from Cons.IH [OF s1 b] rs r show ?case by (auto simp: nth_Cons')
qed

end

text \<open>A table whose handles can be given back.\<close>

locale removable_table = handle_table alloc look inv room
  for alloc :: "'a \<Rightarrow> 's \<Rightarrow> 'r \<times> 's" and look :: "'s \<Rightarrow> 'r \<Rightarrow> 'a option"
    and inv :: "'s \<Rightarrow> bool" and room :: "nat \<Rightarrow> 's \<Rightarrow> bool" +
  fixes remove :: "'r \<Rightarrow> 's \<Rightarrow> 's"
  assumes remove_inv: "inv s \<Longrightarrow> inv (remove r s)"
    and remove_look: "inv s \<Longrightarrow> look (remove r s) = (look s)(r := None)"
begin

lemma remove_alloc:
  assumes "inv s" "room (Suc n) s" "alloc x s = (r, s')"
  shows "look (remove r s') = look s"
proof -
  from assms have "inv s'" "look s' = (look s)(r \<mapsto> x)" "look s r = None"
    by (auto dest: alloc_inv alloc_look alloc_fresh)
  then show ?thesis by (simp add: remove_look fun_eq_iff)
qed

lemma remove_twice: "inv s \<Longrightarrow> look (remove r (remove r s)) = look (remove r s)"
  by (simp add: remove_inv remove_look)

end

section \<open>Resources disposed of at most once\<close>

text \<open>
  \<open>Dispose\<close>, \<open>Close\<close> and \<open>Delete\<close> of the Go API clear the pointer they have freed and do
  nothing when they find it cleared.
\<close>

locale disposable =
  fixes dispose :: "'w \<Rightarrow> (unit, 'w) res"
    and inv :: "'w \<Rightarrow> bool"
    and disposed :: "'w \<Rightarrow> bool"
  assumes disposes: "inv w \<Longrightarrow> dispose w = Ok u w' \<Longrightarrow> disposed w'"
    and again: "disposed w \<Longrightarrow> dispose w = Ok () w"
begin

lemma twice: "inv w \<Longrightarrow> dispose w = Ok () w' \<Longrightarrow> bindR (dispose w) (\<lambda>_. dispose) = Ok () w'"
  by (simp add: again disposes)

lemma many: "inv w \<Longrightarrow> dispose w = Ok () w' \<Longrightarrow> ((\<lambda>r. bindR r (\<lambda>_. dispose)) ^^ n) (dispose w) = Ok () w'"
  by (induction n) (auto simp: again disposes)

end

section \<open>Invariants of transition systems\<close>

locale invariant_system =
  fixes start :: "'s \<Rightarrow> bool"
    and step :: "'s \<Rightarrow> 's \<Rightarrow> bool"
    and inv :: "'s \<Rightarrow> bool"
  assumes start_inv: "start s \<Longrightarrow> inv s"
    and step_inv: "inv s \<Longrightarrow> step s t \<Longrightarrow> inv t"
begin

lemma steps_inv: "step\<^sup>*\<^sup>* s t \<Longrightarrow> inv s \<Longrightarrow> inv t"
  by (induction rule: rtranclp_induct) (auto intro: step_inv)

lemma reachable_inv: "start s \<Longrightarrow> step\<^sup>*\<^sup>* s t \<Longrightarrow> inv t"
  by (blast intro: steps_inv start_inv)

end

section \<open>Refinement\<close>

text \<open>
  A transition system that implements another one: what its states stand for moves by steps of the
  specification, so that an invariant of the specification holds of every reachable state.
\<close>

locale simulation = invariant_system start step inv
  for start :: "'s \<Rightarrow> bool" and step :: "'s \<Rightarrow> 's \<Rightarrow> bool" and inv :: "'s \<Rightarrow> bool" +
  fixes astart :: "'a \<Rightarrow> bool"
    and astep :: "'a \<Rightarrow> 'a \<Rightarrow> bool"
    and abs :: "'s \<Rightarrow> 'a"
  assumes start_sim: "start s \<Longrightarrow> astart (abs s)"
    and step_sim: "inv s \<Longrightarrow> step s t \<Longrightarrow> astep\<^sup>*\<^sup>* (abs s) (abs t)"
begin

lemma steps_sim: "step\<^sup>*\<^sup>* s t \<Longrightarrow> inv s \<Longrightarrow> astep\<^sup>*\<^sup>* (abs s) (abs t)"
proof (induction rule: rtranclp_induct)
  case (step t u)
  then have "inv t" using steps_inv by blast
  with step show ?case using step_sim by (meson rtranclp_trans)
qed simp

lemma transfer:
  assumes "invariant_system astart astep J" "start s" "step\<^sup>*\<^sup>* s t"
  shows "J (abs t)"
proof -
  have "astep\<^sup>*\<^sup>* (abs s) (abs t)" using assms(2,3) by (blast intro: steps_sim start_inv)
  then show ?thesis using invariant_system.reachable_inv [OF assms(1) start_sim [OF assms(2)]] by blast
qed

end

end
