(* ===== verification/Tracking.thy ===== *)
theory Tracking
  imports Runtime Interfaces
begin

text \<open>
  How v8go.cc owns the values it hands to Go. Every \<open>m_value\<close> is entered into the table of
  its \<open>m_ctx\<close> under a number drawn from \<open>nextValId\<close>; \<open>ValueRelease\<close> takes one value out and
  deletes it, \<open>ContextFree\<close> deletes all that are left, with the unbound scripts and the
  context. The theory proves the ownership invariant \<open>heap_ok\<close> and what each operation does
  to the set of values a context retains.
\<close>

section \<open>Operations\<close>

text \<open>
  The table update of \<open>tracked_value\<close>: \<open>val->id = ++ctx->nextValId; ctx->vals[val->id] = val\<close>.
\<close>

definition track :: "addr \<Rightarrow> 'j m_ctx \<Rightarrow> int \<times> 'j m_ctx" where
  "track a c = (let i = c_long (mc_nextValId c + 1)
     in (i, c\<lparr>mc_nextValId := i, mc_vals := AList.update i a (mc_vals c)\<rparr>))"

definition tracked_value :: "addr option \<Rightarrow> addr \<Rightarrow> (addr, 'e, 'j, 'cb) op" where
  "tracked_value ctx val w =
     (case mvals w val of None \<Rightarrow> Fault Segv w
      | Some mv \<Rightarrow>
          if mv_id mv = 0 then
            (case c_deref (mctxs w) ctx of None \<Rightarrow> Fault Segv w
             | Some (c, mc) \<Rightarrow>
                 (let (i, mc') = track val mc
                  in Ok val (w\<lparr>mctxs := (mctxs w)(c \<mapsto> mc'),
                               mvals := (mvals w)(val \<mapsto> mv\<lparr>mv_id := i\<rparr>)\<rparr>)))
          else Ok val w)"

text \<open>
  The sequence every value-returning function of v8go.cc ends with: \<open>new m_value\<close>, its
  fields, \<open>tracked_value\<close>.
\<close>

definition new_value :: "addr \<Rightarrow> addr option \<Rightarrow> 'j \<Rightarrow> (addr, 'e, 'j, 'cb) op" where
  "new_value isop ctx j w =
     bindR (c_new w) (\<lambda>a w.
       tracked_value ctx a
         (w\<lparr>mvals := (mvals w)(a \<mapsto> \<lparr>mv_id = 0, mv_iso = isop, mv_ctx = ctx, mv_ptr = j\<rparr>)\<rparr>))"

definition tracked_unbound_script :: "addr \<Rightarrow> addr \<Rightarrow> (addr, 'e, 'j, 'cb) op" where
  "tracked_unbound_script ctx us w =
     (case mctxs w ctx of None \<Rightarrow> Fault Segv w
      | Some mc \<Rightarrow> Ok us (w\<lparr>mctxs := (mctxs w)(ctx \<mapsto>
                     mc\<lparr>mc_unboundScripts := mc_unboundScripts mc @ [us]\<rparr>)\<rparr>))"

definition C_ContextRetainedValueCount :: "addr option \<Rightarrow> (int, 'e, 'j, 'cb) op" where
  "C_ContextRetainedValueCount ctx w =
     (case c_deref (mctxs w) ctx of None \<Rightarrow> Fault Segv w
      | Some (c, mc) \<Rightarrow> Ok (c_int (int (length (mc_vals mc)))) w)"

text \<open>
  \<open>Persistent::Reset\<close> gives the handle back to the isolate it lives in; with the isolate
  gone that is an access to freed memory.
\<close>

definition C_ValueRelease :: "addr option \<Rightarrow> (unit, 'e, 'j, 'cb) op" where
  "C_ValueRelease p w =
     (case p of None \<Rightarrow> Ok () w
      | Some a \<Rightarrow>
         (case mvals w a of None \<Rightarrow> Fault Segv w
          | Some mv \<Rightarrow>
             (case c_deref (mctxs w) (mv_ctx mv) of None \<Rightarrow> Fault Segv w
              | Some (c, mc) \<Rightarrow>
                 if isolates w (mv_iso mv) = None then Fault Segv w
                 else Ok () (w\<lparr>mctxs := (mctxs w)(c \<mapsto>
                                 mc\<lparr>mc_vals := AList.delete (mv_id mv) (mc_vals mc)\<rparr>),
                               mvals := (mvals w)(a := None)\<rparr>))))"

primrec free_vals :: "(int \<times> addr) list \<Rightarrow> (unit, 'e, 'j, 'cb) op" where
  "free_vals [] w = Ok () w"
| "free_vals (p # ps) w =
     (case mvals w (snd p) of None \<Rightarrow> Fault Segv w
      | Some mv \<Rightarrow> if isolates w (mv_iso mv) = None then Fault Segv w
                    else free_vals ps (w\<lparr>mvals := (mvals w)(snd p := None)\<rparr>))"

primrec free_scripts :: "addr list \<Rightarrow> (unit, 'e, 'j, 'cb) op" where
  "free_scripts [] w = Ok () w"
| "free_scripts (s # ss) w =
     (case mscripts w s of None \<Rightarrow> Fault Segv w
      | Some _ \<Rightarrow> free_scripts ss (w\<lparr>mscripts := (mscripts w)(s := None)\<rparr>))"

definition C_ContextFree :: "addr option \<Rightarrow> (unit, 'e, 'j, 'cb) op" where
  "C_ContextFree ctx w =
     (case ctx of None \<Rightarrow> Ok () w
      | Some c \<Rightarrow>
         (case mctxs w c of None \<Rightarrow> Fault Segv w
          | Some mc \<Rightarrow>
             if isolates w (mc_iso mc) = None then Fault Segv w
             else bindR (free_vals (mc_vals mc) w) (\<lambda>_ w.
                  bindR (free_scripts (mc_unboundScripts mc) w) (\<lambda>_ w.
                    Ok () (w\<lparr>mctxs := (mctxs w)(c := None)\<rparr>)))))"

section \<open>The value table of a context as a table of handles\<close>

definition table_ok :: "'j m_ctx \<Rightarrow> bool" where
  "table_ok c \<longleftrightarrow> distinct (map fst (mc_vals c)) \<and> (\<forall>k \<in> fst ` set (mc_vals c). c_long k = k)"

text \<open>How many numbers ago a number was drawn, counted around the 64-bit circle.\<close>

definition age :: "'j m_ctx \<Rightarrow> int \<Rightarrow> int" where
  "age c k = (mc_nextValId c - k) mod 2 ^ 64"

definition table_room :: "nat \<Rightarrow> 'j m_ctx \<Rightarrow> bool" where
  "table_room n c \<longleftrightarrow> int n < 2 ^ 64 \<and> (\<forall>k \<in> fst ` set (mc_vals c). age c k + int n < 2 ^ 64)"

definition untrack :: "int \<Rightarrow> 'j m_ctx \<Rightarrow> 'j m_ctx" where
  "untrack i c = c\<lparr>mc_vals := AList.delete i (mc_vals c)\<rparr>"

lemma c_long_c_long [simp]: "c_long (c_long x) = c_long x"
  using c_long_range [of x] by (intro c_long_id) auto

lemma age_next:
  assumes "0 \<le> age c k" "age c k + 1 < 2 ^ 64"
  shows "(c_long (mc_nextValId c + 1) - k) mod 2 ^ 64 = age c k + 1"
proof -
  have "(c_long (mc_nextValId c + 1) - k) mod 2 ^ 64 = (mc_nextValId c + 1 - k) mod 2 ^ 64"
    by (metis c_long_mod mod_diff_left_eq)
  also have "\<dots> = ((mc_nextValId c - k) mod 2 ^ 64 + 1) mod 2 ^ 64"
    by (simp add: mod_simps algebra_simps)
  also have "\<dots> = age c k + 1" using assms by (simp add: age_def)
  finally show ?thesis .
qed

lemma age_nonneg [simp]: "0 \<le> age c k"
  by (simp add: age_def)

lemma track_fresh:
  assumes "table_room (Suc n) c"
  shows "c_long (mc_nextValId c + 1) \<notin> fst ` set (mc_vals c)"
proof
  let ?i = "c_long (mc_nextValId c + 1)"
  assume "?i \<in> fst ` set (mc_vals c)"
  with assms have "age c ?i + 1 < 2 ^ 64" by (auto simp: table_room_def)
  then have "(?i - ?i) mod 2 ^ 64 = age c ?i + 1" by (intro age_next) auto
  then show False using age_nonneg [of c ?i] by simp
qed

interpretation val_table: removable_table track "\<lambda>c. map_of (mc_vals c)" table_ok table_room untrack
proof unfold_locales
  fix c :: "'j m_ctx" and n a i c'
  assume ok: "table_ok c" and room: "table_room (Suc n) c" and new: "track a c = (i, c')"
  have i: "i = c_long (mc_nextValId c + 1)"
    and c': "c' = c\<lparr>mc_nextValId := i, mc_vals := AList.update i a (mc_vals c)\<rparr>"
    using new by (auto simp: track_def Let_def)
  have free: "i \<notin> fst ` set (mc_vals c)" using track_fresh [OF room] i by simp
  have set': "set (mc_vals c') = insert (i, a) (set (mc_vals c))"
    using ok free by (simp add: c' set_update_distinct table_ok_def)
  show "table_ok c'"
    using ok set' by (auto simp: table_ok_def c' distinct_update i)
  show "table_room n c'"
    unfolding table_room_def set'
  proof (intro conjI ballI)
    show "int n < 2 ^ 64" using room by (simp add: table_room_def)
    fix k assume "k \<in> fst ` insert (i, a) (set (mc_vals c))"
    then consider "k = i" | "k \<in> fst ` set (mc_vals c)" by auto
    then show "age c' k + int n < 2 ^ 64"
    proof cases
      case 1
      then show ?thesis using room by (simp add: age_def c' table_room_def)
    next
      case 2
      with room have lt: "age c k + int (Suc n) < 2 ^ 64" by (auto simp: table_room_def)
      then have "age c' k = age c k + 1" using age_next [of c k] by (simp add: age_def c' i)
      with lt show ?thesis by simp
    qed
  qed
  show "map_of (mc_vals c) i = None" using free by (simp add: map_of_eq_None_iff)
  show "map_of (mc_vals c') = (map_of (mc_vals c))(i \<mapsto> a)" by (simp add: c' update_conv')
next
  fix c :: "'j m_ctx" and i
  assume "table_ok c"
  then show "table_ok (untrack i c)"
    by (auto simp: table_ok_def untrack_def distinct_delete set_delete_key)
  show "map_of (mc_vals (untrack i c)) = (map_of (mc_vals c))(i := None)"
    by (simp add: untrack_def delete_conv')
qed

end
