(* ===== verification/Ownership.thy ===== *)
theory Ownership
  imports Tracking
begin

text \<open>
  The ownership invariant of the C++ heap and what the operations of \<open>Tracking\<close> do under it:
  every live value is in the table of exactly one live context under its own number, every
  table entry is a live value, every unbound script belongs to exactly one context, and the
  internal context of a live isolate is live. The abstract view of a context is the set of
  values it retains; the operations are refined to insertion, deletion and removal of the
  whole set.
\<close>

section \<open>The invariant\<close>

text \<open>Nothing is allocated at or above the supply of fresh addresses.\<close>

definition fresh_ok :: "('e, 'j, 'cb) world \<Rightarrow> bool" where
  "fresh_ok w \<longleftrightarrow> brk w \<le> mem_limit \<and>
     (\<forall>a \<ge> brk w. isolates w a = None \<and> mctxs w a = None \<and> mvals w a = None \<and>
        mtmpls w a = None \<and> mscripts w a = None \<and> cprofilers w a = None \<and> cprofiles w a = None \<and>
        cnodes w a = None \<and> blocks w a = None)"

text \<open>
  The table of a context has distinct numbers, all drawn within as many steps as addresses
  have been handed out, and each entry is a live value that points back.
\<close>

definition entries_ok :: "('e, 'j, 'cb) world \<Rightarrow> bool" where
  "entries_ok w \<longleftrightarrow> (\<forall>c mc. mctxs w c = Some mc \<longrightarrow> table_ok mc \<and>
     (\<forall>(k, a) \<in> set (mc_vals mc). age mc k < int (brk w) \<and>
        (\<exists>mv. mvals w a = Some mv \<and> mv_id mv = k \<and> mv_ctx mv = Some c)))"

text \<open>Every live value is entered in the table of a live context: none is leaked.\<close>

definition values_ok :: "('e, 'j, 'cb) world \<Rightarrow> bool" where
  "values_ok w \<longleftrightarrow> (\<forall>a mv. mvals w a = Some mv \<longrightarrow>
     (\<exists>c mc. mv_ctx mv = Some c \<and> mctxs w c = Some mc \<and> (mv_id mv, a) \<in> set (mc_vals mc)))"

text \<open>Unbound scripts are live, listed once, by one context.\<close>

definition scripts_ok :: "('e, 'j, 'cb) world \<Rightarrow> bool" where
  "scripts_ok w \<longleftrightarrow>
     (\<forall>c mc. mctxs w c = Some mc \<longrightarrow> distinct (mc_unboundScripts mc) \<and>
        (\<forall>s \<in> set (mc_unboundScripts mc). mscripts w s \<noteq> None)) \<and>
     (\<forall>c mc c' mc' s. mctxs w c = Some mc \<longrightarrow> mctxs w c' = Some mc' \<longrightarrow>
        s \<in> set (mc_unboundScripts mc) \<longrightarrow> s \<in> set (mc_unboundScripts mc') \<longrightarrow> c = c')"

text \<open>A live isolate has a live internal context, which is its own.\<close>

definition internal_ok :: "('e, 'j, 'cb) world \<Rightarrow> bool" where
  "internal_ok w \<longleftrightarrow> (\<forall>i v. isolates w i = Some v \<longrightarrow>
     (\<exists>c mc. slot0 v = Some c \<and> mctxs w c = Some mc \<and> mc_iso mc = i))"

definition heap_ok :: "('e, 'j, 'cb) world \<Rightarrow> bool" where
  "heap_ok w \<longleftrightarrow> fresh_ok w \<and> entries_ok w \<and> values_ok w \<and> scripts_ok w \<and> internal_ok w"

lemmas heap_ok_defs = heap_ok_def fresh_ok_def entries_ok_def values_ok_def scripts_ok_def internal_ok_def

text \<open>The parts of the world the invariant does not read.\<close>

lemma heap_ok_frame [simp]:
  "heap_ok (w\<lparr>v8 := e\<rparr>) = heap_ok w"
  "heap_ok (w\<lparr>reg := g\<rparr>) = heap_ok w"
  "heap_ok (w\<lparr>gbrk := n\<rparr>) = heap_ok w"
  "heap_ok (w\<lparr>gisos := gi\<rparr>) = heap_ok w"
  "heap_ok (w\<lparr>gctxs := gc\<rparr>) = heap_ok w"
  "heap_ok (w\<lparr>gtmpls := gt\<rparr>) = heap_ok w"
  "heap_ok (w\<lparr>gnodes := gn\<rparr>) = heap_ok w"
  "heap_ok (w\<lparr>v8once := b\<rparr>) = heap_ok w"
  by (simp_all add: heap_ok_defs)

section \<open>The values a context retains\<close>

definition retained :: "('e, 'j, 'cb) world \<Rightarrow> addr \<Rightarrow> addr set" where
  "retained w c = {a. \<exists>mv. mvals w a = Some mv \<and> mv_ctx mv = Some c}"

lemma retained_entries:
  assumes "heap_ok w" "mctxs w c = Some mc"
  shows "retained w c = snd ` set (mc_vals mc)"
proof (rule set_eqI)
  fix a
  show "a \<in> retained w c \<longleftrightarrow> a \<in> snd ` set (mc_vals mc)"
    using assms by (force simp: retained_def heap_ok_def values_ok_def entries_ok_def)
qed

lemma entries_inj:
  assumes "heap_ok w" "mctxs w c = Some mc"
  shows "distinct (map snd (mc_vals mc))"
proof -
  have keys: "distinct (map fst (mc_vals mc))"
    and points: "\<forall>(k, a) \<in> set (mc_vals mc). \<exists>mv. mvals w a = Some mv \<and> mv_id mv = k"
    using assms by (fastforce simp: heap_ok_def entries_ok_def table_ok_def)+
  have "inj_on snd (set (mc_vals mc))"
  proof (rule inj_onI)
    have id: "fst p = mv_id (the (mvals w (snd p)))" if "p \<in> set (mc_vals mc)" for p
      using bspec [OF points that] by (auto split: prod.splits)
    fix p q assume "p \<in> set (mc_vals mc)" "q \<in> set (mc_vals mc)" "snd p = snd q"
    then show "p = q" using id [of p] id [of q] by (simp add: prod_eq_iff)
  qed
  moreover have "distinct (mc_vals mc)" using keys by (simp add: distinct_map)
  ultimately show ?thesis by (simp add: distinct_map)
qed

lemma card_retained:
  assumes "heap_ok w" "mctxs w c = Some mc"
  shows "card (retained w c) = length (mc_vals mc)"
proof -
  have "card (retained w c) = card (set (map snd (mc_vals mc)))"
    using retained_entries [OF assms] by simp
  also have "\<dots> = length (mc_vals mc)"
    using entries_inj [OF assms] by (simp only: distinct_card length_map)
  finally show ?thesis .
qed

lemma finite_retained: "heap_ok w \<Longrightarrow> mctxs w c = Some mc \<Longrightarrow> finite (retained w c)"
  by (simp add: retained_entries)

section \<open>Allocation\<close>

lemma heap_okD_fresh:
  "heap_ok w \<Longrightarrow> brk w \<le> a \<Longrightarrow>
     isolates w a = None \<and> mctxs w a = None \<and> mvals w a = None \<and> mtmpls w a = None \<and>
     mscripts w a = None \<and> blocks w a = None"
  by (simp add: heap_ok_def fresh_ok_def)

lemma heap_ok_brk: "heap_ok w \<Longrightarrow> brk w < mem_limit \<Longrightarrow> heap_ok (w\<lparr>brk := Suc (brk w)\<rparr>)"
  by (fastforce simp: heap_ok_defs)

lemma heap_ok_blocks:
  "heap_ok w \<Longrightarrow> (\<And>a. brk w \<le> a \<Longrightarrow> b a = None) \<Longrightarrow> heap_ok (w\<lparr>blocks := b\<rparr>)"
  by (simp add: heap_ok_defs)

lemma c_new_keeps [holds_intros]:
  "heap_ok w \<Longrightarrow> keeps heap_ok (c_new w)"
  by (simp add: c_new_def heap_ok_brk)

lemma malloc_keeps [holds_intros]: "heap_ok w \<Longrightarrow> keeps heap_ok (malloc b w)"
  using heap_okD_fresh [of w] heap_ok_brk [of w]
  by (auto simp: malloc_def c_new_def intro!: heap_ok_blocks)

lemma cfree_keeps [holds_intros]: "heap_ok w \<Longrightarrow> keeps heap_ok (cfree p w)"
  using heap_okD_fresh [of w] by (auto simp: cfree_def intro!: heap_ok_blocks split: option.splits)

section \<open>Tracking one value\<close>

text \<open>What \<open>new_value\<close> does when memory is left and the context is live.\<close>

lemma new_value_eq:
  assumes "heap_ok w" "brk w < mem_limit" "mctxs w c = Some mc"
  shows "new_value i (Some c) j w =
     (let k = c_long (mc_nextValId mc + 1)
      in Ok (brk w) (w\<lparr>brk := Suc (brk w),
           mctxs := (mctxs w)(c \<mapsto> snd (track (brk w) mc)),
           mvals := (mvals w)(brk w \<mapsto> \<lparr>mv_id = k, mv_iso = i, mv_ctx = Some c, mv_ptr = j\<rparr>)\<rparr>))"
  using assms by (simp add: new_value_def c_new_def tracked_value_def track_def Let_def)

lemma new_value_dangling:
  "mctxs w c = None \<Longrightarrow> brk w < mem_limit \<Longrightarrow> \<exists>w'. new_value i (Some c) j w = Fault Segv w'"
  by (simp add: new_value_def c_new_def tracked_value_def)

lemma new_value_eq_Ok:
  assumes "heap_ok w" "new_value i ctx j w = Ok a w'"
  obtains c mc where "ctx = Some c" "mctxs w c = Some mc" "brk w < mem_limit" "a = brk w"
    "w' = w\<lparr>brk := Suc (brk w), mctxs := (mctxs w)(c \<mapsto> snd (track (brk w) mc)),
            mvals := (mvals w)(brk w \<mapsto> \<lparr>mv_id = c_long (mc_nextValId mc + 1), mv_iso = i,
                                         mv_ctx = Some c, mv_ptr = j\<rparr>)\<rparr>"
  using assms
  by (auto simp: new_value_def c_new_def tracked_value_def track_def Let_def c_deref_def
           split: if_splits option.splits)

text \<open>The table of a context has room for as many values as addresses are left.\<close>

lemma entries_room:
  assumes "heap_ok w" "mctxs w c = Some mc"
  shows "table_room (Suc (2 ^ 63)) mc"
proof -
  have "int (brk w) \<le> 2 ^ 47" using assms by (simp add: heap_ok_def fresh_ok_def mem_limit_def)
  moreover have "\<forall>(k, a) \<in> set (mc_vals mc). age mc k < int (brk w)"
    using assms by (fastforce simp: heap_ok_def entries_ok_def)
  ultimately show ?thesis by (fastforce simp: table_room_def)
qed

lemma track_entries:
  assumes ok: "heap_ok w" and c: "mctxs w c = Some mc" and t: "track a mc = (k, mc')"
  shows "table_ok mc'" "k \<notin> fst ` set (mc_vals mc)" "set (mc_vals mc') = insert (k, a) (set (mc_vals mc))"
    "age mc' k = 0" "\<And>q. q \<in> fst ` set (mc_vals mc) \<Longrightarrow> age mc' q = age mc q + 1"
    "mc_unboundScripts mc' = mc_unboundScripts mc" "mc_iso mc' = mc_iso mc"
proof -
  note room = entries_room [OF ok c]
  have tok: "table_ok mc" using ok c by (auto simp: heap_ok_def entries_ok_def)
  show "table_ok mc'" using val_table.alloc_inv [OF tok room t] .
  have k: "k = c_long (mc_nextValId mc + 1)"
    and mc': "mc' = mc\<lparr>mc_nextValId := k, mc_vals := AList.update k a (mc_vals mc)\<rparr>"
    using t by (auto simp: track_def Let_def)
  show new: "k \<notin> fst ` set (mc_vals mc)" using track_fresh [OF room] k by simp
  show "set (mc_vals mc') = insert (k, a) (set (mc_vals mc))"
    using tok new by (simp add: mc' set_update_distinct table_ok_def)
  show "age mc' k = 0" by (simp add: age_def mc')
  show "age mc' q = age mc q + 1" if "q \<in> fst ` set (mc_vals mc)" for q
  proof -
    from that room have "age mc q + 1 < 2 ^ 64" by (auto simp: table_room_def)
    then show ?thesis using age_next [of mc q] by (simp add: age_def mc' k)
  qed
  show "mc_unboundScripts mc' = mc_unboundScripts mc" "mc_iso mc' = mc_iso mc"
    by (simp_all add: mc')
qed

lemma entries_ok_track:
  assumes ok: "heap_ok w" and c: "mctxs w c = Some mc"
    and t: "track (brk w) mc = (k, mc')"
  shows "entries_ok (w\<lparr>brk := Suc (brk w), mctxs := (mctxs w)(c \<mapsto> mc'),
           mvals := (mvals w)(brk w \<mapsto> \<lparr>mv_id = k, mv_iso = i, mv_ctx = Some c, mv_ptr = j\<rparr>)\<rparr>)"
    (is "entries_ok ?w")
proof -
  note tr = track_entries [OF ok c t]
  have free: "mvals w (brk w) = None" "mctxs w (brk w) = None" using heap_okD_fresh [OF ok, of "brk w"] by auto
  have old: "\<And>q a. (q, a) \<in> set (mc_vals mc) \<Longrightarrow> age mc q < int (brk w) \<and>
      (\<exists>mv. mvals w a = Some mv \<and> mv_id mv = q \<and> mv_ctx mv = Some c)"
    using ok c by (fastforce simp: heap_ok_def entries_ok_def)
  show ?thesis
    unfolding entries_ok_def
  proof (intro allI impI conjI ballI)
    fix d md assume d: "mctxs ?w d = Some md"
    show "table_ok md"
      using d tr(1) ok by (auto simp: heap_ok_def entries_ok_def split: if_splits)
    fix p assume p: "p \<in> set (mc_vals md)"
    show "case p of (q, a) \<Rightarrow> age md q < int (brk ?w) \<and>
        (\<exists>mv. mvals ?w a = Some mv \<and> mv_id mv = q \<and> mv_ctx mv = Some d)"
    proof (cases "d = c")
      case True
      with d have md: "md = mc'" by simp
      from p md tr(3) consider "p = (k, brk w)" | "p \<in> set (mc_vals mc)" by auto
      then show ?thesis
      proof cases
        case 1
        then show ?thesis using md tr(4) True by simp
      next
        case 2
        obtain q a where pq: "p = (q, a)" by (cases p)
        with 2 have "q \<in> fst ` set (mc_vals mc)" by force
        with 2 pq show ?thesis
          using old [of q a] tr(5) [of q] free True md by auto
      qed
    next
      case False
      with d have "mctxs w d = Some md" by simp
      with ok p have "case p of (q, a) \<Rightarrow> age md q < int (brk w) \<and>
          (\<exists>mv. mvals w a = Some mv \<and> mv_id mv = q \<and> mv_ctx mv = Some d)"
        unfolding heap_ok_def entries_ok_def by blast
      then show ?thesis using free by (auto split: prod.splits)
    qed
  qed
qed

lemma values_ok_track:
  assumes ok: "heap_ok w" and c: "mctxs w c = Some mc"
    and t: "track (brk w) mc = (k, mc')"
  shows "values_ok (w\<lparr>brk := Suc (brk w), mctxs := (mctxs w)(c \<mapsto> mc'),
           mvals := (mvals w)(brk w \<mapsto> \<lparr>mv_id = k, mv_iso = i, mv_ctx = Some c, mv_ptr = j\<rparr>)\<rparr>)"
    (is "values_ok ?w")
proof -
  note tr = track_entries [OF ok c t]
  show ?thesis
    unfolding values_ok_def
  proof (intro allI impI)
    fix a mv assume a: "mvals ?w a = Some mv"
    show "\<exists>d md. mv_ctx mv = Some d \<and> mctxs ?w d = Some md \<and> (mv_id mv, a) \<in> set (mc_vals md)"
    proof (cases "a = brk w")
      case True
      with a tr(3) show ?thesis by auto
    next
      case False
      with a ok obtain d md where "mv_ctx mv = Some d" "mctxs w d = Some md" "(mv_id mv, a) \<in> set (mc_vals md)"
        by (fastforce simp: heap_ok_def values_ok_def)
      then show ?thesis using tr(3) c by (cases "d = c") auto
    qed
  qed
qed

lemma heap_ok_track:
  assumes ok: "heap_ok w" and c: "mctxs w c = Some mc" and room: "brk w < mem_limit"
    and t: "track (brk w) mc = (k, mc')"
  shows "heap_ok (w\<lparr>brk := Suc (brk w), mctxs := (mctxs w)(c \<mapsto> mc'),
           mvals := (mvals w)(brk w \<mapsto> \<lparr>mv_id = k, mv_iso = i, mv_ctx = Some c, mv_ptr = j\<rparr>)\<rparr>)"
    (is "heap_ok ?w")
proof -
  note tr = track_entries [OF ok c t]
  have cb: "c < brk w" using heap_okD_fresh [OF ok, of c] c by (cases "brk w \<le> c") auto
  have "fresh_ok ?w" using ok room cb by (auto simp: heap_ok_def fresh_ok_def)
  moreover have "entries_ok ?w" using ok c t by (rule entries_ok_track)
  moreover have "values_ok ?w" using ok c t by (rule values_ok_track)
  moreover have "scripts_ok ?w"
    using ok c tr(6) unfolding heap_ok_def scripts_ok_def by (simp split: if_splits) metis
  moreover have "internal_ok ?w"
    using ok c tr(7) unfolding heap_ok_def internal_ok_def by (simp split: if_splits) (metis option.inject)
  ultimately show ?thesis by (simp add: heap_ok_def)
qed

lemma new_value_ok:
  assumes ok: "heap_ok w" and new: "new_value i ctx j w = Ok a w'"
  shows "heap_ok w'"
  using ok new
proof (rule new_value_eq_Ok)
  fix c mc
  assume c: "mctxs w c = Some mc" and room: "brk w < mem_limit"
    and w': "w' = w\<lparr>brk := Suc (brk w), mctxs := (mctxs w)(c \<mapsto> snd (track (brk w) mc)),
       mvals := (mvals w)(brk w \<mapsto> \<lparr>mv_id = c_long (mc_nextValId mc + 1), mv_iso = i,
                                     mv_ctx = Some c, mv_ptr = j\<rparr>)\<rparr>"
  have "track (brk w) mc = (c_long (mc_nextValId mc + 1), snd (track (brk w) mc))"
    by (simp add: track_def Let_def)
  from heap_ok_track [OF ok c room this] show "heap_ok w'" by (simp only: w')
qed

lemma new_value_keeps [holds_intros]: "heap_ok w \<Longrightarrow> keeps heap_ok (new_value i ctx j w)"
proof (cases "new_value i ctx j w")
  case (Fault f w')
  then have "\<not> recoverable f"
    by (auto simp: new_value_def c_new_def tracked_value_def split: if_splits option.splits prod.splits)
  with Fault show ?thesis by simp
qed (auto dest: new_value_ok)

text \<open>The abstract effect: the new value joins the set of its context, no other set changes.\<close>

lemma new_value_retained:
  assumes "heap_ok w" "new_value i (Some c) j w = Ok a w'"
  shows "retained w' c = insert a (retained w c) \<and> a \<notin> retained w c \<and>
     (\<forall>d. d \<noteq> c \<longrightarrow> retained w' d = retained w d)"
proof -
  have "mvals w (brk w) = None" using heap_okD_fresh [OF assms(1), of "brk w"] by simp
  with assms show ?thesis
    by (auto simp: retained_def elim!: new_value_eq_Ok split: if_splits)
qed

section \<open>Releasing one value\<close>

lemma age_untrack [simp]: "age (untrack k mc) q = age mc q"
  by (simp add: age_def untrack_def)

lemma untrack_fields [simp]:
  "mc_iso (untrack k mc) = mc_iso mc" "mc_unboundScripts (untrack k mc) = mc_unboundScripts mc"
  "mc_vals (untrack k mc) = AList.delete k (mc_vals mc)"
  by (simp_all add: untrack_def)

lemma C_ValueRelease_eq:
  assumes "mvals w a = Some mv" "mv_ctx mv = Some c" "mctxs w c = Some mc" "isolates w (mv_iso mv) \<noteq> None"
  shows "C_ValueRelease (Some a) w =
     Ok () (w\<lparr>mctxs := (mctxs w)(c \<mapsto> untrack (mv_id mv) mc), mvals := (mvals w)(a := None)\<rparr>)"
  using assms by (simp add: C_ValueRelease_def untrack_def)

lemma C_ValueRelease_dangling: "mvals w a = None \<Longrightarrow> C_ValueRelease (Some a) w = Fault Segv w"
  by (simp add: C_ValueRelease_def)

lemma heap_okD_entries:
  assumes "heap_ok w" "mctxs w d = Some md"
  shows "table_ok md \<and> (\<forall>p \<in> set (mc_vals md). age md (fst p) < int (brk w) \<and>
      (\<exists>mv. mvals w (snd p) = Some mv \<and> mv_id mv = fst p \<and> mv_ctx mv = Some d))"
  using assms unfolding heap_ok_def entries_ok_def by (simp add: case_prod_beta)

lemma entries_ok_untrack:
  assumes ok: "heap_ok w" and a: "mvals w a = Some mv" "mv_ctx mv = Some c" and c: "mctxs w c = Some mc"
  shows "entries_ok (w\<lparr>mctxs := (mctxs w)(c \<mapsto> untrack (mv_id mv) mc), mvals := (mvals w)(a := None)\<rparr>)"
    (is "entries_ok ?w")
proof -
  note entry = heap_okD_entries [OF ok]
  show ?thesis
    unfolding entries_ok_def case_prod_beta
  proof (intro allI impI conjI ballI)
    fix d md assume d: "mctxs ?w d = Some md"
    show "table_ok md"
      using d entry [of d] entry [OF c] val_table.remove_inv [of mc] by (auto split: if_splits)
    fix p assume p: "p \<in> set (mc_vals md)"
    show "age md (fst p) < int (brk ?w)"
      using d p entry [of d md] entry [OF c] by (auto simp: set_delete_key split: if_splits)
    have "\<exists>mv'. mvals w (snd p) = Some mv' \<and> mv_id mv' = fst p \<and> mv_ctx mv' = Some d \<and>
        (d = c \<longrightarrow> fst p \<noteq> mv_id mv)"
      using d p entry [of d md] entry [OF c] by (auto simp: set_delete_key split: if_splits)
    then show "\<exists>mv. mvals ?w (snd p) = Some mv \<and> mv_id mv = fst p \<and> mv_ctx mv = Some d"
      using a by auto
  qed
qed

lemma values_ok_untrack:
  assumes ok: "heap_ok w" and a: "mvals w a = Some mv" "mv_ctx mv = Some c" and c: "mctxs w c = Some mc"
  shows "values_ok (w\<lparr>mctxs := (mctxs w)(c \<mapsto> untrack (mv_id mv) mc), mvals := (mvals w)(a := None)\<rparr>)"
    (is "values_ok ?w")
proof -
  note entry = heap_okD_entries [OF ok]
  show ?thesis
    unfolding values_ok_def
  proof (intro allI impI)
    fix b mv' assume b: "mvals ?w b = Some mv'"
    then have "b \<noteq> a" and b': "mvals w b = Some mv'" by (auto split: if_splits)
    from b' ok obtain d md where d: "mv_ctx mv' = Some d" "mctxs w d = Some md" "(mv_id mv', b) \<in> set (mc_vals md)"
      by (fastforce simp: heap_ok_def values_ok_def)
    have "mv_id mv' \<noteq> mv_id mv" if "d = c"
    proof
      assume same: "mv_id mv' = mv_id mv"
      from a ok c have "(mv_id mv, a) \<in> set (mc_vals mc)" by (fastforce simp: heap_ok_def values_ok_def)
      moreover have "(mv_id mv, b) \<in> set (mc_vals mc)" using d c that same by simp
      moreover have "distinct (map fst (mc_vals mc))" using entry [OF c] by (simp add: table_ok_def)
      ultimately have "a = b" by (metis eq_key_imp_eq_value)
      with \<open>b \<noteq> a\<close> show False by simp
    qed
    with d c show "\<exists>d md. mv_ctx mv' = Some d \<and> mctxs ?w d = Some md \<and> (mv_id mv', b) \<in> set (mc_vals md)"
      by (cases "d = c") (auto simp: set_delete_key)
  qed
qed

lemma heap_ok_untrack:
  assumes ok: "heap_ok w" and a: "mvals w a = Some mv" "mv_ctx mv = Some c" and c: "mctxs w c = Some mc"
  shows "heap_ok (w\<lparr>mctxs := (mctxs w)(c \<mapsto> untrack (mv_id mv) mc), mvals := (mvals w)(a := None)\<rparr>)"
    (is "heap_ok ?w")
proof -
  have ca: "c < brk w" using heap_okD_fresh [OF ok, of c] c by (cases "brk w \<le> c") auto
  have "fresh_ok ?w" using ok ca by (auto simp: heap_ok_def fresh_ok_def)
  moreover have "entries_ok ?w" using ok a c by (rule entries_ok_untrack)
  moreover have "values_ok ?w" using ok a c by (rule values_ok_untrack)
  moreover have "scripts_ok ?w"
    using ok c unfolding heap_ok_def scripts_ok_def by (simp split: if_splits) metis
  moreover have "internal_ok ?w"
    using ok c unfolding heap_ok_def internal_ok_def by (simp split: if_splits) (metis option.inject)
  ultimately show ?thesis by (simp add: heap_ok_def)
qed

lemma C_ValueRelease_keeps [holds_intros]: "heap_ok w \<Longrightarrow> keeps heap_ok (C_ValueRelease p w)"
  using heap_ok_untrack [of w]
  by (auto simp: C_ValueRelease_def untrack_def c_deref_def split: option.splits)

section \<open>Freeing a context\<close>

abbreviation without :: "addr set \<Rightarrow> (addr \<Rightarrow> 'a option) \<Rightarrow> addr \<Rightarrow> 'a option" where
  "without A h \<equiv> h |` (- A)"

lemma free_vals_eq:
  assumes "\<forall>p \<in> set ps. \<exists>mv. mvals w (snd p) = Some mv \<and> isolates w (mv_iso mv) \<noteq> None"
    and "distinct (map snd ps)"
  shows "free_vals ps w = Ok () (w\<lparr>mvals := without (snd ` set ps) (mvals w)\<rparr>)"
  using assms
proof (induction ps arbitrary: w)
  case Nil
  then show ?case by simp
next
  case (Cons p ps)
  let ?w1 = "w\<lparr>mvals := (mvals w)(snd p := None)\<rparr>"
  from Cons.prems obtain mv where mv: "mvals w (snd p) = Some mv" "isolates w (mv_iso mv) \<noteq> None"
    by auto
  have "\<forall>q \<in> set ps. \<exists>mv. mvals ?w1 (snd q) = Some mv \<and> isolates ?w1 (mv_iso mv) \<noteq> None"
    using Cons.prems by (auto simp: image_iff)
  then have "free_vals ps ?w1 = Ok () (?w1\<lparr>mvals := without (snd ` set ps) (mvals ?w1)\<rparr>)"
    using Cons.IH Cons.prems(2) by simp
  moreover have "without (snd ` set ps) (mvals ?w1) = without (snd ` set (p # ps)) (mvals w)"
    by (auto simp: fun_eq_iff restrict_map_def)
  ultimately show ?case using mv by simp
qed

lemma free_vals_Ok:
  "free_vals ps w = Ok u w' \<Longrightarrow> w' = w\<lparr>mvals := without (snd ` set ps) (mvals w)\<rparr>"
proof (induction ps arbitrary: w)
  case Nil
  then show ?case by simp
next
  case (Cons p ps)
  let ?w1 = "w\<lparr>mvals := (mvals w)(snd p := None)\<rparr>"
  from Cons.prems have "free_vals ps ?w1 = Ok u w'" by (auto split: option.splits if_splits)
  then have "w' = ?w1\<lparr>mvals := without (snd ` set ps) (mvals ?w1)\<rparr>" by (rule Cons.IH)
  moreover have "without (snd ` set ps) (mvals ?w1) = without (snd ` set (p # ps)) (mvals w)"
    by (auto simp: fun_eq_iff restrict_map_def)
  ultimately show ?case by simp
qed

lemma free_scripts_eq:
  assumes "\<forall>s \<in> set ss. mscripts w s \<noteq> None" and "distinct ss"
  shows "free_scripts ss w = Ok () (w\<lparr>mscripts := without (set ss) (mscripts w)\<rparr>)"
  using assms
proof (induction ss arbitrary: w)
  case Nil
  then show ?case by simp
next
  case (Cons s ss)
  let ?w1 = "w\<lparr>mscripts := (mscripts w)(s := None)\<rparr>"
  have "\<forall>q \<in> set ss. mscripts ?w1 q \<noteq> None" using Cons.prems by auto
  then have "free_scripts ss ?w1 = Ok () (?w1\<lparr>mscripts := without (set ss) (mscripts ?w1)\<rparr>)"
    using Cons.IH Cons.prems(2) by simp
  moreover have "without (set ss) (mscripts ?w1) = without (set (s # ss)) (mscripts w)"
    by (auto simp: fun_eq_iff restrict_map_def)
  ultimately show ?case using Cons.prems by auto
qed

lemma free_scripts_Ok:
  "free_scripts ss w = Ok u w' \<Longrightarrow> w' = w\<lparr>mscripts := without (set ss) (mscripts w)\<rparr>"
proof (induction ss arbitrary: w)
  case Nil
  then show ?case by simp
next
  case (Cons s ss)
  let ?w1 = "w\<lparr>mscripts := (mscripts w)(s := None)\<rparr>"
  from Cons.prems have "free_scripts ss ?w1 = Ok u w'" by (auto split: option.splits)
  then have "w' = ?w1\<lparr>mscripts := without (set ss) (mscripts ?w1)\<rparr>" by (rule Cons.IH)
  moreover have "without (set ss) (mscripts ?w1) = without (set (s # ss)) (mscripts w)"
    by (auto simp: fun_eq_iff restrict_map_def)
  ultimately show ?case by simp
qed

lemma free_vals_Fault: "free_vals ps w = Fault f w' \<Longrightarrow> f = Segv"
  by (induction ps arbitrary: w) (auto split: option.splits if_splits)

lemma free_scripts_Fault: "free_scripts ss w = Fault f w' \<Longrightarrow> f = Segv"
  by (induction ss arbitrary: w) (auto split: option.splits)

text \<open>The heap a context leaves when it is freed.\<close>

definition ctx_freed :: "addr \<Rightarrow> 'j m_ctx \<Rightarrow> ('e, 'j, 'cb) world \<Rightarrow> ('e, 'j, 'cb) world" where
  "ctx_freed c mc w = w\<lparr>mctxs := (mctxs w)(c := None),
     mvals := without (snd ` set (mc_vals mc)) (mvals w),
     mscripts := without (set (mc_unboundScripts mc)) (mscripts w)\<rparr>"

lemma C_ContextFree_Ok:
  assumes "C_ContextFree (Some c) w = Ok u w'"
  obtains mc where "mctxs w c = Some mc" "isolates w (mc_iso mc) \<noteq> None" "w' = ctx_freed c mc w"
  using assms
  by (auto simp: C_ContextFree_def bindR_eq_Ok ctx_freed_def dest!: free_vals_Ok free_scripts_Ok
           split: option.splits if_splits)

lemma C_ContextFree_Fault: "C_ContextFree ctx w = Fault f w' \<Longrightarrow> f = Segv"
  by (auto simp: C_ContextFree_def bindR_eq_Fault dest: free_vals_Fault free_scripts_Fault split: option.splits if_splits)

text \<open>The isolates of everything a context holds are still there.\<close>

definition isolates_live :: "('e, 'j, 'cb) world \<Rightarrow> addr \<Rightarrow> bool" where
  "isolates_live w c \<longleftrightarrow>
     (\<forall>mc. mctxs w c = Some mc \<longrightarrow> isolates w (mc_iso mc) \<noteq> None) \<and>
     (\<forall>a mv. mvals w a = Some mv \<longrightarrow> mv_ctx mv = Some c \<longrightarrow> isolates w (mv_iso mv) \<noteq> None)"

lemma C_ContextFree_eq:
  assumes ok: "heap_ok w" and c: "mctxs w c = Some mc" and live: "isolates_live w c"
  shows "C_ContextFree (Some c) w = Ok () (ctx_freed c mc w)"
proof -
  have "\<forall>p \<in> set (mc_vals mc). \<exists>mv. mvals w (snd p) = Some mv \<and> isolates w (mv_iso mv) \<noteq> None"
  proof
    fix p assume p: "p \<in> set (mc_vals mc)"
    obtain k a where "p = (k, a)" by (cases p)
    with p ok c obtain mv where "mvals w (snd p) = Some mv" "mv_ctx mv = Some c"
      unfolding heap_ok_def entries_ok_def by fastforce
    with live show "\<exists>mv. mvals w (snd p) = Some mv \<and> isolates w (mv_iso mv) \<noteq> None"
      by (auto simp: isolates_live_def)
  qed
  note vals = free_vals_eq [OF this entries_inj [OF ok c]]
  have "\<forall>s \<in> set (mc_unboundScripts mc). mscripts w s \<noteq> None" "distinct (mc_unboundScripts mc)"
    using ok c by (auto simp: heap_ok_def scripts_ok_def)
  then show ?thesis
    using vals c live by (simp add: C_ContextFree_def isolates_live_def free_scripts_eq ctx_freed_def)
qed

lemma entries_ok_ctx_freed:
  assumes ok: "heap_ok w" and c: "mctxs w c = Some mc"
  shows "entries_ok ((ctx_freed c mc w)\<lparr>isolates := isos\<rparr>)" (is "entries_ok ?w")
proof -
  have mine: "snd p \<notin> snd ` set (mc_vals mc)" if "mctxs w d = Some md" "d \<noteq> c" "p \<in> set (mc_vals md)" for d md p
  proof
    assume "snd p \<in> snd ` set (mc_vals mc)"
    then have "snd p \<in> retained w c" using retained_entries [OF ok c] by simp
    moreover have "snd p \<in> retained w d" using that retained_entries [OF ok that(1)] by simp
    ultimately show False using that(2) by (auto simp: retained_def)
  qed
  show ?thesis
    unfolding entries_ok_def case_prod_beta
  proof (intro allI impI conjI ballI)
    fix d md assume d: "mctxs ?w d = Some md"
    then have d': "mctxs w d = Some md" "d \<noteq> c" by (auto simp: ctx_freed_def restrict_map_def split: if_splits)
    show "table_ok md" using ok d' by (auto simp: heap_ok_def entries_ok_def)
    fix p assume p: "p \<in> set (mc_vals md)"
    have e: "age md (fst p) < int (brk w) \<and>
        (\<exists>mv. mvals w (snd p) = Some mv \<and> mv_id mv = fst p \<and> mv_ctx mv = Some d)"
      using ok d'(1) p unfolding heap_ok_def entries_ok_def case_prod_beta by blast
    then show "age md (fst p) < int (brk ?w)" by (simp add: ctx_freed_def restrict_map_def)
    show "\<exists>mv. mvals ?w (snd p) = Some mv \<and> mv_id mv = fst p \<and> mv_ctx mv = Some d"
      using e mine [OF d' p] by (simp add: ctx_freed_def restrict_map_def)
  qed
qed

lemma heap_ok_ctx_freed:
  assumes ok: "heap_ok w" and c: "mctxs w c = Some mc"
    and sub: "\<And>i v. isos i = Some v \<Longrightarrow> isolates w i = Some v \<and> slot0 v \<noteq> Some c"
  shows "heap_ok ((ctx_freed c mc w)\<lparr>isolates := isos\<rparr>)" (is "heap_ok ?w")
proof -
  have gone: "isos a = None" if "isolates w a = None" for a
    using sub [of a] that by (cases "isos a") auto
  have "fresh_ok ?w"
    using ok gone by (simp add: heap_ok_def fresh_ok_def ctx_freed_def restrict_map_def)
  moreover have "entries_ok ?w" by (rule entries_ok_ctx_freed [OF ok c])
  moreover have "values_ok ?w"
    unfolding values_ok_def
  proof (intro allI impI)
    fix a mv assume a: "mvals ?w a = Some mv"
    then have a': "mvals w a = Some mv" "a \<notin> retained w c"
      using retained_entries [OF ok c] by (auto simp: ctx_freed_def restrict_map_def split: if_splits)
    from a'(1) ok obtain d md where "mv_ctx mv = Some d" "mctxs w d = Some md" "(mv_id mv, a) \<in> set (mc_vals md)"
      by (fastforce simp: heap_ok_def values_ok_def)
    moreover have "d \<noteq> c" using a' calculation by (auto simp: retained_def)
    ultimately show "\<exists>c mc. mv_ctx mv = Some c \<and> mctxs ?w c = Some mc \<and> (mv_id mv, a) \<in> set (mc_vals mc)"
      by (auto simp: ctx_freed_def restrict_map_def)
  qed
  moreover have "scripts_ok ?w"
    using ok c unfolding heap_ok_def scripts_ok_def ctx_freed_def by (simp add: restrict_map_def split: if_splits) metis
  moreover have "internal_ok ?w"
    using ok sub unfolding heap_ok_def internal_ok_def ctx_freed_def by simp metis
  ultimately show ?thesis by (simp add: heap_ok_def)
qed

lemma retained_ctx_freed:
  assumes "heap_ok w" "mctxs w c = Some mc"
  shows "retained (ctx_freed c mc w) d = (if d = c then {} else retained w d)"
proof -
  have "snd ` set (mc_vals mc) = retained w c" using retained_entries [OF assms] by simp
  then show ?thesis by (auto simp: retained_def ctx_freed_def restrict_map_def split: if_splits)
qed

end
