(* ===== verification/Registry.thy ===== *)
theory Registry
  imports Runtime Interfaces
begin

text \<open>
  The two registries of the Go half, as the code keeps them: the package-wide registry of
  contexts (context.go), from which a callback out of V8 finds its \<open>Context\<close> by an integer
  reference, and the callback table of an isolate (isolate.go). Each is one critical section
  of its mutex per operation, so each operation is a function on the state the mutex guards.
\<close>

section \<open>The context registry\<close>

text \<open>The first critical section of NewContext: \<open>ctxSeq++; ref := ctxSeq\<close>.\<close>

definition next_ref :: "registry \<Rightarrow> int \<times> registry" where
  "next_ref g = (let s = c_long (ctxSeq g + 1) in (s, g\<lparr>ctxSeq := s\<rparr>))"

text \<open>\<open>(c *Context) register\<close>, for the context at address \<open>a\<close> with reference \<open>ref\<close>.\<close>

definition register :: "addr \<Rightarrow> int \<Rightarrow> registry \<Rightarrow> registry" where
  "register a ref g =
     (let r = (case ctxRegistry g ref of None \<Rightarrow> \<lparr>r_ctx = a, refCount = 0\<rparr> | Some r \<Rightarrow> r)
      in g\<lparr>ctxRegistry := (ctxRegistry g)(ref \<mapsto> r\<lparr>refCount := c_long (refCount r + 1)\<rparr>)\<rparr>)"

definition deregister :: "int \<Rightarrow> registry \<Rightarrow> registry" where
  "deregister ref g =
     (case ctxRegistry g ref of None \<Rightarrow> g
      | Some r \<Rightarrow>
          (let n = c_long (refCount r - 1)
           in if n \<le> 0 then g\<lparr>ctxRegistry := (ctxRegistry g)(ref := None)\<rparr>
              else g\<lparr>ctxRegistry := (ctxRegistry g)(ref \<mapsto> r\<lparr>refCount := n\<rparr>)\<rparr>))"

definition getContext :: "int \<Rightarrow> registry \<Rightarrow> addr option" where
  "getContext ref g = (case ctxRegistry g ref of None \<Rightarrow> None | Some r \<Rightarrow> Some (r_ctx r))"

text \<open>
  Every entry has been handed out by \<open>ctxSeq\<close> and is counted exactly once: NewContext is
  the only caller of \<open>register\<close>, and it registers a reference it has just drawn.
\<close>

definition reg_ok :: "registry \<Rightarrow> bool" where
  "reg_ok g \<longleftrightarrow> 0 \<le> ctxSeq g \<and> ctxSeq g < 2 ^ 63 \<and>
     (\<forall>r e. ctxRegistry g r = Some e \<longrightarrow> 1 \<le> r \<and> r \<le> ctxSeq g \<and> refCount e = 1)"

definition new_ref :: "addr \<Rightarrow> registry \<Rightarrow> int \<times> registry" where
  "new_ref a g = (let (r, g1) = next_ref g in (r, register a r g1))"

definition reg_room :: "nat \<Rightarrow> registry \<Rightarrow> bool" where
  "reg_room n g \<longleftrightarrow> ctxSeq g + int n < 2 ^ 63"

lemma next_ref_eq:
  assumes "0 \<le> ctxSeq g" "ctxSeq g + 1 < 2 ^ 63"
  shows "next_ref g = (ctxSeq g + 1, g\<lparr>ctxSeq := ctxSeq g + 1\<rparr>)"
  using assms by (simp add: next_ref_def c_long_id Let_def)

lemma reg_ok_unused: "reg_ok g \<Longrightarrow> ctxSeq g < r \<Longrightarrow> ctxRegistry g r = None"
  by (cases "ctxRegistry g r") (fastforce simp: reg_ok_def)+

lemma register_fresh:
  "ctxRegistry g r = None \<Longrightarrow>
     register a r g = g\<lparr>ctxRegistry := (ctxRegistry g)(r \<mapsto> \<lparr>r_ctx = a, refCount = 1\<rparr>)\<rparr>"
  by (simp add: register_def c_long_def)

lemma deregister_ok:
  "reg_ok g \<Longrightarrow> deregister r g = g\<lparr>ctxRegistry := (ctxRegistry g)(r := None)\<rparr>"
  by (cases "ctxRegistry g r") (auto simp: deregister_def reg_ok_def c_long_def fun_upd_idem)

lemma reg_ok_next_ref: "reg_ok g \<Longrightarrow> ctxSeq g + 1 < 2 ^ 63 \<Longrightarrow> reg_ok (snd (next_ref g))"
  by (fastforce simp: reg_ok_def next_ref_eq)

lemma reg_ok_register:
  "reg_ok g \<Longrightarrow> 1 \<le> r \<Longrightarrow> r \<le> ctxSeq g \<Longrightarrow> ctxRegistry g r = None \<Longrightarrow> reg_ok (register a r g)"
  by (auto simp: reg_ok_def register_fresh)

lemma reg_ok_deregister: "reg_ok g \<Longrightarrow> reg_ok (deregister r g)"
  by (auto simp: deregister_ok) (auto simp: reg_ok_def split: if_splits)

lemma ctxSeq_register [simp]: "ctxSeq (register a r g) = ctxSeq g"
  by (simp add: register_def Let_def)

lemma ctxSeq_deregister [simp]: "ctxSeq (deregister r g) = ctxSeq g"
  by (simp add: deregister_def Let_def split: option.splits)

lemma getContext_register_fresh:
  "ctxRegistry g r = None \<Longrightarrow> getContext q (register a r g) = (if q = r then Some a else getContext q g)"
  by (simp add: getContext_def register_fresh)

lemma getContext_deregister:
  "reg_ok g \<Longrightarrow> getContext q (deregister r g) = (if q = r then None else getContext q g)"
  by (simp add: getContext_def deregister_ok)

lemma getContext_next_ref [simp]: "getContext q (snd (next_ref g)) = getContext q g"
  by (simp add: getContext_def next_ref_def Let_def)

interpretation ctx_table: removable_table new_ref "\<lambda>g r. getContext r g" reg_ok reg_room deregister
proof unfold_locales
  fix g n a r g'
  assume ok: "reg_ok g" and room: "reg_room (Suc n) g" and new: "new_ref a g = (r, g')"
  let ?g1 = "snd (next_ref g)"
  from ok room have le: "0 \<le> ctxSeq g" "ctxSeq g + 1 < 2 ^ 63"
    by (auto simp: reg_ok_def reg_room_def)
  from new have r: "r = ctxSeq g + 1" and g': "g' = register a r ?g1"
    by (auto simp: new_ref_def next_ref_eq [OF le])
  have ok1: "reg_ok ?g1" using ok le by (simp add: reg_ok_next_ref)
  have free: "ctxRegistry g r = None" using ok r by (simp add: reg_ok_unused)
  then have free1: "ctxRegistry ?g1 r = None" by (simp add: next_ref_eq [OF le])
  show "reg_ok g'"
    unfolding g' using ok1 free1 r le by (simp add: reg_ok_register next_ref_eq [OF le])
  show "reg_room n g'"
    unfolding g' using room by (simp add: reg_room_def next_ref_eq [OF le])
  show "getContext r g = None" using free by (simp add: getContext_def)
  show "(\<lambda>q. getContext q g') = (\<lambda>q. getContext q g)(r \<mapsto> a)"
    unfolding g' using free1 by (auto simp: fun_eq_iff getContext_register_fresh)
next
  fix g r assume "reg_ok g"
  then show "reg_ok (deregister r g)" by (rule reg_ok_deregister)
  show "(\<lambda>q. getContext q (deregister r g)) = (\<lambda>q. getContext q g)(r := None)"
    using \<open>reg_ok g\<close> by (simp add: fun_eq_iff getContext_deregister)
qed

section \<open>The callback table of an isolate\<close>

definition registerCallback :: "'cb \<Rightarrow> 'cb Isolate \<Rightarrow> int \<times> 'cb Isolate" where
  "registerCallback cb i =
     (let ref = c_long (cbSeq i + 1)
      in (ref, i\<lparr>cbSeq := ref, cbs := (cbs i)(ref \<mapsto> cb)\<rparr>))"

definition getCallback :: "int \<Rightarrow> 'cb Isolate \<Rightarrow> 'cb option" where
  "getCallback ref i = cbs i ref"

definition cbs_ok :: "'cb Isolate \<Rightarrow> bool" where
  "cbs_ok i \<longleftrightarrow> 0 \<le> cbSeq i \<and> cbSeq i < 2 ^ 63 \<and> (\<forall>r \<in> dom (cbs i). 1 \<le> r \<and> r \<le> cbSeq i)"

definition cbs_room :: "nat \<Rightarrow> 'cb Isolate \<Rightarrow> bool" where
  "cbs_room n i \<longleftrightarrow> cbSeq i + int n < 2 ^ 63"

lemma registerCallback_eq:
  "0 \<le> cbSeq i \<Longrightarrow> cbSeq i + 1 < 2 ^ 63 \<Longrightarrow>
     registerCallback cb i =
       (cbSeq i + 1, i\<lparr>cbSeq := cbSeq i + 1, cbs := (cbs i)(cbSeq i + 1 \<mapsto> cb)\<rparr>)"
  by (simp add: registerCallback_def c_long_id Let_def)

lemma cbs_ok_registerCallback:
  "cbs_ok i \<Longrightarrow> cbSeq i + 1 < 2 ^ 63 \<Longrightarrow> cbs_ok (snd (registerCallback cb i))"
  unfolding cbs_ok_def by (simp add: registerCallback_eq) force

lemma cbs_ok_unused:
  assumes "cbs_ok i" "cbSeq i < r"
  shows "cbs i r = None"
proof (rule ccontr)
  assume "cbs i r \<noteq> None"
  then have "r \<in> dom (cbs i)" by auto
  with assms(1) have "r \<le> cbSeq i" by (simp add: cbs_ok_def)
  with assms(2) show False by simp
qed

interpretation cb_table: handle_table registerCallback "\<lambda>i r. getCallback r i" cbs_ok cbs_room
proof unfold_locales
  fix i :: "'cb Isolate" and n cb r i'
  assume ok: "cbs_ok i" and room: "cbs_room (Suc n) i" and new: "registerCallback cb i = (r, i')"
  from ok room have le: "0 \<le> cbSeq i" "cbSeq i + 1 < 2 ^ 63"
    by (auto simp: cbs_ok_def cbs_room_def)
  note eq = registerCallback_eq [OF le, of cb]
  show "cbs_ok i'" using cbs_ok_registerCallback [OF ok le(2), of cb] new by simp
  show "cbs_room n i'" using room new eq by (auto simp: cbs_room_def)
  show "getCallback r i = None"
    using ok new eq by (simp add: cbs_ok_unused getCallback_def)
  show "(\<lambda>r. getCallback r i') = (\<lambda>r. getCallback r i)(r \<mapsto> cb)"
    using new eq by (auto simp: getCallback_def fun_eq_iff)
qed

end
