(* ===== verification/World_Invariant.thy ===== *)
theory World_Invariant
  imports Ownership Registry
begin

text \<open>
  The invariant of the whole program: the ownership invariant of the C++ heap together with
  what ties the Go half to it. Every Go context that is open points to a live C++ context of
  its own, which is never the internal context of an isolate, and is registered under its
  reference; no two contexts ever have the same reference; every registered reference leads to an open context; the callback tables of the
  isolates are in order; an isolate that has not been disposed of points to a live V8 isolate
  of its own.
\<close>

definition gheap_ok :: "('e, 'j, 'cb) world \<Rightarrow> bool" where
  "gheap_ok w \<longleftrightarrow> gbrk w \<le> mem_limit \<and>
     (\<forall>a \<ge> gbrk w. gisos w a = None \<and> gctxs w a = None \<and> gtmpls w a = None \<and> gnodes w a = None)"

definition gisos_ok :: "('e, 'j, 'cb) world \<Rightarrow> bool" where
  "gisos_ok w \<longleftrightarrow>
     (\<forall>a i. gisos w a = Some i \<longrightarrow> cbs_ok i \<and> cbSeq i \<le> int (gbrk w) \<and>
        (\<forall>p. i_ptr i = Some p \<longrightarrow> isolates w p \<noteq> None)) \<and>
     (\<forall>a i b j p. gisos w a = Some i \<longrightarrow> gisos w b = Some j \<longrightarrow>
        i_ptr i = Some p \<longrightarrow> i_ptr j = Some p \<longrightarrow> a = b)"

definition gctxs_ok :: "('e, 'j, 'cb) world \<Rightarrow> bool" where
  "gctxs_ok w \<longleftrightarrow>
     (\<forall>a c. gctxs w a = Some c \<longrightarrow> gisos w (c_iso c) \<noteq> None \<and> c_ref c \<le> ctxSeq (reg w) \<and>
        (\<forall>p. c_ptr c = Some p \<longrightarrow> mctxs w p \<noteq> None \<and> getContext (c_ref c) (reg w) = Some a \<and>
           (\<forall>i v. isolates w i = Some v \<longrightarrow> slot0 v \<noteq> Some p))) \<and>
     (\<forall>a c b d. gctxs w a = Some c \<longrightarrow> gctxs w b = Some d \<longrightarrow>
        (\<exists>p. c_ptr c = Some p \<and> c_ptr d = Some p) \<or> c_ref c = c_ref d \<longrightarrow> a = b)"

definition greg_ok :: "('e, 'j, 'cb) world \<Rightarrow> bool" where
  "greg_ok w \<longleftrightarrow> reg_ok (reg w) \<and> ctxSeq (reg w) \<le> int (gbrk w) \<and>
     (\<forall>r a. getContext r (reg w) = Some a \<longrightarrow>
        (\<exists>c. gctxs w a = Some c \<and> c_ref c = r \<and> c_ptr c \<noteq> None))"

definition go_ok :: "('e, 'j, 'cb) world \<Rightarrow> bool" where
  "go_ok w \<longleftrightarrow> gheap_ok w \<and> gisos_ok w \<and> gctxs_ok w \<and> greg_ok w"

definition world_ok :: "('e, 'j, 'cb) world \<Rightarrow> bool" where
  "world_ok w \<longleftrightarrow> heap_ok w \<and> go_ok w"

lemmas go_ok_defs = go_ok_def gheap_ok_def gisos_ok_def gctxs_ok_def greg_ok_def

text \<open>The state of a process before its first call.\<close>

definition init_world :: "'e \<Rightarrow> ('e, 'j, 'cb) world" where
  "init_world e = \<lparr>brk = 1, isolates = (\<lambda>_. None), mctxs = (\<lambda>_. None), mvals = (\<lambda>_. None),
     mtmpls = (\<lambda>_. None), mscripts = (\<lambda>_. None),
     cprofilers = (\<lambda>_. None), cprofiles = (\<lambda>_. None), cnodes = (\<lambda>_. None), blocks = (\<lambda>_. None), gbrk = 1,
     gisos = (\<lambda>_. None), gctxs = (\<lambda>_. None), gtmpls = (\<lambda>_. None), gnodes = (\<lambda>_. None),
     reg = \<lparr>ctxSeq = 0, ctxRegistry = (\<lambda>_. None)\<rparr>, v8once = False, v8 = e\<rparr>"

lemma init_world_ok: "world_ok (init_world e)"
  by (simp add: world_ok_def init_world_def go_ok_defs heap_ok_defs reg_ok_def getContext_def mem_limit_def)

section \<open>Frame\<close>

text \<open>
  An operation that leaves the Go half and the isolates alone and keeps every live C++
  context alive keeps \<open>go_ok\<close>.
\<close>

definition same_go :: "('e, 'j, 'cb) world \<Rightarrow> ('e, 'j, 'cb) world \<Rightarrow> bool" where
  "same_go w w' \<longleftrightarrow> gbrk w' = gbrk w \<and> gisos w' = gisos w \<and> gctxs w' = gctxs w \<and> gtmpls w' = gtmpls w \<and> gnodes w' = gnodes w \<and>
     reg w' = reg w \<and> isolates w' = isolates w \<and> dom (mctxs w) \<subseteq> dom (mctxs w')"

lemma same_go_refl [simp]: "same_go w w"
  by (simp add: same_go_def)

lemma same_go_trans: "same_go w w' \<Longrightarrow> same_go w' w'' \<Longrightarrow> same_go w w''"
  by (auto simp: same_go_def)

lemma go_ok_same: "go_ok w \<Longrightarrow> same_go w w' \<Longrightarrow> go_ok w'"
proof -
  assume ok: "go_ok w" and same: "same_go w w'"
  then have sub: "\<And>p. mctxs w p \<noteq> None \<Longrightarrow> mctxs w' p \<noteq> None" by (auto simp: same_go_def)
  have eqs: "gbrk w' = gbrk w" "gisos w' = gisos w" "gctxs w' = gctxs w" "gtmpls w' = gtmpls w" "gnodes w' = gnodes w"
    "reg w' = reg w" "isolates w' = isolates w"
    using same by (auto simp: same_go_def)
  have "gctxs_ok w'"
    using ok sub unfolding go_ok_def gctxs_ok_def eqs by blast
  then show ?thesis using ok by (simp add: go_ok_def gheap_ok_def gisos_ok_def greg_ok_def eqs)
qed

lemma same_go_simps [simp]:
  "same_go w (w\<lparr>v8 := e\<rparr>)" "same_go w (w\<lparr>brk := n\<rparr>)" "same_go w (w\<lparr>blocks := b\<rparr>)"
  "same_go w (w\<lparr>mvals := m\<rparr>)" "same_go w (w\<lparr>mtmpls := t\<rparr>)" "same_go w (w\<lparr>mscripts := s\<rparr>)"
  "same_go w (w\<lparr>v8once := o1\<rparr>)" "same_go w (w\<lparr>cprofilers := ps\<rparr>)" "same_go w (w\<lparr>cprofiles := pf\<rparr>)"
  "same_go w (w\<lparr>cnodes := ns\<rparr>)"
  by (simp_all add: same_go_def)

text \<open>
  Every operation of the C++ half that takes part in the invariant: it keeps \<open>heap_ok\<close> and
  stays within the frame.
\<close>

lemma keeps_world:
  assumes "world_ok w" "keeps heap_ok m" "holds (\<lambda>_. same_go w) (same_go w) m"
  shows "keeps world_ok m"
  using assms by (cases m) (auto simp: world_ok_def intro: go_ok_same)

lemma frame_bindR:
  assumes "holds (\<lambda>_. same_go w) (same_go w) m"
    and "\<And>a w'. holds (\<lambda>_. same_go w') (same_go w') (k a w')"
  shows "holds (\<lambda>_. same_go w) (same_go w) (bindR m k)"
proof (cases m)
  case (Ok a w1)
  with assms(1) have "same_go w w1" by simp
  with assms(2) [of w1 a] Ok show ?thesis
    by (auto intro: same_go_trans elim!: holds_mono)
qed (use assms(1) in simp)

named_theorems frame_intros \<open>operations that leave the Go half alone\<close>

lemma c_new_frame [frame_intros]: "holds (\<lambda>_. same_go w) (same_go w) (c_new w)"
  by (simp add: c_new_def)

lemma malloc_frame [frame_intros]: "holds (\<lambda>_. same_go w) (same_go w) (malloc b w)"
  by (simp add: malloc_def c_new_def same_go_def)

lemma cfree_frame [frame_intros]: "holds (\<lambda>_. same_go w) (same_go w) (cfree p w)"
  by (auto simp: cfree_def split: option.splits)

lemma new_value_frame [frame_intros]: "holds (\<lambda>_. same_go w) (same_go w) (new_value i c j w)"
  by (auto simp: new_value_def c_new_def tracked_value_def same_go_def track_def Let_def c_deref_def
           split: option.splits)

lemma C_ValueRelease_frame [frame_intros]: "holds (\<lambda>_. same_go w) (same_go w) (C_ValueRelease p w)"
  by (auto simp: C_ValueRelease_def same_go_def c_deref_def split: option.splits)

named_theorems world_intros \<open>operations that keep the invariant of the world\<close>

lemma world_c_new [world_intros]: "world_ok w \<Longrightarrow> keeps world_ok (c_new w)"
  by (rule keeps_world) (auto simp: world_ok_def intro: holds_intros frame_intros)

lemma world_malloc [world_intros]: "world_ok w \<Longrightarrow> keeps world_ok (malloc b w)"
  by (rule keeps_world) (auto simp: world_ok_def intro: holds_intros frame_intros)

lemma world_cfree [world_intros]: "world_ok w \<Longrightarrow> keeps world_ok (cfree p w)"
  by (rule keeps_world) (auto simp: world_ok_def intro: holds_intros frame_intros)

lemma world_new_value [world_intros]: "world_ok w \<Longrightarrow> keeps world_ok (new_value i c j w)"
  by (rule keeps_world) (auto simp: world_ok_def intro: holds_intros frame_intros)

lemma world_C_ValueRelease [world_intros]: "world_ok w \<Longrightarrow> keeps world_ok (C_ValueRelease p w)"
  by (rule keeps_world) (auto simp: world_ok_def intro: holds_intros frame_intros)

lemma world_v8 [simp]: "world_ok (w\<lparr>v8 := e\<rparr>) = world_ok w"
proof -
  have "go_ok (w\<lparr>v8 := e\<rparr>) = go_ok w" by (simp add: go_ok_defs)
  then show ?thesis by (simp add: world_ok_def)
qed

lemma world_GoString [world_intros]: "world_ok w \<Longrightarrow> keeps world_ok (GoString p w)"
  by (auto simp: GoString_def split: option.splits)

lemma world_GoStringN [world_intros]: "world_ok w \<Longrightarrow> keeps world_ok (GoStringN p n w)"
  by (auto simp: GoStringN_def split: option.splits block.splits)

lemma world_CString [world_intros]: "world_ok w \<Longrightarrow> keeps world_ok (CString s w)"
  by (simp add: CString_def world_malloc)

lemma world_defer_free [world_intros]:
  assumes "keeps world_ok m"
  shows "keeps world_ok (defer_free p m)"
proof (cases m)
  case (Ok a w)
  with assms have "keeps world_ok (cfree p w)" by (simp add: world_cfree)
  then show ?thesis using Ok by (cases "cfree p w") auto
next
  case (Fault f w)
  with assms show ?thesis
    using world_cfree [of w p] by (cases "cfree p w") (auto split: if_splits)
qed

lemma world_withCString [world_intros]:
  assumes "world_ok w" "\<And>p w. world_ok w \<Longrightarrow> keeps world_ok (body p w)"
  shows "keeps world_ok (withCString s body w)"
  unfolding withCString_def using assms
  by (intro keeps_bindR world_CString world_defer_free)

end
