(* ===== verification/Errors.thy ===== *)
theory Errors
  imports Ownership
begin

text \<open>
  JavaScript exceptions on their way from V8 to Go: \<open>ExceptionError\<close> of v8go.cc copies what a
  \<open>TryCatch\<close> knows into C strings, \<open>newJSError\<close> of errors.go turns them into a \<open>JSError\<close> and
  frees them, \<open>valueResult\<close> and \<open>objectResult\<close> of context.go choose between value and error,
  and \<open>Format\<close> prints an error. The C strings are blocks of the shared heap, so that the
  theory can show that each one is freed exactly once.
\<close>

section \<open>What a TryCatch answers\<close>

text \<open>
  The answers of V8's \<open>TryCatch\<close> to \<open>ExceptionError\<close>: \<open>HasTerminated\<close>, the text of the
  exception, the message (resource name, line, start column) if there is one, the text of
  the stack trace if there is one.
\<close>

record exn =
  ex_terminated :: bool
  ex_exception :: bytes
  ex_message :: "(bytes \<times> int option \<times> int option) option"
  ex_stack :: "bytes option"

record RtnError =
  re_msg :: "addr option"
  re_location :: "addr option"
  re_stack :: "addr option"

record RtnValue =
  rtn_value :: "addr option"
  rtn_error :: RtnError

abbreviation no_error :: RtnError where
  "no_error \<equiv> \<lparr>re_msg = None, re_location = None, re_stack = None\<rparr>"

section \<open>v8go.cc\<close>

text \<open>\<open>CopyString(std::string)\<close>, and \<open>CopyString(String::Utf8Value&)\<close>, which has null for no bytes.\<close>

definition CopyString :: "bytes \<Rightarrow> (addr option, 'e, 'j, 'cb) op" where
  "CopyString s w = bindR (malloc (Chars (s @ [NUL])) w) (\<lambda>a w. Ok (Some a) w)"

definition CopyUtf8 :: "bytes \<Rightarrow> (addr option, 'e, 'j, 'cb) op" where
  "CopyUtf8 s w = (if s = [] then Ok None w else CopyString s w)"

definition terminated_msg :: bytes where
  "terminated_msg = ''ExecutionTerminated: script execution has been terminated''"

text \<open>
  The stream \<open>sb\<close>: the resource name, streamed as a C string, then the line and the column
  (plus one), if known.
\<close>

definition location_text :: "bytes \<Rightarrow> int option \<Rightarrow> int option \<Rightarrow> bytes" where
  "location_text origin line start = c_str origin
     @ (case line of None \<Rightarrow> [] | Some l \<Rightarrow> '':'' @ dec_int l)
     @ (case start of None \<Rightarrow> [] | Some c \<Rightarrow> '':'' @ dec_int (c + 1))"

definition ExceptionError :: "exn \<Rightarrow> (RtnError, 'e, 'j, 'cb) op" where
  "ExceptionError x w =
     (if ex_terminated x then
        bindR (CopyString terminated_msg w) (\<lambda>m w. Ok (no_error\<lparr>re_msg := m\<rparr>) w)
      else
        bindR (CopyUtf8 (ex_exception x) w) (\<lambda>m w.
        bindR (case ex_message x of None \<Rightarrow> Ok None w
               | Some (origin, line, start) \<Rightarrow> CopyString (location_text origin line start) w) (\<lambda>l w.
        bindR (case ex_stack x of None \<Rightarrow> Ok None w | Some s \<Rightarrow> CopyUtf8 s w) (\<lambda>s w.
          Ok \<lparr>re_msg = m, re_location = l, re_stack = s\<rparr> w))))"

section \<open>errors.go and the result helpers of context.go\<close>

definition newJSError :: "RtnError \<Rightarrow> (goerror, 'e, 'j, 'cb) op" where
  "newJSError r w =
     bindR (GoString (re_msg r) w) (\<lambda>m w.
     bindR (GoString (re_location r) w) (\<lambda>l w.
     bindR (GoString (re_stack r) w) (\<lambda>s w.
     bindR (cfree (re_msg r) w) (\<lambda>_ w.
     bindR (cfree (re_location r) w) (\<lambda>_ w.
     bindR (cfree (re_stack r) w) (\<lambda>_ w.
       Ok (JSErr \<lparr>Message = m, Location = l, StackTrace = s\<rparr>) w))))))"

definition JSError_Error :: "JSError \<Rightarrow> bytes" where
  "JSError_Error e = Message e"

text \<open>
  \<open>(e *JSError) Format\<close>: what is written for a verb, with or without the \<open>+\<close> flag; \<open>quote\<close>
  is fmt's \<open>%q\<close>.
\<close>

definition JSError_Format :: "(bytes \<Rightarrow> bytes) \<Rightarrow> bool \<Rightarrow> char \<Rightarrow> JSError \<Rightarrow> bytes" where
  "JSError_Format quote flagged verb e =
     (if verb = CHR ''v'' \<and> flagged \<and> StackTrace e \<noteq> [] then
        StackTrace e @
          (if StackTrace e = Message e \<and> Location e \<noteq> [] then '' (at '' @ Location e @ '')'' else [])
      else if verb = CHR ''v'' \<or> verb = CHR ''s'' then Message e
      else if verb = CHR ''q'' then quote (Message e)
      else [])"

definition valueResult :: "addr option \<Rightarrow> RtnValue \<Rightarrow> (goerror + Value, 'e, 'j, 'cb) op" where
  "valueResult ctx rtn w =
     (case rtn_value rtn of
        None \<Rightarrow> bindR (newJSError (rtn_error rtn) w) (\<lambda>e w. Ok (Inl e) w)
      | Some p \<Rightarrow> Ok (Inr \<lparr>v_ptr = Some p, v_ctx = ctx\<rparr>) w)"

text \<open>\<open>type Object struct\<close>: a \<open>*Value\<close>.\<close>

datatype Object = Object (obj_value: Value)

definition objectResult :: "addr option \<Rightarrow> RtnValue \<Rightarrow> (goerror + Object, 'e, 'j, 'cb) op" where
  "objectResult ctx rtn w =
     (case rtn_value rtn of
        None \<Rightarrow> bindR (newJSError (rtn_error rtn) w) (\<lambda>e w. Ok (Inl e) w)
      | Some p \<Rightarrow> Ok (Inr (Object \<lparr>v_ptr = Some p, v_ctx = ctx\<rparr>)) w)"

section \<open>From exception to error\<close>

text \<open>The error Go sees for an exception: the texts, up to their first NUL byte.\<close>

definition js_error_of :: "exn \<Rightarrow> JSError" where
  "js_error_of x =
     (if ex_terminated x then \<lparr>Message = terminated_msg, Location = [], StackTrace = []\<rparr>
      else \<lparr>Message = c_str (ex_exception x),
            Location = (case ex_message x of None \<Rightarrow> []
                        | Some (origin, line, start) \<Rightarrow> location_text origin line start),
            StackTrace = (case ex_stack x of None \<Rightarrow> [] | Some s \<Rightarrow> c_str s)\<rparr>)"

lemma c_str_terminated_msg [simp]: "c_str terminated_msg = terminated_msg"
  by (simp add: terminated_msg_def c_str_def)

lemma c_str_location_text [simp]: "c_str (location_text origin line start) = location_text origin line start"
proof (rule c_str_no_NUL)
  show "NUL \<notin> set (location_text origin line start)"
    by (auto simp: location_text_def dest: dec_int_chars split: option.splits)
qed

text \<open>How many C strings an exception is copied into.\<close>

definition strings_of :: "exn \<Rightarrow> nat" where
  "strings_of x = (if ex_terminated x then 1
     else (if ex_exception x = [] then 0 else 1) + (if ex_message x = None then 0 else 1)
        + (if ex_stack x = None \<or> ex_stack x = Some [] then 0 else 1))"

lemma CopyString_eq_Ok:
  "CopyString s w = Ok p w' \<longleftrightarrow> brk w < mem_limit \<and> p = Some (brk w) \<and>
     w' = w\<lparr>brk := Suc (brk w), blocks := (blocks w)(brk w \<mapsto> Chars (s @ [NUL]))\<rparr>"
  by (auto simp: CopyString_def bindR_eq_Ok malloc_eq_Ok)

lemma CopyString_eq:
  "brk w < mem_limit \<Longrightarrow> CopyString s w =
     Ok (Some (brk w)) (w\<lparr>brk := Suc (brk w), blocks := (blocks w)(brk w \<mapsto> Chars (s @ [NUL]))\<rparr>)"
  by (simp add: CopyString_eq_Ok)

lemma CopyString_Fault: "CopyString s w = Fault f w' \<Longrightarrow> f = OutOfMemory"
  by (auto simp: CopyString_def bindR_eq_Fault malloc_eq_Fault)

text \<open>
  The main facts on exceptions: with memory for three strings \<open>ExceptionError\<close> succeeds, and
  whenever it succeeds \<open>newJSError\<close> makes of its result the error of the texts and frees
  every block that was allocated on the way.
\<close>

lemma ExceptionError_succeeds:
  assumes "brk w + 3 \<le> mem_limit"
  shows "\<exists>r w1. ExceptionError x w = Ok r w1"
  using assms
  by (cases "ex_message x"; cases "ex_stack x") (auto simp: ExceptionError_def CopyUtf8_def CopyString_eq)

lemma ExceptionError_Fault: "ExceptionError x w = Fault f w' \<Longrightarrow> f = OutOfMemory"
  by (auto simp: ExceptionError_def CopyUtf8_def bindR_eq_Fault dest: CopyString_Fault
           split: if_splits option.splits prod.splits)

lemma newJSError_ExceptionError:
  assumes ok: "heap_ok w" and raised: "ExceptionError x w = Ok r w1"
  shows "newJSError r w1 = Ok (JSErr (js_error_of x)) (w\<lparr>brk := brk w + strings_of x\<rparr>)"
proof -
  have free: "blocks w (brk w) = None" "blocks w (Suc (brk w)) = None" "blocks w (Suc (Suc (brk w))) = None"
    using heap_okD_fresh [OF ok] by simp_all
  have undo: "(blocks w)(brk w := None) = blocks w" "(blocks w)(Suc (brk w) := None) = blocks w"
    "(blocks w)(Suc (Suc (brk w)) := None) = blocks w"
    using free by (auto simp: fun_eq_iff)
  show ?thesis
    using raised free undo
    by (cases "ex_message x"; cases "ex_stack x")
      (auto simp: ExceptionError_def CopyUtf8_def CopyString_eq_Ok bindR_eq_Ok newJSError_def GoString_def
          read_cstr_def cfree_def js_error_of_def strings_of_def fun_upd_twist
          split: if_splits)
qed

lemma ExceptionError_keeps [holds_intros]: "heap_ok w \<Longrightarrow> keeps heap_ok (ExceptionError x w)"
  unfolding ExceptionError_def CopyUtf8_def CopyString_def by (intro holds_intros | assumption)+

lemma GoString_keeps [holds_intros]: "P w \<Longrightarrow> keeps P (GoString p w)"
  by (auto simp: GoString_def split: option.splits)

lemma newJSError_keeps [holds_intros]: "heap_ok w \<Longrightarrow> keeps heap_ok (newJSError r w)"
  unfolding newJSError_def by (intro holds_intros | assumption)+

lemma valueResult_keeps [holds_intros]: "heap_ok w \<Longrightarrow> keeps heap_ok (valueResult c rtn w)"
  unfolding valueResult_def by (intro holds_intros | assumption)+

lemma objectResult_keeps [holds_intros]: "heap_ok w \<Longrightarrow> keeps heap_ok (objectResult c rtn w)"
  unfolding objectResult_def by (intro holds_intros | assumption)+

end
