(* ===== verification/Callback.thy ===== *)
theory Callback
  imports World_Invariant Errors
begin

text \<open>
  The way back from JavaScript into Go. V8 calls \<open>FunctionTemplateCallback\<close> (v8go.cc) for
  every function made from a Go callback; it asks Go for the C++ context by the reference
  stored in the V8 context, wraps the receiver and the arguments as tracked values and calls
  \<open>goFunctionCallback\<close> (function_template.go), which looks the context and the closure up and
  calls the closure. What the closures do is a parameter \<open>B\<close> of the model.
\<close>

section \<open>Operations\<close>

text \<open>\<open>type FunctionCallbackInfo struct\<close>.\<close>

record FunctionCallbackInfo =
  fi_ctx :: "addr option"
  fi_args :: "Value list"
  fi_this :: Object

type_synonym ('e, 'j, 'cb) bodies = "'cb \<Rightarrow> FunctionCallbackInfo \<Rightarrow> (Value option, 'e, 'j, 'cb) op"

definition goContext :: "int \<Rightarrow> (addr option, 'e, 'j, 'cb) op" where
  "goContext ref w =
     (case getContext ref (reg w) of None \<Rightarrow> Fault NilDeref w
      | Some a \<Rightarrow> (case gctxs w a of None \<Rightarrow> Fault NilDeref w | Some c \<Rightarrow> Ok (c_ptr c) w))"

text \<open>
  \<open>goFunctionCallback\<close>; the slice of the C array is \<open>1 .. argsCount\<close>. The call of a nil
  closure is a nil dereference, like the use of a nil context.
\<close>

definition goFunctionCallback ::
    "('e, 'j, 'cb) bodies \<Rightarrow> int \<Rightarrow> int \<Rightarrow> addr list \<Rightarrow> nat \<Rightarrow> (addr option, 'e, 'j, 'cb) op" where
  "goFunctionCallback B ctxref cbref thisAndArgs argsCount w =
     (let ctx = getContext ctxref (reg w) in
      case thisAndArgs of [] \<Rightarrow> Fault Segv w
      | this # argv \<Rightarrow>
        if length argv < argsCount then Fault Segv w
        else
          (let info = \<lparr>fi_ctx = ctx,
                       fi_args = map (\<lambda>v. \<lparr>v_ptr = Some v, v_ctx = ctx\<rparr>) (take argsCount argv),
                       fi_this = Object \<lparr>v_ptr = Some this, v_ctx = ctx\<rparr>\<rparr>
           in case c_deref (gctxs w) ctx of None \<Rightarrow> Fault NilDeref w
              | Some (_, c) \<Rightarrow>
                (case gisos w (c_iso c) of None \<Rightarrow> Fault NilDeref w
                 | Some i \<Rightarrow>
                   (case getCallback cbref i of None \<Rightarrow> Fault NilDeref w
                    | Some cb \<Rightarrow>
                        bindR (B cb info w) (\<lambda>val w.
                          case val of None \<Rightarrow> Ok None w | Some v \<Rightarrow> Ok (v_ptr v) w)))))"

primrec new_values :: "addr \<Rightarrow> addr option \<Rightarrow> 'j list \<Rightarrow> (addr list, 'e, 'j, 'cb) op" where
  "new_values isop ctx [] w = Ok [] w"
| "new_values isop ctx (j # js) w =
     bindR (new_value isop ctx j w) (\<lambda>a w. bindR (new_values isop ctx js w) (\<lambda>as w. Ok (a # as) w))"

text \<open>
  \<open>FunctionTemplateCallback\<close>, for a call in the V8 context whose embedder data is \<open>ctx_ref\<close> of
  the function whose data is \<open>callback_ref\<close>; the result is what the JavaScript caller gets,
  \<open>None\<close> for undefined.
\<close>

definition FunctionTemplateCallback ::
    "('e, 'j, 'cb) bodies \<Rightarrow> addr \<Rightarrow> int \<Rightarrow> int \<Rightarrow> 'j \<Rightarrow> 'j list \<Rightarrow> ('j option, 'e, 'j, 'cb) op" where
  "FunctionTemplateCallback B isop ctx_ref callback_ref this args w =
     bindR (goContext ctx_ref w) (\<lambda>ctx w.
     bindR (new_values isop ctx (this # args) w) (\<lambda>thisAndArgs w.
     bindR (goFunctionCallback B ctx_ref callback_ref thisAndArgs (length args) w) (\<lambda>val w.
       case val of None \<Rightarrow> Ok None w
       | Some p \<Rightarrow> (case mvals w p of None \<Rightarrow> Fault Segv w | Some mv \<Rightarrow> Ok (Some (mv_ptr mv)) w))))"

section \<open>Running JavaScript\<close>

text \<open>
  A computation of V8, as the embedder sees it: it ends with a state and a result, or calls
  back into Go (embedder data of the current context, data of the function, receiver, arguments)
  and goes on with the state and the return value it gets. It runs in the isolate that was
  entered, which is the one \<open>info.GetIsolate()\<close> answers. A script that never
  ends has no such computation; a terminated one ends with an exception.
\<close>

datatype (dead 'e, dead 'j, 'r) js =
    Done 'e 'r
  | CallGo 'e int int 'j "'j list" "'e \<Rightarrow> 'j option \<Rightarrow> ('e, 'j, 'r) js"

primrec run_js :: "('e, 'j, 'cb) bodies \<Rightarrow> addr \<Rightarrow> ('e, 'j, 'r) js \<Rightarrow> ('r, 'e, 'j, 'cb) op" where
  "run_js B isop (Done e r) w = Ok r (w\<lparr>v8 := e\<rparr>)"
| "run_js B isop (CallGo e ctx_ref callback_ref this args k) w =
     bindR (FunctionTemplateCallback B isop ctx_ref callback_ref this args (w\<lparr>v8 := e\<rparr>))
       (\<lambda>ret w. run_js B isop (k (v8 w) ret) w)"

section \<open>The invariant\<close>

text \<open>
  What the package relies on in the closures of its client: they go through the API, so
  they keep its invariant.
\<close>

definition bodies_ok :: "('e, 'j, 'cb) bodies \<Rightarrow> bool" where
  "bodies_ok B \<longleftrightarrow> (\<forall>cb info w. world_ok w \<longrightarrow> keeps world_ok (B cb info w))"

lemma world_goContext [world_intros]: "world_ok w \<Longrightarrow> keeps world_ok (goContext ref w)"
  by (auto simp: goContext_def split: option.splits)

lemma world_new_values [world_intros]: "world_ok w \<Longrightarrow> keeps world_ok (new_values isop ctx js w)"
  by (induction js arbitrary: w) (auto intro!: keeps_bindR world_new_value)

lemma world_goFunctionCallback [world_intros]:
  assumes "bodies_ok B" "world_ok w"
  shows "keeps world_ok (goFunctionCallback B ctxref cbref ps n w)"
proof -
  have body: "keeps world_ok (B cb info w)" for cb info using assms by (simp add: bodies_ok_def)
  show ?thesis
    unfolding goFunctionCallback_def by (intro holds_intros body assms | assumption)+
qed

lemma world_FunctionTemplateCallback [world_intros]:
  assumes "bodies_ok B" "world_ok w"
  shows "keeps world_ok (FunctionTemplateCallback B isop cr cbr this args w)"
  unfolding FunctionTemplateCallback_def using assms
  by (intro keeps_bindR world_goContext world_new_values world_goFunctionCallback)
     (auto split: option.splits)

lemma world_run_js [world_intros]:
  assumes "bodies_ok B"
  shows "world_ok w \<Longrightarrow> keeps world_ok (run_js B i t w)"
proof (induction t arbitrary: w)
  case (Done e r)
  then show ?case by simp
next
  case (CallGo e cr cbr this args k)
  have "keeps world_ok (FunctionTemplateCallback B i cr cbr this args (w\<lparr>v8 := e\<rparr>))"
    using assms CallGo.prems by (simp add: world_FunctionTemplateCallback)
  then show ?case
    using CallGo.IH [OF rangeI rangeI] by (auto intro!: keeps_bindR)
qed

section \<open>Wrapping the arguments\<close>

text \<open>
  With memory and a live context, the wrapped values are new, tracked by the context, and
  refer to what they wrap, in order.
\<close>

lemma new_values_succeed:
  assumes "heap_ok w" "mctxs w c \<noteq> None" "brk w + length js \<le> mem_limit"
  shows "\<exists>ps w'. new_values isop (Some c) js w = Ok ps w'"
  using assms
proof (induction js arbitrary: w)
  case Nil
  then show ?case by simp
next
  case (Cons j js)
  from Cons.prems obtain mc where mc: "mctxs w c = Some mc" by auto
  obtain a w1 where a: "new_value isop (Some c) j w = Ok a w1"
      "brk w1 = Suc (brk w)" "mctxs w1 c \<noteq> None"
    using new_value_eq [of w c mc isop j] Cons.prems mc by (auto simp: Let_def)
  have "heap_ok w1" using Cons.prems(1) a(1) by (rule new_value_ok)
  with Cons.IH [of w1] a Cons.prems(3) show ?case by force
qed

lemma new_values_spec:
  assumes "heap_ok w" "new_values isop (Some c) js w = Ok ps w'"
  shows "heap_ok w' \<and> same_go w w' \<and> length ps = length js \<and> distinct ps \<and>
     (\<forall>p \<in> set ps. mvals w p = None) \<and>
     map (\<lambda>p. map_option mv_ptr (mvals w' p)) ps = map Some js \<and>
     (\<forall>a mv. mvals w a = Some mv \<longrightarrow> mvals w' a = Some mv) \<and>
     retained w' c = retained w c \<union> set ps \<and> blocks w' = blocks w \<and> v8 w' = v8 w"
  using assms
proof (induction js arbitrary: w ps)
  case Nil
  then show ?case by simp
next
  case (Cons j js)
  from Cons.prems(2) obtain a w1 as where a: "new_value isop (Some c) j w = Ok a w1"
    and as: "new_values isop (Some c) js w1 = Ok as w'" and ps: "ps = a # as"
    by (auto simp: bindR_eq_Ok)
  have ok1: "heap_ok w1" using Cons.prems(1) a by (rule new_value_ok)
  note IH = Cons.IH [OF ok1 as]
  have free: "mvals w a = None"
    and val: "map_option mv_ptr (mvals w1 a) = Some j" and old: "\<And>b. b \<noteq> a \<Longrightarrow> mvals w1 b = mvals w b"
    and keep: "blocks w1 = blocks w" "v8 w1 = v8 w"
    using a Cons.prems(1) heap_okD_fresh [OF Cons.prems(1), of "brk w"]
    by (auto elim!: new_value_eq_Ok [OF Cons.prems(1)])
  have "same_go w w1" using new_value_frame [of w isop "Some c" j] a by simp
  moreover have "retained w1 c = insert a (retained w c)"
    using new_value_retained [OF Cons.prems(1) a] by simp
  moreover from val obtain mv where mv: "mvals w1 a = Some mv" "mv_ptr mv = j" by auto
  moreover from mv IH have "a \<notin> set as" by auto
  moreover have "mvals w' a = Some mv" using IH mv by blast
  moreover have "mvals w1 b = Some mv'" if "mvals w b = Some mv'" for b mv'
    using that free old [of b] by (cases "b = a") auto
  moreover have "mvals w p = None" if "p \<in> set as" for p
    using IH that old [of p] \<open>a \<notin> set as\<close> by metis
  ultimately show ?case
    using IH ps keep free by (auto intro: same_go_trans)
qed

text \<open>With memory and a live context, a new value is made and tracked.\<close>

lemma retained_frame [simp]:
  "retained (w\<lparr>v8 := e\<rparr>) = retained w" "retained (w\<lparr>blocks := bl\<rparr>) = retained w" "retained (w\<lparr>brk := n\<rparr>) = retained w"
  by (simp_all add: retained_def fun_eq_iff)

lemma new_value_succeeds:
  assumes ok: "heap_ok w" and mem: "brk w < mem_limit" and c: "mctxs w c = Some mc"
  obtains v w' where "new_value i (Some c) j w = Ok v w'" "mvals w v = None" "brk w' = Suc (brk w)"
    "mvals w' = (mvals w)(v \<mapsto> \<lparr>mv_id = c_long (mc_nextValId mc + 1), mv_iso = i, mv_ctx = Some c, mv_ptr = j\<rparr>)"
    "retained w' c = insert v (retained w c)" "blocks w' = blocks w" "v8 w' = v8 w" "same_go w w'"
    "mctxs w' = (mctxs w)(c \<mapsto> snd (track v mc))" "heap_ok w'"
proof -
  let ?w = "w\<lparr>brk := Suc (brk w), mctxs := (mctxs w)(c \<mapsto> snd (track (brk w) mc)),
     mvals := (mvals w)(brk w \<mapsto> \<lparr>mv_id = c_long (mc_nextValId mc + 1), mv_iso = i, mv_ctx = Some c, mv_ptr = j\<rparr>)\<rparr>"
  have new: "new_value i (Some c) j w = Ok (brk w) ?w"
    using new_value_eq [OF ok mem c, of i j] by (simp only: Let_def)
  have "mvals w (brk w) = None" using heap_okD_fresh [OF ok, of "brk w"] by simp
  moreover have "retained ?w c = insert (brk w) (retained w c)" using new_value_retained [OF ok new] by simp
  moreover have "same_go w ?w" using new_value_frame [of w i "Some c" j] new by simp
  ultimately show thesis using that [OF new] new_value_ok [OF ok new] by simp
qed

end
