(* ===== verification/Engine.thy ===== *)
theory Engine
  imports Callback
begin

text \<open>
  The border to V8. V8 is not part of the repository, so it is a parameter: the record \<open>env\<close>
  has one field per V8 function the sources call, together with the closures the client of the
  package registers. A field that can run JavaScript (property access, conversions, calls,
  microtasks) is a computation \<open>js\<close> and may call back into Go; one that cannot is a function on
  the state of V8. \<open>None\<close> is an empty \<open>MaybeLocal\<close> or \<open>Nothing\<close>. The theory also has the scope
  macros of v8go.cc, which dereference their pointer before anything else, and the two ways a
  function that returns an \<open>RtnValue\<close> ends.
\<close>

section \<open>V8's answers\<close>

text \<open>The accessors of \<open>v8::HeapStatistics\<close>.\<close>

record v8_stats =
  total_heap_size :: "64 word"
  total_heap_size_executable :: "64 word"
  total_physical_size :: "64 word"
  total_available_size :: "64 word"
  used_heap_size :: "64 word"
  heap_size_limit :: "64 word"
  malloced_memory :: "64 word"
  external_memory :: "64 word"
  peak_malloced_memory :: "64 word"
  number_of_native_contexts :: "64 word"
  number_of_detached_contexts :: "64 word"

text \<open>The predicates \<open>v8::Value::Is...\<close> that value.go exposes.\<close>

datatype v8pred =
    PUndefined | PNull | PNullOrUndefined | PTrue | PFalse | PName | PString | PSymbol | PFunction
  | PObject | PBigInt | PBoolean | PNumber | PExternal | PInt32 | PUint32 | PDate | PArgumentsObject
  | PBigIntObject | PNumberObject | PStringObject | PSymbolObject | PNativeError | PRegExp
  | PAsyncFunction | PGeneratorFunction | PGeneratorObject | PPromise | PMap | PSet | PMapIterator
  | PSetIterator | PWeakMap | PWeakSet | PArray | PArrayBuffer | PArrayBufferView | PTypedArray
  | PUint8Array | PUint8ClampedArray | PInt8Array | PUint16Array | PInt16Array | PUint32Array
  | PInt32Array | PFloat32Array | PFloat64Array | PBigInt64Array | PBigUint64Array | PDataView
  | PSharedArrayBuffer | PProxy | PWasmModuleObject | PModuleNamespaceObject

text \<open>A node of V8's top-down profile tree with the answers of \<open>v8::CpuProfileNode\<close>.\<close>

datatype 'j v8_node = V8Node (vn_ptr: 'j) (vn_id: "32 word") (vn_script: int) (vn_resource: bytes)
  (vn_function: bytes) (vn_line: int) (vn_column: int) (vn_hits: "32 word") (vn_bailout: bytes)
  (vn_children: "'j v8_node list")

record 'j v8_profile =
  vp_ptr :: 'j
  vp_title :: bytes
  vp_root :: "'j v8_node"
  vp_start :: int
  vp_end :: int

section \<open>V8 and the closures\<close>

text \<open>
  A \<open>float64\<close> is its 64 bits. \<open>v8_uninit\<close> is the value \<open>new m_ctx\<close> leaves in the member
  \<open>nextValId\<close>, which no constructor sets. \<open>v8_caught\<close> asks the current \<open>TryCatch\<close> for what
  \<open>ExceptionError\<close> prints; printing an exception can run JavaScript.
\<close>

record ('e, 'j, 'cb) env =
  closures :: "('e, 'j, 'cb) bodies"
  v8_version :: bytes
  v8_set_flags :: "bytes \<Rightarrow> 'e \<Rightarrow> 'e"
  v8_init :: "'e \<Rightarrow> 'e"
  v8_uninit :: "'e \<Rightarrow> int"
  v8_new_isolate :: "addr \<Rightarrow> 'e \<Rightarrow> 'e \<times> 'j"
  v8_dispose :: "addr \<Rightarrow> 'e \<Rightarrow> 'e"
  v8_terminate :: "addr \<Rightarrow> 'e \<Rightarrow> 'e"
  v8_is_terminating :: "addr \<Rightarrow> 'e \<Rightarrow> bool"
  v8_heap_statistics :: "addr \<Rightarrow> 'e \<Rightarrow> v8_stats"
  v8_throw :: "addr \<Rightarrow> 'j \<Rightarrow> 'e \<Rightarrow> 'e \<times> 'j"
  v8_microtasks :: "addr \<Rightarrow> 'e \<Rightarrow> ('e, 'j, unit) js"
  v8_caught :: "'e \<Rightarrow> ('e, 'j, exn) js"
  v8_null :: 'j
  v8_undefined :: 'j
  v8_new_context :: "addr \<Rightarrow> 'j option \<Rightarrow> int \<Rightarrow> 'e \<Rightarrow> 'e \<times> 'j"
  v8_global :: "'j \<Rightarrow> 'e \<Rightarrow> 'j"
  v8_new_utf8 :: "addr \<Rightarrow> bytes \<Rightarrow> 'e \<Rightarrow> 'e \<times> 'j option"
  v8_compile :: "'j \<Rightarrow> 'j \<Rightarrow> 'j \<Rightarrow> 'e \<Rightarrow> 'e \<times> 'j option"
  v8_run :: "'j \<Rightarrow> 'j \<Rightarrow> 'e \<Rightarrow> ('e, 'j, 'j option) js"
  v8_compile_unbound :: "addr \<Rightarrow> 'j \<Rightarrow> 'j \<Rightarrow> bytes option \<Rightarrow> int \<Rightarrow> 'e \<Rightarrow> 'e \<times> ('j option \<times> bool)"
  v8_code_cache :: "'j \<Rightarrow> 'e \<Rightarrow> bytes \<times> bool"
  v8_bind :: "'j \<Rightarrow> 'j \<Rightarrow> 'e \<Rightarrow> 'e \<times> 'j"
  v8_integer :: "32 word \<Rightarrow> 'e \<Rightarrow> 'e \<times> 'j"
  v8_unsigned :: "32 word \<Rightarrow> 'e \<Rightarrow> 'e \<times> 'j"
  v8_boolean :: "bool \<Rightarrow> 'e \<Rightarrow> 'e \<times> 'j"
  v8_number :: "64 word \<Rightarrow> 'e \<Rightarrow> 'e \<times> 'j"
  v8_bigint :: "64 word \<Rightarrow> 'e \<Rightarrow> 'e \<times> 'j"
  v8_bigint_unsigned :: "64 word \<Rightarrow> 'e \<Rightarrow> 'e \<times> 'j"
  v8_bigint_words :: "'j \<Rightarrow> int \<Rightarrow> 64 word list \<Rightarrow> 'e \<Rightarrow> 'e \<times> 'j option"
  v8_array_index :: "'j \<Rightarrow> 'j \<Rightarrow> 'e \<Rightarrow> ('e, 'j, 32 word option) js"
  v8_boolean_value :: "'j \<Rightarrow> 'e \<Rightarrow> bool"
  v8_int32_value :: "'j \<Rightarrow> 'j \<Rightarrow> 'e \<Rightarrow> ('e, 'j, 32 word option) js"
  v8_integer_value :: "'j \<Rightarrow> 'j \<Rightarrow> 'e \<Rightarrow> ('e, 'j, 64 word option) js"
  v8_number_value :: "'j \<Rightarrow> 'j \<Rightarrow> 'e \<Rightarrow> ('e, 'j, 64 word option) js"
  v8_uint32_value :: "'j \<Rightarrow> 'j \<Rightarrow> 'e \<Rightarrow> ('e, 'j, 32 word option) js"
  v8_detail_string :: "'j \<Rightarrow> 'j \<Rightarrow> 'e \<Rightarrow> ('e, 'j, bytes option) js"
  v8_utf8_value :: "addr \<Rightarrow> 'j \<Rightarrow> 'e \<Rightarrow> ('e, 'j, bytes) js"
  v8_to_bigint :: "'j \<Rightarrow> 'j \<Rightarrow> 'e \<Rightarrow> ('e, 'j, (int \<times> 64 word list) option) js"
  v8_to_object :: "'j \<Rightarrow> 'j \<Rightarrow> 'e \<Rightarrow> ('e, 'j, 'j option) js"
  v8_same_value :: "'j \<Rightarrow> 'j \<Rightarrow> 'e \<Rightarrow> bool"
  v8_is :: "v8pred \<Rightarrow> 'j \<Rightarrow> 'e \<Rightarrow> bool"
  v8_set :: "'j \<Rightarrow> 'j \<Rightarrow> 'j \<Rightarrow> 'j \<Rightarrow> 'e \<Rightarrow> ('e, 'j, bool option) js"
  v8_set_idx :: "'j \<Rightarrow> 'j \<Rightarrow> 32 word \<Rightarrow> 'j \<Rightarrow> 'e \<Rightarrow> ('e, 'j, bool option) js"
  v8_field_count :: "'j \<Rightarrow> 'e \<Rightarrow> int"
  v8_set_field :: "'j \<Rightarrow> int \<Rightarrow> 'j \<Rightarrow> 'e \<Rightarrow> 'e"
  v8_get :: "'j \<Rightarrow> 'j \<Rightarrow> 'j \<Rightarrow> 'e \<Rightarrow> ('e, 'j, 'j option) js"
  v8_get_idx :: "'j \<Rightarrow> 'j \<Rightarrow> 32 word \<Rightarrow> 'e \<Rightarrow> ('e, 'j, 'j option) js"
  v8_get_field :: "'j \<Rightarrow> int \<Rightarrow> 'e \<Rightarrow> 'j"
  v8_has :: "'j \<Rightarrow> 'j \<Rightarrow> 'j \<Rightarrow> 'e \<Rightarrow> ('e, 'j, bool option) js"
  v8_has_idx :: "'j \<Rightarrow> 'j \<Rightarrow> 32 word \<Rightarrow> 'e \<Rightarrow> ('e, 'j, bool option) js"
  v8_delete :: "'j \<Rightarrow> 'j \<Rightarrow> 'j \<Rightarrow> 'e \<Rightarrow> ('e, 'j, bool option) js"
  v8_delete_idx :: "'j \<Rightarrow> 'j \<Rightarrow> 32 word \<Rightarrow> 'e \<Rightarrow> ('e, 'j, bool option) js"
  v8_object_template :: "addr \<Rightarrow> 'e \<Rightarrow> 'e \<times> 'j"
  v8_function_template :: "addr \<Rightarrow> int \<Rightarrow> 'e \<Rightarrow> 'e \<times> 'j"
  v8_template_set :: "'j \<Rightarrow> 'j \<Rightarrow> 'j \<Rightarrow> int \<Rightarrow> 'e \<Rightarrow> 'e"
  v8_instance :: "'j \<Rightarrow> 'j \<Rightarrow> 'e \<Rightarrow> ('e, 'j, 'j option) js"
  v8_set_field_count :: "'j \<Rightarrow> int \<Rightarrow> 'e \<Rightarrow> 'e"
  v8_template_field_count :: "'j \<Rightarrow> 'e \<Rightarrow> int"
  v8_template_function :: "'j \<Rightarrow> 'j \<Rightarrow> 'e \<Rightarrow> 'e \<times> 'j option"
  v8_call :: "'j \<Rightarrow> 'j \<Rightarrow> 'j \<Rightarrow> 'j list \<Rightarrow> 'e \<Rightarrow> ('e, 'j, 'j option) js"
  v8_construct :: "'j \<Rightarrow> 'j \<Rightarrow> 'j list \<Rightarrow> 'e \<Rightarrow> ('e, 'j, 'j option) js"
  v8_source_map_url :: "'j \<Rightarrow> 'e \<Rightarrow> 'j"
  v8_resolver :: "'j \<Rightarrow> 'e \<Rightarrow> 'e \<times> 'j option"
  v8_promise :: "'j \<Rightarrow> 'e \<Rightarrow> 'j"
  v8_resolve :: "'j \<Rightarrow> 'j \<Rightarrow> 'j \<Rightarrow> 'e \<Rightarrow> ('e, 'j, bool option) js"
  v8_reject :: "'j \<Rightarrow> 'j \<Rightarrow> 'j \<Rightarrow> 'e \<Rightarrow> ('e, 'j, bool option) js"
  v8_promise_state :: "'j \<Rightarrow> 'e \<Rightarrow> int"
  v8_function :: "'j \<Rightarrow> int \<Rightarrow> 'e \<Rightarrow> 'e \<times> 'j option"
  v8_then :: "'j \<Rightarrow> 'j \<Rightarrow> 'j \<Rightarrow> 'e \<Rightarrow> ('e, 'j, 'j option) js"
  v8_then2 :: "'j \<Rightarrow> 'j \<Rightarrow> 'j \<Rightarrow> 'j \<Rightarrow> 'e \<Rightarrow> ('e, 'j, 'j option) js"
  v8_catch :: "'j \<Rightarrow> 'j \<Rightarrow> 'j \<Rightarrow> 'e \<Rightarrow> ('e, 'j, 'j option) js"
  v8_promise_result :: "'j \<Rightarrow> 'e \<Rightarrow> 'j"
  v8_json_parse :: "'j \<Rightarrow> 'j \<Rightarrow> 'e \<Rightarrow> 'e \<times> 'j option"
  v8_json_stringify :: "'j \<Rightarrow> 'j \<Rightarrow> 'e \<Rightarrow> ('e, 'j, bytes option) js"
  v8_profiler_new :: "addr \<Rightarrow> 'e \<Rightarrow> 'e \<times> 'j"
  v8_profiler_dispose :: "'j \<Rightarrow> 'e \<Rightarrow> 'e"
  v8_profiler_start :: "'j \<Rightarrow> 'j \<Rightarrow> 'e \<Rightarrow> 'e"
  v8_profiler_stop :: "'j \<Rightarrow> 'j \<Rightarrow> 'e \<Rightarrow> 'e \<times> 'j v8_profile option"
  v8_profile_delete :: "'j \<Rightarrow> 'e \<Rightarrow> 'e"

text \<open>A call into V8 that cannot run JavaScript, and one that can, in the isolate that was entered.\<close>

definition ask :: "('e \<Rightarrow> 'e \<times> 'a) \<Rightarrow> ('a, 'e, 'j, 'cb) op" where
  "ask f w = (let (e, a) = f (v8 w) in Ok a (w\<lparr>v8 := e\<rparr>))"

definition tell :: "('e \<Rightarrow> 'e) \<Rightarrow> (unit, 'e, 'j, 'cb) op" where
  "tell f w = Ok () (w\<lparr>v8 := f (v8 w)\<rparr>)"

definition run :: "('e, 'j, 'cb) env \<Rightarrow> addr \<Rightarrow> ('e \<Rightarrow> ('e, 'j, 'r) js) \<Rightarrow> ('r, 'e, 'j, 'cb) op" where
  "run A i t w = run_js (closures A) i (t (v8 w)) w"

text \<open>\<open>ToLocalChecked\<close>, \<open>ToChecked\<close> and \<open>Check\<close>: V8 aborts the process on an empty result.\<close>

definition checked :: "('a option, ('e, 'j, 'cb) world) res \<Rightarrow> ('a, ('e, 'j, 'cb) world) res" where
  "checked m = bindR m (\<lambda>r w. case r of None \<Rightarrow> Fault V8Abort w | Some a \<Rightarrow> Ok a w)"

section \<open>The scopes of v8go.cc\<close>

text \<open>\<open>ISOLATE_SCOPE\<close> and \<open>ISOLATE_SCOPE_INTERNAL_CONTEXT\<close>: entering a null or dead isolate is undefined.\<close>

definition isolate_scope :: "addr option \<Rightarrow> (addr \<Rightarrow> ('a, 'e, 'j, 'cb) op) \<Rightarrow> ('a, 'e, 'j, 'cb) op" where
  "isolate_scope p k w = (case c_deref (isolates w) p of None \<Rightarrow> Fault Segv w | Some (i, _) \<Rightarrow> k i w)"

definition internal_scope :: "addr option \<Rightarrow> (addr \<Rightarrow> addr option \<Rightarrow> ('a, 'e, 'j, 'cb) op) \<Rightarrow> ('a, 'e, 'j, 'cb) op" where
  "internal_scope p k w = (case c_deref (isolates w) p of None \<Rightarrow> Fault Segv w | Some (i, v) \<Rightarrow> k i (slot0 v) w)"

text \<open>\<open>LOCAL_CONTEXT\<close>: the isolate of the context, the context, its V8 handle.\<close>

definition local_context :: "addr option \<Rightarrow> (addr \<Rightarrow> addr \<Rightarrow> 'j \<Rightarrow> ('a, 'e, 'j, 'cb) op) \<Rightarrow> ('a, 'e, 'j, 'cb) op" where
  "local_context p k w =
     (case c_deref (mctxs w) p of None \<Rightarrow> Fault Segv w
      | Some (c, mc) \<Rightarrow> if isolates w (mc_iso mc) = None then Fault Segv w
                         else k (mc_iso mc) c (mc_ptr mc) w)"

text \<open>
  \<open>LOCAL_VALUE\<close>: the isolate of the value, its context (the internal one if it has none), the V8
  handles of the context and of the value.
\<close>

definition local_value :: "addr option \<Rightarrow> (addr \<Rightarrow> addr \<Rightarrow> 'j \<Rightarrow> 'j \<Rightarrow> ('a, 'e, 'j, 'cb) op) \<Rightarrow> ('a, 'e, 'j, 'cb) op" where
  "local_value p k w =
     (case c_deref (mvals w) p of None \<Rightarrow> Fault Segv w
      | Some (_, mv) \<Rightarrow>
         (case isolates w (mv_iso mv) of None \<Rightarrow> Fault Segv w
          | Some v \<Rightarrow>
             (case c_deref (mctxs w) (if mv_ctx mv = None then slot0 v else mv_ctx mv) of
                None \<Rightarrow> Fault Segv w
              | Some (c, mc) \<Rightarrow> k (mv_iso mv) c (mc_ptr mc) (mv_ptr mv) w)))"

text \<open>\<open>LOCAL_TEMPLATE\<close>.\<close>

definition local_template :: "addr option \<Rightarrow> (addr \<Rightarrow> 'j \<Rightarrow> ('a, 'e, 'j, 'cb) op) \<Rightarrow> ('a, 'e, 'j, 'cb) op" where
  "local_template p k w =
     (case c_deref (mtmpls w) p of None \<Rightarrow> Fault Segv w
      | Some (_, t) \<Rightarrow> if isolates w (mt_iso t) = None then Fault Segv w else k (mt_iso t) (mt_ptr t) w)"

text \<open>\<open>p->ptr.Get(iso)\<close> for a further value.\<close>

definition get_handle :: "addr option \<Rightarrow> ('j, 'e, 'j, 'cb) op" where
  "get_handle p w = (case c_deref (mvals w) p of None \<Rightarrow> Fault Segv w | Some (_, mv) \<Rightarrow> Ok (mv_ptr mv) w)"

text \<open>A C string argument turned into a V8 string.\<close>

definition utf8_arg :: "('e, 'j, 'cb) env \<Rightarrow> addr \<Rightarrow> addr \<Rightarrow> ('j option, 'e, 'j, 'cb) op" where
  "utf8_arg A i p w = (case read_cstr p w of None \<Rightarrow> Fault Segv w | Some s \<Rightarrow> ask (v8_new_utf8 A i s) w)"

section \<open>How a function returns an RtnValue\<close>

definition raised :: "('e, 'j, 'cb) env \<Rightarrow> addr \<Rightarrow> (RtnError, 'e, 'j, 'cb) op" where
  "raised A i w = bindR (run A i (v8_caught A) w) (\<lambda>x w. ExceptionError x w)"

definition fail_value :: "('e, 'j, 'cb) env \<Rightarrow> addr \<Rightarrow> (RtnValue, 'e, 'j, 'cb) op" where
  "fail_value A i w = bindR (raised A i w) (\<lambda>e w. Ok \<lparr>rtn_value = None, rtn_error = e\<rparr> w)"

definition give_value :: "addr \<Rightarrow> addr option \<Rightarrow> 'j \<Rightarrow> (RtnValue, 'e, 'j, 'cb) op" where
  "give_value i ctx j w =
     bindR (new_value i ctx j w) (\<lambda>p w. Ok \<lparr>rtn_value = Some p, rtn_error = no_error\<rparr> w)"

definition rtn_of :: "('e, 'j, 'cb) env \<Rightarrow> addr \<Rightarrow> addr option \<Rightarrow> 'j option \<Rightarrow> (RtnValue, 'e, 'j, 'cb) op" where
  "rtn_of A i ctx r w = (case r of None \<Rightarrow> fail_value A i w | Some j \<Rightarrow> give_value i ctx j w)"

section \<open>The invariant\<close>

lemma world_ask [world_intros]: "world_ok w \<Longrightarrow> keeps world_ok (ask f w)"
  by (simp add: ask_def case_prod_beta Let_def)

lemma world_tell [world_intros]: "world_ok w \<Longrightarrow> keeps world_ok (tell f w)"
  by (simp add: tell_def)

lemma world_run [world_intros]: "bodies_ok (closures A) \<Longrightarrow> world_ok w \<Longrightarrow> keeps world_ok (run A i t w)"
  unfolding run_def by (rule world_run_js)

lemma world_checked [world_intros]: "keeps world_ok m \<Longrightarrow> keeps world_ok (checked m)"
  unfolding checked_def by (erule keeps_bindR) (auto split: option.splits)

lemma world_isolate_scope [world_intros]:
  "(\<And>i. world_ok w \<Longrightarrow> keeps world_ok (k i w)) \<Longrightarrow> world_ok w \<Longrightarrow> keeps world_ok (isolate_scope p k w)"
  unfolding isolate_scope_def by (intro holds_intros) auto

lemma world_internal_scope [world_intros]:
  "(\<And>i c. world_ok w \<Longrightarrow> keeps world_ok (k i c w)) \<Longrightarrow> world_ok w \<Longrightarrow> keeps world_ok (internal_scope p k w)"
  unfolding internal_scope_def by (intro holds_intros) auto

lemma world_local_context [world_intros]:
  "(\<And>i c j. world_ok w \<Longrightarrow> keeps world_ok (k i c j w)) \<Longrightarrow> world_ok w \<Longrightarrow> keeps world_ok (local_context p k w)"
  unfolding local_context_def by (intro holds_intros) auto

lemma world_local_value [world_intros]:
  "(\<And>i c j v. world_ok w \<Longrightarrow> keeps world_ok (k i c j v w)) \<Longrightarrow> world_ok w \<Longrightarrow> keeps world_ok (local_value p k w)"
  unfolding local_value_def by (intro holds_intros) auto

lemma world_local_template [world_intros]:
  "(\<And>i j. world_ok w \<Longrightarrow> keeps world_ok (k i j w)) \<Longrightarrow> world_ok w \<Longrightarrow> keeps world_ok (local_template p k w)"
  unfolding local_template_def by (intro holds_intros) auto

lemma world_get_handle [world_intros]: "world_ok w \<Longrightarrow> keeps world_ok (get_handle p w)"
  unfolding get_handle_def by (intro holds_intros) auto

lemma world_utf8_arg [world_intros]: "world_ok w \<Longrightarrow> keeps world_ok (utf8_arg A i p w)"
  unfolding utf8_arg_def by (intro holds_intros world_intros | simp)+

lemma world_CopyString [world_intros]: "world_ok w \<Longrightarrow> keeps world_ok (CopyString s w)"
  unfolding CopyString_def by (intro holds_intros world_intros | simp)+

lemma world_CopyUtf8 [world_intros]: "world_ok w \<Longrightarrow> keeps world_ok (CopyUtf8 s w)"
  unfolding CopyUtf8_def by (intro holds_intros world_intros | simp)+

lemma world_ExceptionError [world_intros]: "world_ok w \<Longrightarrow> keeps world_ok (ExceptionError x w)"
  unfolding ExceptionError_def by (intro holds_intros world_intros | assumption)+

lemma world_newJSError [world_intros]: "world_ok w \<Longrightarrow> keeps world_ok (newJSError r w)"
  unfolding newJSError_def by (intro holds_intros world_intros | assumption)+

lemma world_valueResult [world_intros]: "world_ok w \<Longrightarrow> keeps world_ok (valueResult c rtn w)"
  unfolding valueResult_def by (intro holds_intros world_intros | assumption)+

lemma world_objectResult [world_intros]: "world_ok w \<Longrightarrow> keeps world_ok (objectResult c rtn w)"
  unfolding objectResult_def by (intro holds_intros world_intros | assumption)+

lemma world_raised [world_intros]: "bodies_ok (closures A) \<Longrightarrow> world_ok w \<Longrightarrow> keeps world_ok (raised A i w)"
  unfolding raised_def by (intro holds_intros world_intros | assumption)+

lemma world_fail_value [world_intros]: "bodies_ok (closures A) \<Longrightarrow> world_ok w \<Longrightarrow> keeps world_ok (fail_value A i w)"
  unfolding fail_value_def by (intro holds_intros world_intros | assumption)+

lemma world_give_value [world_intros]: "world_ok w \<Longrightarrow> keeps world_ok (give_value i c j w)"
  unfolding give_value_def by (intro holds_intros world_intros | assumption)+

lemma world_rtn_of [world_intros]: "bodies_ok (closures A) \<Longrightarrow> world_ok w \<Longrightarrow> keeps world_ok (rtn_of A i c r w)"
  unfolding rtn_of_def by (intro holds_intros world_intros | assumption)+

end
