(* ===== verification/Isolates.thy ===== *)
theory Isolates
  imports Engine
begin

text \<open>
  isolate.go and v8go.go with the functions of v8go.cc they call: one-time initialisation,
  creating and disposing of isolates, their internal context, termination, heap statistics,
  throwing an exception, registering callbacks.
\<close>

section \<open>v8go.go\<close>

definition C_SetFlags :: "('e, 'j, 'cb) env \<Rightarrow> addr \<Rightarrow> (unit, 'e, 'j, 'cb) op" where
  "C_SetFlags A p w = (case read_cstr p w of None \<Rightarrow> Fault Segv w
     | Some s \<Rightarrow> Ok () (w\<lparr>v8 := v8_set_flags A s (v8 w)\<rparr>))"

definition C_Init :: "('e, 'j, 'cb) env \<Rightarrow> (unit, 'e, 'j, 'cb) op" where
  "C_Init A w = Ok () (w\<lparr>v8 := v8_init A (v8 w)\<rparr>)"

text \<open>\<open>strings.Join(flags, " ")\<close>.\<close>

fun join_flags :: "bytes list \<Rightarrow> bytes" where
  "join_flags [] = []"
| "join_flags [f] = f"
| "join_flags (f # fs) = f @ '' '' @ join_flags fs"

definition SetFlags :: "('e, 'j, 'cb) env \<Rightarrow> bytes list \<Rightarrow> (unit, 'e, 'j, 'cb) op" where
  "SetFlags A flags w =
     bindR (CString (join_flags flags) w) (\<lambda>p w.
     bindR (C_SetFlags A p w) (\<lambda>_ w. cfree (Some p) w))"

definition Version :: "('e, 'j, 'cb) env \<Rightarrow> bytes" where
  "Version A = c_str (v8_version A)"

definition initializeIfNecessary :: "('e, 'j, 'cb) env \<Rightarrow> (unit, 'e, 'j, 'cb) op" where
  "initializeIfNecessary A w =
     (if v8once w then Ok () w
      else withCString ''--no-freeze_flags_after_init''
             (\<lambda>p w. bindR (C_SetFlags A p w) (\<lambda>_ w. C_Init A w)) (w\<lparr>v8once := True\<rparr>))"

section \<open>Creating an isolate\<close>

definition C_NewIsolate :: "('e, 'j, 'cb) env \<Rightarrow> (addr, 'e, 'j, 'cb) op" where
  "C_NewIsolate A w =
     bindR (c_new w) (\<lambda>i w.
     bindR (c_new w) (\<lambda>c w.
       let (e, h) = v8_new_isolate A i (v8 w) in
       Ok i (w\<lparr>v8 := e, isolates := (isolates w)(i \<mapsto> \<lparr>slot0 = Some c\<rparr>),
               mctxs := (mctxs w)(c \<mapsto> \<lparr>mc_iso = i, mc_vals = [], mc_unboundScripts = [],
                                         mc_ptr = h, mc_nextValId = v8_uninit A e\<rparr>)\<rparr>)))"

definition C_NewValueNull :: "('e, 'j, 'cb) env \<Rightarrow> addr option \<Rightarrow> (addr, 'e, 'j, 'cb) op" where
  "C_NewValueNull A p = internal_scope p (\<lambda>i c. new_value i c (v8_null A))"

definition C_NewValueUndefined :: "('e, 'j, 'cb) env \<Rightarrow> addr option \<Rightarrow> (addr, 'e, 'j, 'cb) op" where
  "C_NewValueUndefined A p = internal_scope p (\<lambda>i c. new_value i c (v8_undefined A))"

definition newValueNull :: "('e, 'j, 'cb) env \<Rightarrow> addr option \<Rightarrow> (Value, 'e, 'j, 'cb) op" where
  "newValueNull A p w = bindR (C_NewValueNull A p w) (\<lambda>v w. Ok \<lparr>v_ptr = Some v, v_ctx = None\<rparr> w)"

definition newValueUndefined :: "('e, 'j, 'cb) env \<Rightarrow> addr option \<Rightarrow> (Value, 'e, 'j, 'cb) op" where
  "newValueUndefined A p w = bindR (C_NewValueUndefined A p w) (\<lambda>v w. Ok \<lparr>v_ptr = Some v, v_ctx = None\<rparr> w)"

text \<open>A method call on the Go pointer \<open>a\<close> reads the struct; a nil pointer panics.\<close>

definition with_isolate :: "addr \<Rightarrow> ('cb Isolate \<Rightarrow> ('a, 'e, 'j, 'cb) op) \<Rightarrow> ('a, 'e, 'j, 'cb) op" where
  "with_isolate a k w = (case gisos w a of None \<Rightarrow> Fault NilDeref w | Some i \<Rightarrow> k i w)"

definition write_iso :: "addr \<Rightarrow> ('cb Isolate \<Rightarrow> 'cb Isolate) \<Rightarrow> ('e, 'j, 'cb) world \<Rightarrow> ('e, 'j, 'cb) world" where
  "write_iso a f w = w\<lparr>gisos := (gisos w)(a := map_option f (gisos w a))\<rparr>"

text \<open>NewIsolate in its order: the struct literal, then its two constant values.\<close>

definition new_Isolate_struct :: "addr \<Rightarrow> (addr, 'e, 'j, 'cb) op" where
  "new_Isolate_struct p w = bindR (go_new w) (\<lambda>a w.
     Ok a (w\<lparr>gisos := (gisos w)(a \<mapsto>
       \<lparr>i_ptr = Some p, cbSeq = 0, cbs = (\<lambda>_. None), i_null = None, i_undefined = None\<rparr>)\<rparr>))"

definition set_constants :: "('e, 'j, 'cb) env \<Rightarrow> addr \<Rightarrow> (addr, 'e, 'j, 'cb) op" where
  "set_constants A a = with_isolate a (\<lambda>i w.
     bindR (newValueNull A (i_ptr i) w) (\<lambda>n w.
     let w = write_iso a (\<lambda>g. g\<lparr>i_null := Some n\<rparr>) w in
     bindR (newValueUndefined A (i_ptr i) w) (\<lambda>u w.
       Ok a (write_iso a (\<lambda>g. g\<lparr>i_undefined := Some u\<rparr>) w))))"

definition NewIsolate :: "('e, 'j, 'cb) env \<Rightarrow> (addr, 'e, 'j, 'cb) op" where
  "NewIsolate A w =
     bindR (initializeIfNecessary A w) (\<lambda>_ w.
     bindR (C_NewIsolate A w) (\<lambda>p w.
     bindR (new_Isolate_struct p w) (\<lambda>a w. set_constants A a w)))"

section \<open>The methods of Isolate\<close>

definition TerminateExecution :: "('e, 'j, 'cb) env \<Rightarrow> addr \<Rightarrow> (unit, 'e, 'j, 'cb) op" where
  "TerminateExecution A a = with_isolate a (\<lambda>i. isolate_scope (i_ptr i) (\<lambda>p w.
     Ok () (w\<lparr>v8 := v8_terminate A p (v8 w)\<rparr>)))"

definition IsExecutionTerminating :: "('e, 'j, 'cb) env \<Rightarrow> addr \<Rightarrow> (bool, 'e, 'j, 'cb) op" where
  "IsExecutionTerminating A a = with_isolate a (\<lambda>i. isolate_scope (i_ptr i) (\<lambda>p w.
     let n = (if v8_is_terminating A p (v8 w) then 1 else 0 :: int) in Ok (n = 1) w))"

definition C_IsolateDispose :: "('e, 'j, 'cb) env \<Rightarrow> addr option \<Rightarrow> (unit, 'e, 'j, 'cb) op" where
  "C_IsolateDispose A p w =
     (case p of None \<Rightarrow> Ok () w
      | Some i \<Rightarrow>
         (case isolates w i of None \<Rightarrow> Fault Segv w
          | Some v \<Rightarrow> bindR (C_ContextFree (slot0 v) w) (\<lambda>_ w.
              Ok () (w\<lparr>isolates := (isolates w)(i := None), v8 := v8_dispose A i (v8 w)\<rparr>))))"

definition Isolate_Dispose :: "('e, 'j, 'cb) env \<Rightarrow> addr \<Rightarrow> (unit, 'e, 'j, 'cb) op" where
  "Isolate_Dispose A a = with_isolate a (\<lambda>i w.
     if i_ptr i = None then Ok () w
     else bindR (C_IsolateDispose A (i_ptr i) w) (\<lambda>_ w.
       Ok () (w\<lparr>gisos := (gisos w)(a \<mapsto> i\<lparr>i_ptr := None\<rparr>)\<rparr>)))"

definition Isolate_Close :: "('e, 'j, 'cb) env \<Rightarrow> addr \<Rightarrow> (unit, 'e, 'j, 'cb) op" where
  "Isolate_Close A a = Isolate_Dispose A a"

definition C_IsolateThrowException :: "('e, 'j, 'cb) env \<Rightarrow> addr option \<Rightarrow> addr option \<Rightarrow> (addr, 'e, 'j, 'cb) op" where
  "C_IsolateThrowException A p val = isolate_scope p (\<lambda>i w.
     case c_deref (mvals w) val of None \<Rightarrow> Fault Segv w
     | Some (_, mv) \<Rightarrow>
        (let (e, r) = v8_throw A i (mv_ptr mv) (v8 w) in new_value i (mv_ctx mv) r (w\<lparr>v8 := e\<rparr>)))"

definition ThrowException :: "('e, 'j, 'cb) env \<Rightarrow> addr \<Rightarrow> Value option \<Rightarrow> (Value, 'e, 'j, 'cb) op" where
  "ThrowException A a val = with_isolate a (\<lambda>i w.
     if i_ptr i = None then Fault (PanicText ''Isolate has been disposed'') w
     else case val of None \<Rightarrow> Fault NilDeref w
       | Some v \<Rightarrow> bindR (C_IsolateThrowException A (i_ptr i) (v_ptr v) w)
                     (\<lambda>r w. Ok \<lparr>v_ptr = Some r, v_ctx = None\<rparr> w))"

text \<open>\<open>registerCallback\<close> on the isolate at \<open>a\<close>; the new map entry takes Go memory.\<close>

definition Isolate_registerCallback :: "addr \<Rightarrow> 'cb \<Rightarrow> (int, 'e, 'j, 'cb) op" where
  "Isolate_registerCallback a cb = with_isolate a (\<lambda>i w.
     bindR (go_new w) (\<lambda>_ w.
       let (ref, i') = registerCallback cb i in Ok ref (w\<lparr>gisos := (gisos w)(a \<mapsto> i')\<rparr>)))"

definition Undefined :: "addr \<Rightarrow> (Value option, 'e, 'j, 'cb) op" where
  "Undefined a = with_isolate a (\<lambda>i w. Ok (i_undefined i) w)"

definition Null :: "addr \<Rightarrow> (Value option, 'e, 'j, 'cb) op" where
  "Null a = with_isolate a (\<lambda>i w. Ok (i_null i) w)"

section \<open>Heap statistics\<close>

text \<open>The C struct, whose members v8go.cc fills by position, and the Go struct, filled by name.\<close>

record IsolateHStatistics =
  hs_total_heap_size :: "64 word"
  hs_total_heap_size_executable :: "64 word"
  hs_total_physical_size :: "64 word"
  hs_total_available_size :: "64 word"
  hs_used_heap_size :: "64 word"
  hs_heap_size_limit :: "64 word"
  hs_malloced_memory :: "64 word"
  hs_external_memory :: "64 word"
  hs_peak_malloced_memory :: "64 word"
  hs_number_of_native_contexts :: "64 word"
  hs_number_of_detached_contexts :: "64 word"

record HeapStatistics =
  TotalHeapSize :: "64 word"
  TotalHeapSizeExecutable :: "64 word"
  TotalPhysicalSize :: "64 word"
  TotalAvailableSize :: "64 word"
  UsedHeapSize :: "64 word"
  HeapSizeLimit :: "64 word"
  MallocedMemory :: "64 word"
  ExternalMemory :: "64 word"
  PeakMallocedMemory :: "64 word"
  NumberOfNativeContexts :: "64 word"
  NumberOfDetachedContexts :: "64 word"

definition C_IsolationGetHeapStatistics :: "('e, 'j, 'cb) env \<Rightarrow> addr option \<Rightarrow> (IsolateHStatistics, 'e, 'j, 'cb) op" where
  "C_IsolationGetHeapStatistics A p w =
     (if p = None then Ok (IsolateHStatistics.make 0 0 0 0 0 0 0 0 0 0 0) w
      else isolate_scope p (\<lambda>i w.
        let hs = v8_heap_statistics A i (v8 w) in
        Ok (IsolateHStatistics.make (total_heap_size hs) (total_heap_size_executable hs)
              (total_physical_size hs) (total_available_size hs) (used_heap_size hs)
              (heap_size_limit hs) (malloced_memory hs) (external_memory hs)
              (peak_malloced_memory hs) (number_of_native_contexts hs)
              (number_of_detached_contexts hs)) w) w)"

definition GetHeapStatistics :: "('e, 'j, 'cb) env \<Rightarrow> addr \<Rightarrow> (HeapStatistics, 'e, 'j, 'cb) op" where
  "GetHeapStatistics A a = with_isolate a (\<lambda>i w.
     bindR (C_IsolationGetHeapStatistics A (i_ptr i) w) (\<lambda>hs w.
       Ok \<lparr>TotalHeapSize = hs_total_heap_size hs,
           TotalHeapSizeExecutable = hs_total_heap_size_executable hs,
           TotalPhysicalSize = hs_total_physical_size hs,
           TotalAvailableSize = hs_total_available_size hs,
           UsedHeapSize = hs_used_heap_size hs,
           HeapSizeLimit = hs_heap_size_limit hs,
           MallocedMemory = hs_malloced_memory hs,
           ExternalMemory = hs_external_memory hs,
           PeakMallocedMemory = hs_peak_malloced_memory hs,
           NumberOfNativeContexts = hs_number_of_native_contexts hs,
           NumberOfDetachedContexts = hs_number_of_detached_contexts hs\<rparr> w))"

section \<open>The invariant\<close>

lemma with_isolate_world [world_intros]:
  "(\<And>i. gisos w a = Some i \<Longrightarrow> keeps world_ok (k i w)) \<Longrightarrow> world_ok w \<Longrightarrow> keeps world_ok (with_isolate a k w)"
  unfolding with_isolate_def by (intro holds_intros) auto

lemma world_v8once [simp]: "world_ok (w\<lparr>v8once := b\<rparr>) = world_ok w"
  by (simp add: world_ok_def go_ok_defs)

lemma world_C_SetFlags [world_intros]: "world_ok w \<Longrightarrow> keeps world_ok (C_SetFlags A p w)"
  unfolding C_SetFlags_def by (intro holds_intros) auto

lemma world_C_Init [world_intros]: "world_ok w \<Longrightarrow> keeps world_ok (C_Init A w)"
  by (simp add: C_Init_def)

lemma world_initializeIfNecessary [world_intros]: "world_ok w \<Longrightarrow> keeps world_ok (initializeIfNecessary A w)"
  unfolding initializeIfNecessary_def by (intro holds_intros world_intros | simp)+

lemma world_SetFlags [world_intros]: "world_ok w \<Longrightarrow> keeps world_ok (SetFlags A flags w)"
  unfolding SetFlags_def by (intro holds_intros world_intros | simp)+

text \<open>Go memory for one more object.\<close>

lemma world_gbrk: "world_ok w \<Longrightarrow> gbrk w < mem_limit \<Longrightarrow> world_ok (w\<lparr>gbrk := Suc (gbrk w)\<rparr>)"
  by (fastforce simp: world_ok_def go_ok_defs)

lemma world_go_new [world_intros]: "world_ok w \<Longrightarrow> keeps world_ok (go_new w)"
  by (simp add: go_new_def world_gbrk)

text \<open>A new \<open>m_ctx\<close> at a fresh address, with an isolate whose internal context it is or without.\<close>

lemma heap_ok_new_ctx:
  assumes ok: "heap_ok w" and c: "c < brk w" "mctxs w c = None"
    and mc: "mc_vals mc = []" "mc_unboundScripts mc = []"
    and isos: "\<And>i v. isos i = Some v \<Longrightarrow> isolates w i = Some v \<or> (i < brk w \<and> slot0 v = Some c \<and> mc_iso mc = i)"
  shows "heap_ok (w\<lparr>isolates := isos, mctxs := (mctxs w)(c \<mapsto> mc)\<rparr>)" (is "heap_ok ?w")
proof -
  have "isos a = None" if "brk w \<le> a" for a
    using isos [of a] heap_okD_fresh [OF ok that] that by (cases "isos a") auto
  then have "fresh_ok ?w" using ok c by (auto simp: heap_ok_def fresh_ok_def)
  moreover have "entries_ok ?w" using ok mc by (auto simp: heap_ok_def entries_ok_def table_ok_def)
  moreover have "values_ok ?w" using ok c unfolding heap_ok_def values_ok_def by fastforce
  moreover have "scripts_ok ?w" using ok mc unfolding heap_ok_def scripts_ok_def by (auto split: if_splits)
  moreover have "internal_ok ?w"
    unfolding internal_ok_def
  proof (intro allI impI)
    fix i v assume "isolates ?w i = Some v"
    then have "isolates w i = Some v \<or> (slot0 v = Some c \<and> mc_iso mc = i)" using isos by auto
    moreover have "\<exists>d md. slot0 v = Some d \<and> d \<noteq> c \<and> mctxs w d = Some md \<and> mc_iso md = i"
      if "isolates w i = Some v"
      using ok that c unfolding heap_ok_def internal_ok_def by (metis option.distinct(1))
    ultimately show "\<exists>d md. slot0 v = Some d \<and> mctxs ?w d = Some md \<and> mc_iso md = i" by auto
  qed
  ultimately show ?thesis by (simp add: heap_ok_def)
qed

lemma C_NewIsolate_spec:
  assumes ok: "world_ok w" and new: "C_NewIsolate A w = Ok i w'"
  shows "world_ok w' \<and> isolates w' i \<noteq> None \<and> (\<forall>a g. gisos w' a = Some g \<longrightarrow> i_ptr g \<noteq> Some i)"
proof -
  let ?w1 = "w\<lparr>brk := Suc (Suc (brk w))\<rparr>"
  obtain e h where eh: "v8_new_isolate A (brk w) (v8 w) = (e, h)" by fastforce
  let ?mc = "\<lparr>mc_iso = brk w, mc_vals = [], mc_unboundScripts = [], mc_ptr = h, mc_nextValId = v8_uninit A e\<rparr>"
  let ?isos = "(isolates w)(brk w \<mapsto> \<lparr>slot0 = Some (Suc (brk w))\<rparr>)"
  from new have lim: "Suc (brk w) < mem_limit" and i: "i = brk w"
    and w': "w' = ?w1\<lparr>v8 := e, isolates := ?isos, mctxs := (mctxs w)(Suc (brk w) \<mapsto> ?mc)\<rparr>"
    using eh by (auto simp: C_NewIsolate_def bindR_eq_Ok c_new_eq_Ok Let_def)
  have hok: "heap_ok w" and gok: "go_ok w" using ok by (auto simp: world_ok_def)
  have free: "isolates w (brk w) = None" "mctxs w (Suc (brk w)) = None"
    using heap_okD_fresh [OF hok, of "brk w"] heap_okD_fresh [OF hok, of "Suc (brk w)"] by auto
  have "heap_ok ?w1" using heap_ok_brk [OF heap_ok_brk [OF hok]] lim by simp
  then have "heap_ok (?w1\<lparr>isolates := ?isos, mctxs := (mctxs ?w1)(Suc (brk w) \<mapsto> ?mc)\<rparr>)"
    by (rule heap_ok_new_ctx) (auto simp: free split: if_splits)
  moreover have "w' = (?w1\<lparr>isolates := ?isos, mctxs := (mctxs ?w1)(Suc (brk w) \<mapsto> ?mc)\<rparr>)\<lparr>v8 := e\<rparr>"
    by (simp add: w')
  ultimately have "heap_ok w'" by (simp only: heap_ok_frame)
  moreover have other: "c_ptr c \<noteq> Some (Suc (brk w))" if "gctxs w a = Some c" for a c
    using gok free that unfolding go_ok_def gctxs_ok_def by (metis option.distinct(1))
  have "gctxs_ok w'"
    using gok other unfolding go_ok_def gctxs_ok_def w' by (auto split: if_splits)
  then have "go_ok w'"
    using gok by (simp add: go_ok_def w' gheap_ok_def greg_ok_def) (auto simp: gisos_ok_def)
  moreover have "i_ptr g \<noteq> Some i" if "gisos w' a = Some g" for a g
    using gok free that by (force simp: go_ok_def gisos_ok_def w' i)
  ultimately show ?thesis by (simp add: world_ok_def w' i)
qed

lemma C_NewIsolate_Fault: "C_NewIsolate A w = Fault f w' \<Longrightarrow> f = OutOfMemory"
  by (auto simp: C_NewIsolate_def bindR_eq_Fault c_new_eq_Fault Let_def split: prod.splits)

text \<open>Writing one isolate struct.\<close>

lemma world_gisos_upd:
  assumes ok: "world_ok w" and a: "a < gbrk w" and g: "cbs_ok g" "cbSeq g \<le> int (gbrk w)"
    and ptr: "\<And>p. i_ptr g = Some p \<Longrightarrow> isolates w p \<noteq> None \<and>
       (\<forall>b h. gisos w b = Some h \<longrightarrow> i_ptr h = Some p \<longrightarrow> b = a)"
  shows "world_ok (w\<lparr>gisos := (gisos w)(a \<mapsto> g)\<rparr>)" (is "world_ok ?w")
proof -
  have gok: "go_ok w" and "heap_ok ?w" using ok by (auto simp: world_ok_def)
  have "gisos_ok ?w" unfolding gisos_ok_def
  proof (intro conjI allI impI)
    fix b h assume b: "gisos ?w b = Some h"
    show "cbs_ok h" "cbSeq h \<le> int (gbrk ?w)"
      using b g gok by (auto simp: go_ok_def gisos_ok_def split: if_splits)
    fix p assume "i_ptr h = Some p"
    then show "isolates ?w p \<noteq> None"
      using b ptr gok by (auto simp: go_ok_def gisos_ok_def split: if_splits)
  next
    fix b h d k p
    assume "gisos ?w b = Some h" "gisos ?w d = Some k" "i_ptr h = Some p" "i_ptr k = Some p"
    then show "b = d"
      using ptr [of p] gok unfolding go_ok_def gisos_ok_def by (simp split: if_splits)
  qed
  moreover have "gheap_ok ?w" "gctxs_ok ?w" "greg_ok ?w"
    using gok a by (auto simp: go_ok_def gheap_ok_def gctxs_ok_def greg_ok_def)
  ultimately show ?thesis using \<open>heap_ok ?w\<close> by (simp add: world_ok_def go_ok_def)
qed

lemma world_gisos_live: "world_ok w \<Longrightarrow> gisos w a = Some g \<Longrightarrow> a < gbrk w"
  by (rule ccontr) (auto simp: world_ok_def go_ok_def gheap_ok_def)

lemma gisosD:
  assumes "world_ok w" "gisos w a = Some g"
  shows "cbs_ok g" "cbSeq g \<le> int (gbrk w)" "\<And>p. i_ptr g = Some p \<Longrightarrow> isolates w p \<noteq> None"
    "\<And>b h p. gisos w b = Some h \<Longrightarrow> i_ptr g = Some p \<Longrightarrow> i_ptr h = Some p \<Longrightarrow> b = a"
  using assms unfolding world_ok_def go_ok_def gisos_ok_def by blast+

lemma world_gisos_same:
  assumes ok: "world_ok w" and a: "gisos w a = Some g" and g': "cbs_ok g'" "cbSeq g' \<le> int (gbrk w)"
    and ptr: "i_ptr g' = i_ptr g"
  shows "world_ok (w\<lparr>gisos := (gisos w)(a \<mapsto> g')\<rparr>)"
proof (rule world_gisos_upd [OF ok world_gisos_live [OF ok a] g'])
  fix p assume "i_ptr g' = Some p"
  then have "i_ptr g = Some p" using ptr by simp
  then show "isolates w p \<noteq> None \<and> (\<forall>b h. gisos w b = Some h \<longrightarrow> i_ptr h = Some p \<longrightarrow> b = a)"
    using gisosD(3,4) [OF ok a] by blast
qed

lemma world_newValueNull [world_intros]: "world_ok w \<Longrightarrow> keeps world_ok (newValueNull A p w)"
  unfolding newValueNull_def C_NewValueNull_def by (intro holds_intros world_intros | simp)+

lemma world_newValueUndefined [world_intros]: "world_ok w \<Longrightarrow> keeps world_ok (newValueUndefined A p w)"
  unfolding newValueUndefined_def C_NewValueUndefined_def by (intro holds_intros world_intros | simp)+

lemma world_write_iso [world_intros]:
  assumes ok: "world_ok w"
    and f: "\<And>g. i_ptr (f g) = i_ptr g" "\<And>g. cbs (f g) = cbs g" "\<And>g. cbSeq (f g) = cbSeq g"
  shows "world_ok (write_iso a f w)"
proof (cases "gisos w a")
  case None
  then have "write_iso a f w = w" by (simp add: write_iso_def fun_upd_idem)
  then show ?thesis using ok by simp
next
  case (Some g)
  then have "cbs_ok (f g)" "cbSeq (f g) \<le> int (gbrk w)"
    using gisosD [OF ok Some] f by (auto simp: cbs_ok_def)
  then show ?thesis using world_gisos_same [OF ok Some] f Some by (simp add: write_iso_def)
qed

lemma new_struct_spec:
  assumes ok: "world_ok w"
  shows "keeps world_ok (bindR (C_NewIsolate A w) (\<lambda>i w. new_Isolate_struct i w))"
proof (cases "C_NewIsolate A w")
  case (Fault f w')
  then show ?thesis by (auto dest: C_NewIsolate_Fault)
next
  case (Ok i w1)
  from C_NewIsolate_spec [OF ok Ok] have new: "world_ok w1" "isolates w1 i \<noteq> None"
    "\<And>a g. gisos w1 a = Some g \<Longrightarrow> i_ptr g \<noteq> Some i" by auto
  show ?thesis
  proof (cases "gbrk w1 < mem_limit")
    case True
    with new have "world_ok (w1\<lparr>gbrk := Suc (gbrk w1)\<rparr>)" by (simp add: world_gbrk)
    then have "world_ok ((w1\<lparr>gbrk := Suc (gbrk w1)\<rparr>)\<lparr>gisos := (gisos w1)(gbrk w1 \<mapsto>
        \<lparr>i_ptr = Some i, cbSeq = 0, cbs = (\<lambda>_. None), i_null = None, i_undefined = None\<rparr>)\<rparr>)"
      using new(2,3) world_gisos_upd [of "w1\<lparr>gbrk := Suc (gbrk w1)\<rparr>" "gbrk w1"] by (fastforce simp: cbs_ok_def)
    then show ?thesis using Ok True by (simp add: new_Isolate_struct_def go_new_def)
  qed (simp add: Ok new_Isolate_struct_def go_new_def)
qed

lemma world_NewIsolate [world_intros]: "world_ok w \<Longrightarrow> keeps world_ok (NewIsolate A w)"
proof -
  have eq: "NewIsolate A w = bindR (initializeIfNecessary A w) (\<lambda>_ w.
     bindR (bindR (C_NewIsolate A w) (\<lambda>i w. new_Isolate_struct i w)) (\<lambda>a w. set_constants A a w))"
    by (simp add: NewIsolate_def bindR_assoc)
  show "world_ok w \<Longrightarrow> keeps world_ok (NewIsolate A w)"
    unfolding eq set_constants_def by (intro holds_intros world_intros new_struct_spec | simp)+
qed

lemma world_registerCallback [world_intros]:
  assumes ok: "world_ok w"
  shows "keeps world_ok (Isolate_registerCallback a cb w)"
proof -
  have "world_ok (w\<lparr>gbrk := Suc (gbrk w), gisos := (gisos w)(a \<mapsto> snd (registerCallback cb i))\<rparr>)"
    if i: "gisos w a = Some i" and lim: "gbrk w < mem_limit" for i
  proof -
    let ?w = "w\<lparr>gbrk := Suc (gbrk w)\<rparr>"
    have ok': "world_ok ?w" using ok lim by (rule world_gbrk)
    have "cbs_ok i" "cbSeq i + 1 \<le> int (gbrk ?w)" using gisosD [OF ok i] by auto
    moreover have "int (gbrk ?w) < 2 ^ 63" using lim by (simp add: mem_limit_def)
    ultimately have lt: "cbSeq i + 1 < 2 ^ 63" "0 \<le> cbSeq i" "cbSeq i + 1 \<le> int (gbrk ?w)"
      by (auto simp: cbs_ok_def)
    have "cbs_ok (snd (registerCallback cb i))"
      using \<open>cbs_ok i\<close> lt(1) by (rule cbs_ok_registerCallback)
    moreover have "i_ptr (snd (registerCallback cb i)) = i_ptr i"
      "cbSeq (snd (registerCallback cb i)) \<le> int (gbrk ?w)"
      using lt by (simp_all add: registerCallback_eq)
    ultimately show ?thesis using world_gisos_same [OF ok', of a i] i by simp
  qed
  then show ?thesis
    using ok unfolding Isolate_registerCallback_def with_isolate_def
    by (auto simp: go_new_def case_prod_beta Let_def split: option.splits)
qed

text \<open>Disposing of an isolate: its internal context goes with all its values, then the isolate.\<close>

lemma internal_ctx:
  assumes "world_ok w" "isolates w p = Some v"
  obtains c mc where "slot0 v = Some c" "mctxs w c = Some mc" "mc_iso mc = p"
    "\<And>q u. isolates w q = Some u \<Longrightarrow> slot0 u = Some c \<Longrightarrow> q = p"
proof -
  from assms obtain c mc where c: "slot0 v = Some c" "mctxs w c = Some mc" "mc_iso mc = p"
    unfolding world_ok_def heap_ok_def internal_ok_def by blast
  moreover have "q = p" if "isolates w q = Some u" "slot0 u = Some c" for q u
    using assms(1) that c unfolding world_ok_def heap_ok_def internal_ok_def by fastforce
  ultimately show thesis by (rule that)
qed

definition iso_disposed :: "('e, 'j, 'cb) env \<Rightarrow> addr \<Rightarrow> 'cb Isolate \<Rightarrow> addr \<Rightarrow> addr \<Rightarrow> 'j m_ctx \<Rightarrow>
    ('e, 'j, 'cb) world \<Rightarrow> ('e, 'j, 'cb) world" where
  "iso_disposed A a g p c mc w = (ctx_freed c mc w)\<lparr>isolates := (isolates w)(p := None),
     v8 := v8_dispose A p (v8 w), gisos := (gisos w)(a \<mapsto> g\<lparr>i_ptr := None\<rparr>)\<rparr>"

lemma ctx_freed_fields [simp]:
  "isolates (ctx_freed c mc w) = isolates w" "gisos (ctx_freed c mc w) = gisos w"
  "gctxs (ctx_freed c mc w) = gctxs w" "gtmpls (ctx_freed c mc w) = gtmpls w" "gnodes (ctx_freed c mc w) = gnodes w"
  "reg (ctx_freed c mc w) = reg w" "gbrk (ctx_freed c mc w) = gbrk w" "v8 (ctx_freed c mc w) = v8 w"
  "brk (ctx_freed c mc w) = brk w" "blocks (ctx_freed c mc w) = blocks w"
  "mctxs (ctx_freed c mc w) = (mctxs w)(c := None)" "mtmpls (ctx_freed c mc w) = mtmpls w"
  by (simp_all add: ctx_freed_def)

lemma Isolate_Dispose_Ok:
  assumes "world_ok w" "gisos w a = Some g" "i_ptr g = Some p" "Isolate_Dispose A a w = Ok u w'"
  obtains v c mc where "isolates w p = Some v" "slot0 v = Some c" "mctxs w c = Some mc"
    "w' = iso_disposed A a g p c mc w"
proof -
  from gisosD(3) [OF assms(1-3)] obtain v where v: "isolates w p = Some v" by auto
  obtain c mc where c: "slot0 v = Some c" "mctxs w c = Some mc" using internal_ctx [OF assms(1) v] by metis
  from assms v c obtain w1 where w1: "C_ContextFree (Some c) w = Ok () w1"
    "w' = w1\<lparr>isolates := (isolates w1)(p := None), v8 := v8_dispose A p (v8 w1),
             gisos := (gisos w1)(a \<mapsto> g\<lparr>i_ptr := None\<rparr>)\<rparr>"
    by (auto simp: Isolate_Dispose_def C_IsolateDispose_def with_isolate_def bindR_eq_Ok)
  from C_ContextFree_Ok [OF w1(1)] c have "w1 = ctx_freed c mc w" by (metis option.inject)
  with w1 have "w' = iso_disposed A a g p c mc w" by (simp add: iso_disposed_def)
  with v c show thesis by (rule that)
qed

lemma world_iso_disposed:
  assumes ok: "world_ok w" and g: "gisos w a = Some g" "i_ptr g = Some p"
    and v: "isolates w p = Some v" "slot0 v = Some c" and c: "mctxs w c = Some mc"
  shows "world_ok (iso_disposed A a g p c mc w)" (is "world_ok ?w")
proof -
  have hok: "heap_ok w" and gok: "go_ok w" using ok by (auto simp: world_ok_def)
  have sole: "q = p" if "isolates w q = Some u" "slot0 u = Some c" for q u
    using internal_ctx [OF ok v(1)] v(2) that by (metis option.inject)
  have "heap_ok ((ctx_freed c mc w)\<lparr>isolates := (isolates w)(p := None)\<rparr>)"
    by (rule heap_ok_ctx_freed [OF hok c]) (auto dest: sole split: if_splits)
  then have "heap_ok ?w" by (simp add: iso_disposed_def)
  moreover have "gctxs_ok ?w"
    using gok v unfolding go_ok_def gctxs_ok_def iso_disposed_def
    by (auto split: if_splits)
  moreover have "gisos_ok ?w"
    using gok g gisosD(4) [OF ok g(1) _ g(2)] unfolding go_ok_def gisos_ok_def iso_disposed_def
    by (auto simp: cbs_ok_def split: if_splits)
  moreover have "gheap_ok ?w" "greg_ok ?w"
    using gok world_gisos_live [OF ok g(1)] by (auto simp: go_ok_def gheap_ok_def greg_ok_def iso_disposed_def)
  ultimately show ?thesis by (simp add: world_ok_def go_ok_def)
qed

lemma world_Isolate_Dispose [world_intros]:
  assumes ok: "world_ok w"
  shows "keeps world_ok (Isolate_Dispose A a w)"
proof (cases "Isolate_Dispose A a w")
  case (Fault f w')
  then have "f = NilDeref \<and> w' = w \<or> f = Segv"
    by (auto simp: Isolate_Dispose_def C_IsolateDispose_def with_isolate_def bindR_eq_Fault
        dest: C_ContextFree_Fault split: option.splits if_splits)
  with ok Fault show ?thesis by auto
next
  case (Ok u w')
  then obtain g where g: "gisos w a = Some g"
    by (auto simp: Isolate_Dispose_def with_isolate_def split: option.splits)
  show ?thesis
  proof (cases "i_ptr g")
    case None
    with g ok show ?thesis by (simp add: Isolate_Dispose_def with_isolate_def)
  next
    case (Some p)
    from Isolate_Dispose_Ok [OF ok g Some Ok] ok g Some Ok show ?thesis
      by (metis holds.simps(1) world_iso_disposed)
  qed
qed

text \<open>With everything the internal context holds in live isolates, \<open>Dispose\<close> returns.\<close>

lemma Isolate_Dispose_eq:
  assumes ok: "world_ok w" and g: "gisos w a = Some g" "i_ptr g = Some p"
    and v: "isolates w p = Some v" "slot0 v = Some c" and c: "mctxs w c = Some mc"
    and live: "isolates_live w c"
  shows "Isolate_Dispose A a w = Ok () (iso_disposed A a g p c mc w)"
  using C_ContextFree_eq [OF _ c live] ok g v
  by (simp add: Isolate_Dispose_def C_IsolateDispose_def with_isolate_def iso_disposed_def world_ok_def)

definition iso_is_disposed :: "addr \<Rightarrow> ('e, 'j, 'cb) world \<Rightarrow> bool" where
  "iso_is_disposed a w \<longleftrightarrow> (\<exists>g. gisos w a = Some g \<and> i_ptr g = None)"

interpretation iso_dispose: disposable "Isolate_Dispose A a" "\<lambda>_. True" "iso_is_disposed a" for A a
  by unfold_locales
    (auto simp: Isolate_Dispose_def with_isolate_def iso_is_disposed_def bindR_eq_Ok
          split: option.splits if_splits)

lemma world_ThrowException [world_intros]: "world_ok w \<Longrightarrow> keeps world_ok (ThrowException A a v w)"
  unfolding ThrowException_def C_IsolateThrowException_def
  by (intro holds_intros world_intros | simp)+

lemma world_TerminateExecution [world_intros]: "world_ok w \<Longrightarrow> keeps world_ok (TerminateExecution A a w)"
  unfolding TerminateExecution_def by (intro holds_intros world_intros | simp)+

end
