(* ===== verification/Contexts.thy ===== *)
theory Contexts
  imports Isolates
begin

text \<open>
  context.go with the functions of v8go.cc it calls: the options of NewContext, creating a
  context and registering it, running a script, the global object, the microtask checkpoint,
  and closing. A Go \<open>*Context\<close> is the address of its struct; an \<open>*ObjectTemplate\<close> is the address
  of the \<open>template\<close> it embeds.
\<close>

section \<open>Options\<close>

record contextOptions =
  o_iso :: "addr option"
  o_gTmpl :: "addr option"

text \<open>
  A \<open>ContextOption\<close> is a nil interface, an \<open>*Isolate\<close> or an \<open>*ObjectTemplate\<close>; the pointer
  inside the interface may itself be nil.
\<close>

datatype ContextOption = NilOption | OptIsolate "addr option" | OptTemplate "addr option"

definition Isolate_apply :: "addr option \<Rightarrow> contextOptions \<Rightarrow> contextOptions" where
  "Isolate_apply i opts = opts\<lparr>o_iso := i\<rparr>"

definition ObjectTemplate_apply :: "addr option \<Rightarrow> contextOptions \<Rightarrow> contextOptions" where
  "ObjectTemplate_apply t opts = opts\<lparr>o_gTmpl := t\<rparr>"

fun apply_option :: "ContextOption \<Rightarrow> contextOptions \<Rightarrow> contextOptions" where
  "apply_option NilOption opts = opts"
| "apply_option (OptIsolate i) opts = Isolate_apply i opts"
| "apply_option (OptTemplate t) opts = ObjectTemplate_apply t opts"

definition context_options :: "ContextOption list \<Rightarrow> contextOptions" where
  "context_options opt = fold apply_option opt \<lparr>o_iso = None, o_gTmpl = None\<rparr>"

lemmas apply_defs [simp] = Isolate_apply_def ObjectTemplate_apply_def

section \<open>Creating a context\<close>

definition with_context :: "addr \<Rightarrow> (Context \<Rightarrow> ('a, 'e, 'j, 'cb) op) \<Rightarrow> ('a, 'e, 'j, 'cb) op" where
  "with_context a k w = (case gctxs w a of None \<Rightarrow> Fault NilDeref w | Some c \<Rightarrow> k c w)"

definition with_template :: "addr \<Rightarrow> (template \<Rightarrow> ('a, 'e, 'j, 'cb) op) \<Rightarrow> ('a, 'e, 'j, 'cb) op" where
  "with_template a k w = (case gtmpls w a of None \<Rightarrow> Fault NilDeref w | Some t \<Rightarrow> k t w)"

definition new_template :: "template \<Rightarrow> (addr, 'e, 'j, 'cb) op" where
  "new_template t w = bindR (go_new w) (\<lambda>a w. Ok a (w\<lparr>gtmpls := (gtmpls w)(a \<mapsto> t)\<rparr>))"

text \<open>The template argument of the C++ NewContext: null, or a live \<open>m_template\<close>.\<close>

definition C_NewContext ::
    "('e, 'j, 'cb) env \<Rightarrow> addr option \<Rightarrow> addr option \<Rightarrow> int \<Rightarrow> (addr, 'e, 'j, 'cb) op" where
  "C_NewContext A isop tmpl ref = isolate_scope isop (\<lambda>i w.
     if tmpl \<noteq> None \<and> c_deref (mtmpls w) tmpl = None then Fault Segv w
     else
       bindR (ask (v8_new_context A i (map_option (mt_ptr \<circ> snd) (c_deref (mtmpls w) tmpl)) ref) w) (\<lambda>h w.
       bindR (c_new w) (\<lambda>c w.
         Ok c (w\<lparr>mctxs := (mctxs w)(c \<mapsto> \<lparr>mc_iso = i, mc_vals = [], mc_unboundScripts = [],
                                             mc_ptr = h, mc_nextValId = v8_uninit A (v8 w)\<rparr>)\<rparr>))))"

text \<open>
  The part of NewContext after the defaults: drawing the reference, the struct literal with
  the call of the C++ NewContext, \<open>register\<close>. The memory of the struct is taken first, which
  cannot be observed.
\<close>

definition open_context :: "('e, 'j, 'cb) env \<Rightarrow> addr \<Rightarrow> addr \<Rightarrow> (addr, 'e, 'j, 'cb) op" where
  "open_context A isoa gtmpl w =
     bindR (go_new w) (\<lambda>a w.
       let (ref, g) = next_ref (reg w) in
       with_isolate isoa (\<lambda>i. with_template gtmpl (\<lambda>t w.
         bindR (C_NewContext A (i_ptr i) (t_ptr t) (c_int ref) w) (\<lambda>p w.
           Ok a (w\<lparr>gctxs := (gctxs w)(a \<mapsto> \<lparr>c_ref = ref, c_ptr = Some p, c_iso = isoa\<rparr>),
                   reg := register a ref (reg w)\<rparr>)))) (w\<lparr>reg := g\<rparr>))"

definition NewContext :: "('e, 'j, 'cb) env \<Rightarrow> ContextOption list \<Rightarrow> (addr, 'e, 'j, 'cb) op" where
  "NewContext A opt w =
     (let opts = context_options opt in
      bindR (case o_iso opts of None \<Rightarrow> NewIsolate A w | Some i \<Rightarrow> Ok i w) (\<lambda>i w.
      bindR (case o_gTmpl opts of None \<Rightarrow> new_template \<lparr>t_ptr = None, t_iso = None\<rparr> w
             | Some t \<Rightarrow> Ok t w) (\<lambda>t w.
        open_context A i t w)))"

section \<open>The methods of Context\<close>

definition Context_Isolate :: "addr \<Rightarrow> (addr, 'e, 'j, 'cb) op" where
  "Context_Isolate a = with_context a (\<lambda>c w. Ok (c_iso c) w)"

definition RetainedValueCount :: "addr \<Rightarrow> (int, 'e, 'j, 'cb) op" where
  "RetainedValueCount a = with_context a (\<lambda>c. C_ContextRetainedValueCount (c_ptr c))"

definition C_RunScript ::
    "('e, 'j, 'cb) env \<Rightarrow> addr option \<Rightarrow> addr \<Rightarrow> addr \<Rightarrow> (RtnValue, 'e, 'j, 'cb) op" where
  "C_RunScript A ctx source origin = local_context ctx (\<lambda>i c h w.
     bindR (utf8_arg A i source w) (\<lambda>maybeSrc w.
     bindR (utf8_arg A i origin w) (\<lambda>maybeOgn w.
       case (maybeSrc, maybeOgn) of
         (Some src, Some ogn) \<Rightarrow>
           bindR (ask (v8_compile A h src ogn) w) (\<lambda>script w.
             case script of None \<Rightarrow> fail_value A i w
             | Some s \<Rightarrow> bindR (run A i (v8_run A h s) w) (\<lambda>result w. rtn_of A i (Some c) result w))
       | _ \<Rightarrow> fail_value A i w)))"

definition RunScript ::
    "('e, 'j, 'cb) env \<Rightarrow> addr \<Rightarrow> bytes \<Rightarrow> bytes \<Rightarrow> (goerror + Value, 'e, 'j, 'cb) op" where
  "RunScript A a source origin w =
     bindR (CString source w) (\<lambda>cSource w.
     bindR (CString origin w) (\<lambda>cOrigin w.
       defer_free (Some cSource) (defer_free (Some cOrigin)
         (with_context a (\<lambda>c w.
            bindR (C_RunScript A (c_ptr c) cSource cOrigin w) (\<lambda>rtn w. valueResult (Some a) rtn w)) w))))"

definition C_ContextGlobal :: "('e, 'j, 'cb) env \<Rightarrow> addr option \<Rightarrow> (addr, 'e, 'j, 'cb) op" where
  "C_ContextGlobal A ctx = local_context ctx (\<lambda>i c h w. new_value i (Some c) (v8_global A h (v8 w)) w)"

definition Global :: "('e, 'j, 'cb) env \<Rightarrow> addr \<Rightarrow> (Object, 'e, 'j, 'cb) op" where
  "Global A a = with_context a (\<lambda>c w.
     bindR (C_ContextGlobal A (c_ptr c) w) (\<lambda>p w. Ok (Object \<lparr>v_ptr = Some p, v_ctx = Some a\<rparr>) w))"

definition PerformMicrotaskCheckpoint :: "('e, 'j, 'cb) env \<Rightarrow> addr \<Rightarrow> (unit, 'e, 'j, 'cb) op" where
  "PerformMicrotaskCheckpoint A a = with_context a (\<lambda>c. with_isolate (c_iso c) (\<lambda>i.
     isolate_scope (i_ptr i) (\<lambda>p. run A p (v8_microtasks A p))))"

definition Context_Close :: "addr \<Rightarrow> (unit, 'e, 'j, 'cb) op" where
  "Context_Close a = with_context a (\<lambda>c w.
     bindR (C_ContextFree (c_ptr c) (w\<lparr>reg := deregister (c_ref c) (reg w)\<rparr>)) (\<lambda>_ w.
       Ok () (w\<lparr>gctxs := (gctxs w)(a \<mapsto> c\<lparr>c_ptr := None\<rparr>)\<rparr>)))"

section \<open>The invariant\<close>

lemma with_context_world [world_intros]:
  "(\<And>c. gctxs w a = Some c \<Longrightarrow> keeps world_ok (k c w)) \<Longrightarrow> world_ok w \<Longrightarrow> keeps world_ok (with_context a k w)"
  unfolding with_context_def by (intro holds_intros) auto

lemma with_template_world [world_intros]:
  "(\<And>t. gtmpls w a = Some t \<Longrightarrow> keeps world_ok (k t w)) \<Longrightarrow> world_ok w \<Longrightarrow> keeps world_ok (with_template a k w)"
  unfolding with_template_def by (intro holds_intros) auto

lemma world_gtmpls_upd: "world_ok w \<Longrightarrow> t < gbrk w \<Longrightarrow> world_ok (w\<lparr>gtmpls := (gtmpls w)(t := x)\<rparr>)"
  by (auto simp: world_ok_def go_ok_defs)

lemma world_new_template [world_intros]: "world_ok w \<Longrightarrow> keeps world_ok (new_template t w)"
  using world_gtmpls_upd [of "w\<lparr>gbrk := Suc (gbrk w)\<rparr>" "gbrk w"]
  by (simp add: new_template_def go_new_def world_gbrk)

lemma world_RetainedValueCount [world_intros]: "world_ok w \<Longrightarrow> keeps world_ok (RetainedValueCount a w)"
  unfolding RetainedValueCount_def C_ContextRetainedValueCount_def
  by (intro holds_intros world_intros | simp)+

lemma world_RunScript [world_intros]:
  assumes "bodies_ok (closures A)"
  shows "world_ok w \<Longrightarrow> keeps world_ok (RunScript A a source origin w)"
  unfolding RunScript_def C_RunScript_def
  by (intro holds_intros world_intros assms | assumption | simp)+

lemma world_Global [world_intros]: "world_ok w \<Longrightarrow> keeps world_ok (Global A a w)"
  unfolding Global_def C_ContextGlobal_def by (intro holds_intros world_intros | simp)+

lemma world_PerformMicrotaskCheckpoint [world_intros]:
  "bodies_ok (closures A) \<Longrightarrow> world_ok w \<Longrightarrow> keeps world_ok (PerformMicrotaskCheckpoint A a w)"
  unfolding PerformMicrotaskCheckpoint_def by (intro holds_intros world_intros | assumption)+

text \<open>A fresh C++ context under a fresh reference.\<close>

definition ctx_opened :: "addr \<Rightarrow> int \<Rightarrow> addr \<Rightarrow> addr \<Rightarrow> 'j m_ctx \<Rightarrow> ('e, 'j, 'cb) world \<Rightarrow> ('e, 'j, 'cb) world" where
  "ctx_opened a ref isoa p mc w = w\<lparr>mctxs := (mctxs w)(p \<mapsto> mc),
     gctxs := (gctxs w)(a \<mapsto> \<lparr>c_ref = ref, c_ptr = Some p, c_iso = isoa\<rparr>), reg := register a ref (reg w)\<rparr>"

lemma internal_live:
  assumes "heap_ok w" "isolates w i = Some v"
  shows "\<exists>c mc. slot0 v = Some c \<and> mctxs w c = Some mc \<and> mc_iso mc = i"
  using assms unfolding heap_ok_def internal_ok_def by blast

lemma gctxs_ok_ctx_opened:
  assumes ok: "world_ok w" and a: "a < gbrk w" "gctxs w a = None"
    and ref: "1 \<le> ref" "ref \<le> ctxSeq (reg w)" "ctxRegistry (reg w) ref = None"
    and unused: "\<And>b c. gctxs w b = Some c \<Longrightarrow> c_ref c \<noteq> ref"
    and isoa: "gisos w isoa \<noteq> None"
    and p: "p < brk w" "mctxs w p = None" and mc: "mc_vals mc = []" "mc_unboundScripts mc = []"
  shows "gctxs_ok (ctx_opened a ref isoa p mc w)" (is "gctxs_ok ?w")
proof -
  have hok: "heap_ok w" and gok: "gheap_ok w" "gisos_ok w" "gctxs_ok w" "greg_ok w"
    using ok by (auto simp: world_ok_def go_ok_def)
  have slot: "slot0 v \<noteq> Some p" if "isolates w i = Some v" for i v
    using internal_live [OF hok that] p(2) by auto
  have fresh: "c_ptr c \<noteq> Some p" if "gctxs w b = Some c" for b c
    using gok(3) that p(2) unfolding gctxs_ok_def by blast
  have look: "getContext r (reg ?w) = (if r = ref then Some a else getContext r (reg w))" for r
    by (simp add: ctx_opened_def getContext_register_fresh [OF ref(3)])
  show ?thesis
    unfolding gctxs_ok_def look
  proof (intro conjI allI impI)
    fix b c assume b: "gctxs ?w b = Some c"
    show "gisos ?w (c_iso c) \<noteq> None" "c_ref c \<le> ctxSeq (reg ?w)"
      using b isoa ref(2) gok(3) by (auto simp: ctx_opened_def gctxs_ok_def split: if_splits)
    fix q assume q: "c_ptr c = Some q"
    show "mctxs ?w q \<noteq> None"
      using b q gok(3) by (auto simp: ctx_opened_def gctxs_ok_def split: if_splits)
    show "(if c_ref c = ref then Some a else getContext (c_ref c) (reg w)) = Some b"
      using b q gok(3) unused [of b c] by (auto simp: ctx_opened_def gctxs_ok_def split: if_splits)
    fix i v assume "isolates ?w i = Some v"
    then show "slot0 v \<noteq> Some q"
      using b q gok(3) slot by (auto simp: ctx_opened_def gctxs_ok_def split: if_splits)
  next
    fix b c d e
    assume "gctxs ?w b = Some c" "gctxs ?w d = Some e" "(\<exists>q. c_ptr c = Some q \<and> c_ptr e = Some q) \<or> c_ref c = c_ref e"
    then show "b = d"
      using gok(3) fresh [of b c] fresh [of d e] unused [of b c] unused [of d e] unfolding ctx_opened_def gctxs_ok_def
      by (auto split: if_splits)
  qed
qed

lemma world_ctx_opened:
  assumes ok: "world_ok w" and a: "a < gbrk w" "gctxs w a = None"
    and ref: "1 \<le> ref" "ref \<le> ctxSeq (reg w)" "ctxRegistry (reg w) ref = None"
    and unused: "\<And>b c. gctxs w b = Some c \<Longrightarrow> c_ref c \<noteq> ref"
    and isoa: "gisos w isoa \<noteq> None"
    and p: "p < brk w" "mctxs w p = None" and mc: "mc_vals mc = []" "mc_unboundScripts mc = []"
  shows "world_ok (ctx_opened a ref isoa p mc w)" (is "world_ok ?w")
proof -
  have hok: "heap_ok w" and gok: "gheap_ok w" "gisos_ok w" "gctxs_ok w" "greg_ok w"
    using ok by (auto simp: world_ok_def go_ok_def)
  have "heap_ok (w\<lparr>isolates := isolates w, mctxs := (mctxs w)(p \<mapsto> mc)\<rparr>)"
    by (rule heap_ok_new_ctx [OF hok p mc]) auto
  then have "heap_ok ?w" by (simp add: ctx_opened_def)
  have look: "getContext r (reg ?w) = (if r = ref then Some a else getContext r (reg w))" for r
    by (simp add: ctx_opened_def getContext_register_fresh [OF ref(3)])
  have "gctxs_ok ?w" by (rule gctxs_ok_ctx_opened [OF ok a ref unused isoa p mc])
  moreover have "reg_ok (register a ref (reg w))"
    using gok(4) ref by (simp add: greg_ok_def reg_ok_register)
  then have "greg_ok ?w"
    using gok(4) a(2) unfolding greg_ok_def look
    by (simp add: ctx_opened_def) (metis option.distinct(1))
  moreover have "gheap_ok ?w" "gisos_ok ?w"
    using gok a by (auto simp: ctx_opened_def gheap_ok_def gisos_ok_def)
  ultimately show ?thesis using \<open>heap_ok ?w\<close> by (simp add: world_ok_def go_ok_def)
qed

lemma C_NewContext_Ok:
  assumes "C_NewContext A (Some i) tm ref w = Ok p w'"
  obtains h e mc where "isolates w i \<noteq> None" "brk w < mem_limit" "p = brk w" "mc_iso mc = i" "mc_vals mc = []"
    "mc_unboundScripts mc = []" "mc_ptr mc = h"
    "v8_new_context A i (map_option (mt_ptr \<circ> snd) (c_deref (mtmpls w) tm)) ref (v8 w) = (e, h)"
    "w' = w\<lparr>v8 := e, brk := Suc (brk w), mctxs := (mctxs w)(p \<mapsto> mc)\<rparr>"
proof -
  let ?h = "v8_new_context A i (map_option (mt_ptr \<circ> snd) (c_deref (mtmpls w) tm)) ref (v8 w)"
  let ?mc = "\<lparr>mc_iso = i, mc_vals = [], mc_unboundScripts = [], mc_ptr = snd ?h, mc_nextValId = v8_uninit A (fst ?h)\<rparr>"
  have "isolates w i \<noteq> None" "brk w < mem_limit" "p = brk w"
    "w' = w\<lparr>v8 := fst ?h, brk := Suc (brk w), mctxs := (mctxs w)(p \<mapsto> ?mc)\<rparr>"
    using assms
    by (auto simp: C_NewContext_def isolate_scope_def ask_def bindR_eq_Ok c_new_eq_Ok Let_def case_prod_beta
             split: option.splits if_splits)
  then show thesis using that [of ?mc "snd ?h" "fst ?h"] by simp
qed

lemma world_next_ref:
  assumes ok: "world_ok w" and lim: "gbrk w < mem_limit"
  shows "world_ok (w\<lparr>gbrk := Suc (gbrk w), reg := snd (next_ref (reg w))\<rparr>)"
proof -
  have seq: "0 \<le> ctxSeq (reg w)" "ctxSeq (reg w) \<le> int (gbrk w)" "reg_ok (reg w)"
    using ok by (auto simp: world_ok_def go_ok_def greg_ok_def reg_ok_def)
  with lim have "ctxSeq (reg w) + 1 < 2 ^ 63" by (simp add: mem_limit_def)
  with seq have "reg_ok (snd (next_ref (reg w)))" "ctxSeq (snd (next_ref (reg w))) = ctxSeq (reg w) + 1"
    by (simp_all only: reg_ok_next_ref) (simp add: next_ref_eq)
  then show ?thesis
    using ok seq(2) lim by (fastforce simp: world_ok_def go_ok_defs)
qed

lemma world_brk: "world_ok w \<Longrightarrow> brk w < mem_limit \<Longrightarrow> world_ok (w\<lparr>brk := Suc (brk w)\<rparr>)"
  using world_c_new [of w] by (simp add: c_new_def)

lemma C_NewContext_Fault: "C_NewContext A ip tm ref w = Fault f w' \<Longrightarrow> \<not> recoverable f"
  by (auto simp: C_NewContext_def isolate_scope_def ask_def bindR_eq_Fault c_new_eq_Fault Let_def
           split: option.splits if_splits prod.splits)

lemma open_context_Fault:
  assumes "open_context A isoa tm w = Fault f w'" "gbrk w < mem_limit"
    and next_ref: "next_ref (reg w) = (ref, g)"
  shows "w' = w\<lparr>gbrk := Suc (gbrk w), reg := g\<rparr> \<or> \<not> recoverable f"
  using assms
  by (auto simp: open_context_def go_new_def with_isolate_def with_template_def bindR_eq_Fault
           dest: C_NewContext_Fault split: option.splits)

text \<open>A context that was created is opened in the state after its reference was drawn.\<close>

lemma open_context_opened:
  assumes "open_context A isoa tm w = Ok b w'" "gbrk w < mem_limit"
    and next_ref: "next_ref (reg w) = (ref, g)"
  obtains e mc h where "gisos w isoa = Some h" "i_ptr h = Some (mc_iso mc)" "mc_vals mc = []" "mc_unboundScripts mc = []" "brk w < mem_limit"
    "b = gbrk w" "w' = ctx_opened (gbrk w) ref isoa (brk w) mc (w\<lparr>gbrk := Suc (gbrk w), reg := g, v8 := e, brk := Suc (brk w)\<rparr>)"
proof -
  let ?w1 = "w\<lparr>gbrk := Suc (gbrk w), reg := g\<rparr>"
  obtain h t p w2 where h: "gisos w isoa = Some h" and t: "gtmpls w tm = Some t"
    and new: "C_NewContext A (i_ptr h) (t_ptr t) (c_int ref) ?w1 = Ok p w2"
    and b: "b = gbrk w" and w': "w' = w2\<lparr>gctxs := (gctxs w2)(gbrk w \<mapsto> \<lparr>c_ref = ref, c_ptr = Some p, c_iso = isoa\<rparr>),
                       reg := register (gbrk w) ref (reg w2)\<rparr>"
    using assms
    by (auto simp: open_context_def go_new_def with_isolate_def with_template_def bindR_eq_Ok split: option.splits)
  from new obtain i where i: "i_ptr h = Some i"
    by (cases "i_ptr h") (auto simp: C_NewContext_def isolate_scope_def)
  with new have new: "C_NewContext A (Some i) (t_ptr t) (c_int ref) ?w1 = Ok p w2" by simp
  from new obtain e mc where mc: "mc_iso mc = i" "mc_vals mc = []" "mc_unboundScripts mc = []"
    and p: "p = brk w" "brk w < mem_limit"
    and w2: "w2 = ?w1\<lparr>v8 := e, brk := Suc (brk w), mctxs := (mctxs w)(p \<mapsto> mc)\<rparr>"
    by (rule C_NewContext_Ok) auto
  show thesis by (rule that [OF h _ mc(2,3) p(2) b]) (use i mc(1) w' w2 p(1) in \<open>auto simp: ctx_opened_def\<close>)
qed

lemma world_open_context [world_intros]:
  assumes ok: "world_ok w"
  shows "keeps world_ok (open_context A isoa tm w)"
proof (cases "gbrk w < mem_limit")
  case False
  then show ?thesis by (simp add: open_context_def go_new_def)
next
  case True
  let ?a = "gbrk w" and ?ref = "ctxSeq (reg w) + 1"
  let ?w1 = "w\<lparr>gbrk := Suc (gbrk w), reg := (reg w)\<lparr>ctxSeq := ?ref\<rparr>\<rparr>"
  have "greg_ok w" using ok by (simp add: world_ok_def go_ok_def)
  then have seq: "0 \<le> ctxSeq (reg w)" "ctxSeq (reg w) \<le> int (gbrk w)" "reg_ok (reg w)"
    by (auto simp: greg_ok_def reg_ok_def)
  with True have lim: "?ref < 2 ^ 63" by (simp add: mem_limit_def)
  note next_ref = next_ref_eq [OF seq(1) lim]
  have ok1: "world_ok ?w1" using world_next_ref [OF ok True] next_ref by simp
  show ?thesis
  proof (cases "open_context A isoa tm w")
    case (Fault f w')
    from open_context_Fault [OF this True next_ref] Fault ok1 show ?thesis by auto
  next
    case (Ok b w')
    obtain e mc h where g: "gisos w isoa = Some h" and mc: "mc_vals mc = []" "mc_unboundScripts mc = []" and p: "brk w < mem_limit"
      and w': "w' = ctx_opened ?a ?ref isoa (brk w) mc (?w1\<lparr>v8 := e, brk := Suc (brk w)\<rparr>)"
      by (rule open_context_opened [OF Ok True next_ref])
    have "world_ok (?w1\<lparr>v8 := e\<rparr>)" using ok1 by (simp only: world_v8)
    from world_brk [OF this] have "world_ok (?w1\<lparr>v8 := e, brk := Suc (brk w)\<rparr>)" using p by simp
    moreover have "mctxs w (brk w) = None" using ok heap_okD_fresh [of w "brk w"] by (simp add: world_ok_def)
    moreover have "gctxs w ?a = None" using ok by (simp add: world_ok_def go_ok_def gheap_ok_def)
    moreover have "ctxRegistry (reg w) ?ref = None" using seq(3) by (simp add: reg_ok_unused)
    moreover have "c_ref d \<noteq> ?ref" if "gctxs w b = Some d" for b d
      using ok that by (fastforce simp: world_ok_def go_ok_def gctxs_ok_def)
    ultimately have "world_ok w'" unfolding w' using g mc seq(1) by (intro world_ctx_opened) auto
    with Ok show ?thesis by simp
  qed
qed

lemma world_NewContext [world_intros]: "world_ok w \<Longrightarrow> keeps world_ok (NewContext A opt w)"
  unfolding NewContext_def by (intro holds_intros world_intros | simp)+

text \<open>Closing: the values, the unbound scripts and the reference of the context go, nothing else.\<close>

definition ctx_closed :: "addr \<Rightarrow> Context \<Rightarrow> addr \<Rightarrow> 'j m_ctx \<Rightarrow> ('e, 'j, 'cb) world \<Rightarrow> ('e, 'j, 'cb) world" where
  "ctx_closed a c p mc w = (ctx_freed p mc w)\<lparr>reg := deregister (c_ref c) (reg w),
     gctxs := (gctxs w)(a \<mapsto> c\<lparr>c_ptr := None\<rparr>)\<rparr>"

lemma gctxsD:
  assumes "world_ok w" "gctxs w a = Some c"
  shows "a < gbrk w" "gisos w (c_iso c) \<noteq> None \<and> c_ref c \<le> ctxSeq (reg w)"
    "\<And>p. c_ptr c = Some p \<Longrightarrow> mctxs w p \<noteq> None \<and> getContext (c_ref c) (reg w) = Some a"
    "\<And>p i v. c_ptr c = Some p \<Longrightarrow> isolates w i = Some v \<Longrightarrow> slot0 v \<noteq> Some p"
    "\<And>b d p. gctxs w b = Some d \<Longrightarrow> c_ptr c = Some p \<Longrightarrow> c_ptr d = Some p \<Longrightarrow> b = a"
    "\<And>b d. gctxs w b = Some d \<Longrightarrow> c_ref c = c_ref d \<Longrightarrow> b = a"
proof -
  have gok: "gheap_ok w" "gctxs_ok w" using assms by (auto simp: world_ok_def go_ok_def)
  show "a < gbrk w" by (rule ccontr) (use gok(1) assms(2) in \<open>auto simp: gheap_ok_def\<close>)
  show "gisos w (c_iso c) \<noteq> None \<and> c_ref c \<le> ctxSeq (reg w)"
    "\<And>p. c_ptr c = Some p \<Longrightarrow> mctxs w p \<noteq> None \<and> getContext (c_ref c) (reg w) = Some a"
    "\<And>p i v. c_ptr c = Some p \<Longrightarrow> isolates w i = Some v \<Longrightarrow> slot0 v \<noteq> Some p"
    "\<And>b d p. gctxs w b = Some d \<Longrightarrow> c_ptr c = Some p \<Longrightarrow> c_ptr d = Some p \<Longrightarrow> b = a"
    "\<And>b d. gctxs w b = Some d \<Longrightarrow> c_ref c = c_ref d \<Longrightarrow> b = a"
    using gok(2) assms(2) unfolding gctxs_ok_def by blast+
qed

lemma closed_unregistered:
  assumes "world_ok w" "gctxs w a = Some c" "c_ptr c = None"
  shows "deregister (c_ref c) (reg w) = reg w"
proof (cases "getContext (c_ref c) (reg w)")
  case None
  then show ?thesis by (simp add: getContext_def deregister_def split: option.splits)
next
  case (Some b)
  with assms(1) obtain d where "gctxs w b = Some d" "c_ref d = c_ref c" "c_ptr d \<noteq> None"
    unfolding world_ok_def go_ok_def greg_ok_def by blast
  with gctxsD(6) [OF assms(1,2)] assms show ?thesis by fastforce
qed

lemma getContext_ctx_closed:
  assumes "world_ok w"
  shows "getContext r (reg (ctx_closed a c p mc w)) = (if r = c_ref c then None else getContext r (reg w))"
  using assms by (simp add: ctx_closed_def world_ok_def go_ok_def greg_ok_def getContext_deregister)

lemma gctxs_ok_ctx_closed:
  assumes ok: "world_ok w" and a: "gctxs w a = Some c" "c_ptr c = Some p"
  shows "gctxs_ok (ctx_closed a c p mc w)" (is "gctxs_ok ?w")
proof -
  note c = gctxsD [OF ok a(1)]
  note look = getContext_ctx_closed [OF ok]
  show ?thesis
    unfolding gctxs_ok_def look
  proof (intro conjI allI impI)
    fix b d assume b: "gctxs ?w b = Some d"
    then have b': "b = a \<and> d = c\<lparr>c_ptr := None\<rparr> \<or> b \<noteq> a \<and> gctxs w b = Some d"
      by (auto simp: ctx_closed_def split: if_splits)
    then show "gisos ?w (c_iso d) \<noteq> None" "c_ref d \<le> ctxSeq (reg ?w)"
      using c(2) gctxsD(2) [OF ok] by (auto simp: ctx_closed_def)
    fix q assume q: "c_ptr d = Some q"
    with b' have b: "b \<noteq> a" "gctxs w b = Some d" by auto
    note d = gctxsD [OF ok b(2)]
    have "q \<noteq> p" using c(5) [OF b(2) a(2)] q b(1) by auto
    then show "mctxs ?w q \<noteq> None" using d(3) [OF q] by (simp add: ctx_closed_def)
    show "(if c_ref d = c_ref c then None else getContext (c_ref d) (reg w)) = Some b"
      using d(3) [OF q] c(3) [OF a(2)] b(1) by auto
    show "\<And>i v. isolates ?w i = Some v \<Longrightarrow> slot0 v \<noteq> Some q"
      using d(4) [OF q] by (simp add: ctx_closed_def)
  next
    fix b d e f
    assume be: "gctxs ?w b = Some d" "gctxs ?w e = Some f"
      "(\<exists>q. c_ptr d = Some q \<and> c_ptr f = Some q) \<or> c_ref d = c_ref f"
    have old: "\<exists>d'. gctxs w b = Some d' \<and> c_ref d' = c_ref d \<and> (\<forall>q. c_ptr d = Some q \<longrightarrow> c_ptr d' = Some q)"
      if "gctxs ?w b = Some d" for b d
      using that a by (cases "b = a") (auto simp: ctx_closed_def)
    from old [OF be(1)] old [OF be(2)] be(3) show "b = e"
      using gctxsD(5,6) [OF ok, of e _ b] by metis
  qed
qed

lemma greg_ok_ctx_closed:
  assumes ok: "world_ok w" and a: "gctxs w a = Some c" "c_ptr c = Some p"
  shows "greg_ok (ctx_closed a c p mc w)" (is "greg_ok ?w")
proof -
  have gok: "greg_ok w" using ok by (simp add: world_ok_def go_ok_def)
  note look = getContext_ctx_closed [OF ok]
  show ?thesis
    unfolding greg_ok_def look
  proof (intro conjI allI impI)
    show "reg_ok (reg ?w)" "ctxSeq (reg ?w) \<le> int (gbrk ?w)"
      using gok by (simp_all add: ctx_closed_def greg_ok_def reg_ok_deregister)
    fix r b assume r: "(if r = c_ref c then None else getContext r (reg w)) = Some b"
    then have r: "r \<noteq> c_ref c" "getContext r (reg w) = Some b" by (auto split: if_splits)
    with gok obtain d where "gctxs w b = Some d" "c_ref d = r" "c_ptr d \<noteq> None"
      unfolding greg_ok_def by blast
    with r(1) a show "\<exists>d. gctxs ?w b = Some d \<and> c_ref d = r \<and> c_ptr d \<noteq> None"
      by (auto simp: ctx_closed_def)
  qed
qed

lemma world_ctx_closed:
  assumes ok: "world_ok w" and a: "gctxs w a = Some c" "c_ptr c = Some p" and mc: "mctxs w p = Some mc"
  shows "world_ok (ctx_closed a c p mc w)" (is "world_ok ?w")
proof -
  have hok: "heap_ok w" and gok: "gheap_ok w" "gisos_ok w" "gctxs_ok w" "greg_ok w"
    using ok by (auto simp: world_ok_def go_ok_def)
  note c = gctxsD [OF ok a(1)]
  have "heap_ok ((ctx_freed p mc w)\<lparr>isolates := isolates w\<rparr>)"
    by (rule heap_ok_ctx_freed [OF hok mc]) (use c(4) [OF a(2)] in auto)
  moreover have "?w = ((ctx_freed p mc w)\<lparr>isolates := isolates w\<rparr>)\<lparr>reg := deregister (c_ref c) (reg w),
     gctxs := (gctxs w)(a \<mapsto> c\<lparr>c_ptr := None\<rparr>)\<rparr>" by (simp add: ctx_closed_def ctx_freed_def)
  ultimately have "heap_ok ?w" by simp
  moreover have "gctxs_ok ?w" using ok a by (rule gctxs_ok_ctx_closed)
  moreover have "greg_ok ?w" using ok a by (rule greg_ok_ctx_closed)
  moreover have "gheap_ok ?w" "gisos_ok ?w"
    using gok c(1) by (auto simp: ctx_closed_def gheap_ok_def gisos_ok_def)
  ultimately show ?thesis by (simp add: world_ok_def go_ok_def)
qed

lemma Context_Close_Ok:
  assumes "world_ok w" "gctxs w a = Some c" "c_ptr c = Some p" "Context_Close a w = Ok u w'"
  obtains mc where "mctxs w p = Some mc" "w' = ctx_closed a c p mc w"
proof -
  let ?w = "w\<lparr>reg := deregister (c_ref c) (reg w)\<rparr>"
  from assms obtain w1 where w1: "C_ContextFree (Some p) ?w = Ok () w1"
    and w': "w' = w1\<lparr>gctxs := (gctxs w1)(a \<mapsto> c\<lparr>c_ptr := None\<rparr>)\<rparr>"
    by (auto simp: Context_Close_def with_context_def bindR_eq_Ok)
  from C_ContextFree_Ok [OF w1] obtain mc where "mctxs w p = Some mc" "w1 = ctx_freed p mc ?w" by auto
  with w' show thesis using that by (simp add: ctx_closed_def ctx_freed_def)
qed

lemma Context_Close_eq:
  assumes ok: "world_ok w" and a: "gctxs w a = Some c" "c_ptr c = Some p" and mc: "mctxs w p = Some mc"
    and live: "isolates_live w p"
  shows "Context_Close a w = Ok () (ctx_closed a c p mc w)"
proof -
  let ?w = "w\<lparr>reg := deregister (c_ref c) (reg w)\<rparr>"
  have "C_ContextFree (Some p) ?w = Ok () (ctx_freed p mc ?w)"
    using ok mc live by (intro C_ContextFree_eq) (auto simp: world_ok_def isolates_live_def)
  then show ?thesis using a by (simp add: Context_Close_def with_context_def ctx_closed_def ctx_freed_def)
qed

lemma Context_Close_closed:
  "world_ok w \<Longrightarrow> gctxs w a = Some c \<Longrightarrow> c_ptr c = None \<Longrightarrow> Context_Close a w = Ok () w"
proof -
  assume ok: "world_ok w" and c: "gctxs w a = Some c" "c_ptr c = None"
  have "c\<lparr>c_ptr := None\<rparr> = c" using c(2) by (cases c) simp
  then have "(gctxs w)(a \<mapsto> c\<lparr>c_ptr := None\<rparr>) = gctxs w" using c(1) by (simp add: fun_upd_idem)
  with closed_unregistered [OF ok c] c show ?thesis
    by (simp add: Context_Close_def with_context_def C_ContextFree_def)
qed

lemma world_Context_Close [world_intros]:
  assumes ok: "world_ok w"
  shows "keeps world_ok (Context_Close a w)"
proof (cases "Context_Close a w")
  case (Fault f w')
  then have "f = NilDeref \<and> w' = w \<or> f = Segv"
    by (auto simp: Context_Close_def with_context_def bindR_eq_Fault dest: C_ContextFree_Fault split: option.splits)
  with ok Fault show ?thesis by auto
next
  case (Ok u w')
  then obtain c where c: "gctxs w a = Some c"
    by (auto simp: Context_Close_def with_context_def split: option.splits)
  show ?thesis
  proof (cases "c_ptr c")
    case None
    with c ok show ?thesis by (simp add: Context_Close_closed)
  next
    case (Some p)
    from Context_Close_Ok [OF ok c Some Ok] ok c Some Ok show ?thesis
      by (metis holds.simps(1) world_ctx_closed)
  qed
qed

definition ctx_is_closed :: "addr \<Rightarrow> ('e, 'j, 'cb) world \<Rightarrow> bool" where
  "ctx_is_closed a w \<longleftrightarrow> world_ok w \<and> (\<exists>c. gctxs w a = Some c \<and> c_ptr c = None)"

interpretation ctx_close: disposable "Context_Close a" world_ok "ctx_is_closed a" for a
proof unfold_locales
  fix w w' :: "('e, 'j, 'cb) world" and u
  assume ok: "world_ok w" and closed: "Context_Close a w = Ok u w'"
  have "world_ok w'" using world_Context_Close [OF ok, of a] closed by simp
  with closed show "ctx_is_closed a w'"
    by (auto simp: ctx_is_closed_def Context_Close_def with_context_def bindR_eq_Ok split: option.splits)
next
  fix w :: "('e, 'j, 'cb) world"
  assume "ctx_is_closed a w"
  then show "Context_Close a w = Ok () w" by (auto simp: ctx_is_closed_def Context_Close_closed)
qed

end
