(* ===== verification/Values.thy ===== *)
theory Values
  imports Contexts
begin

text \<open>
  value.go with the functions of v8go.cc it calls: creating values from Go values, the
  conversions, the type predicates, releasing a value, formatting and the casts.
\<close>

section \<open>Go values\<close>

text \<open>
  What an \<open>interface{}\<close> argument can hold, as far as the type switches of the package tell
  values apart: a \<open>*big.Int\<close> is its integer, \<open>GValuer\<close> stands for every type with a
  \<open>value()\<close> method other than \<open>*Value\<close>, and \<open>GOther\<close> for a type no case matches,
  both with the text \<open>%T\<close> prints.
\<close>

datatype goval =
    GString bytes
  | GInt32 "32 word"
  | GUint32 "32 word"
  | GInt64 "64 word"
  | GUint64 "64 word"
  | GBool bool
  | GFloat64 "64 word"
  | GBigInt int
  | GValue Value
  | GValuer string Value
  | GObjectTemplate addr
  | GFunctionTemplate addr
  | GOther string

text \<open>
  The one method of the interface \<open>Valuer\<close>; every type that embeds a \<open>*Value\<close> has it by promotion.
\<close>

definition Value_value :: "Value \<Rightarrow> Value" where
  "Value_value v = v"

lemmas Value_value_simps [simp] = Value_value_def

text \<open>The words of \<open>(*big.Int).Bits\<close>: the absolute value, least significant word first, no leading zero.\<close>

fun nat_words :: "nat \<Rightarrow> 64 word list" where
  "nat_words n = (if n = 0 then [] else word_of_nat (n mod 2 ^ 64) # nat_words (n div 2 ^ 64))"

declare nat_words.simps [simp del]

primrec words_nat :: "64 word list \<Rightarrow> nat" where
  "words_nat [] = 0"
| "words_nat (x # xs) = unat x + 2 ^ 64 * words_nat xs"

definition IsInt64 :: "int \<Rightarrow> bool" where
  "IsInt64 v \<longleftrightarrow> - (2 ^ 63) \<le> v \<and> v < 2 ^ 63"

definition IsUint64 :: "int \<Rightarrow> bool" where
  "IsUint64 v \<longleftrightarrow> 0 \<le> v \<and> v < 2 ^ 64"

section \<open>Creating values\<close>

definition C_new_primitive :: "('e \<Rightarrow> 'e \<times> 'j) \<Rightarrow> addr option \<Rightarrow> (addr, 'e, 'j, 'cb) op" where
  "C_new_primitive f isop = internal_scope isop (\<lambda>i c w. bindR (ask f w) (\<lambda>j w. new_value i c j w))"

definition C_NewValueInteger :: "('e, 'j, 'cb) env \<Rightarrow> addr option \<Rightarrow> 32 word \<Rightarrow> (addr, 'e, 'j, 'cb) op" where
  "C_NewValueInteger A isop v = C_new_primitive (v8_integer A v) isop"

definition C_NewValueIntegerFromUnsigned :: "('e, 'j, 'cb) env \<Rightarrow> addr option \<Rightarrow> 32 word \<Rightarrow> (addr, 'e, 'j, 'cb) op" where
  "C_NewValueIntegerFromUnsigned A isop v = C_new_primitive (v8_unsigned A v) isop"

definition C_NewValueBoolean :: "('e, 'j, 'cb) env \<Rightarrow> addr option \<Rightarrow> int \<Rightarrow> (addr, 'e, 'j, 'cb) op" where
  "C_NewValueBoolean A isop v = C_new_primitive (v8_boolean A (v \<noteq> 0)) isop"

definition C_NewValueNumber :: "('e, 'j, 'cb) env \<Rightarrow> addr option \<Rightarrow> 64 word \<Rightarrow> (addr, 'e, 'j, 'cb) op" where
  "C_NewValueNumber A isop v = C_new_primitive (v8_number A v) isop"

definition C_NewValueBigInt :: "('e, 'j, 'cb) env \<Rightarrow> addr option \<Rightarrow> 64 word \<Rightarrow> (addr, 'e, 'j, 'cb) op" where
  "C_NewValueBigInt A isop v = C_new_primitive (v8_bigint A v) isop"

definition C_NewValueBigIntFromUnsigned :: "('e, 'j, 'cb) env \<Rightarrow> addr option \<Rightarrow> 64 word \<Rightarrow> (addr, 'e, 'j, 'cb) op" where
  "C_NewValueBigIntFromUnsigned A isop v = C_new_primitive (v8_bigint_unsigned A v) isop"

text \<open>
  \<open>NewFromUtf8\<close> with an explicit length reads that many bytes; with a negative one it reads up
  to the first NUL.
\<close>

definition C_NewValueString :: "('e, 'j, 'cb) env \<Rightarrow> addr option \<Rightarrow> addr \<Rightarrow> int \<Rightarrow> (RtnValue, 'e, 'j, 'cb) op" where
  "C_NewValueString A isop v v_length = internal_scope isop (\<lambda>i c w.
     bindR (if v_length < 0 then utf8_arg A i v w
            else bindR (GoStringN (Some v) v_length w) (\<lambda>s w. ask (v8_new_utf8 A i s) w))
       (\<lambda>str w. rtn_of A i c str w))"

definition C_NewValueBigIntFromWords ::
    "('e, 'j, 'cb) env \<Rightarrow> addr option \<Rightarrow> int \<Rightarrow> int \<Rightarrow> 64 word list \<Rightarrow> (RtnValue, 'e, 'j, 'cb) op" where
  "C_NewValueBigIntFromWords A isop sign_bit word_count words = internal_scope isop (\<lambda>i c w.
     case c_deref (mctxs w) c of None \<Rightarrow> Fault Segv w
     | Some (_, mc) \<Rightarrow>
        if word_count < 0 \<or> length words < nat word_count then Fault Segv w
        else bindR (ask (v8_bigint_words A (mc_ptr mc) sign_bit (take (nat word_count) words)) w)
               (\<lambda>b w. rtn_of A i c b w))"

text \<open>\<open>return &Value{ptr: ...}, nil\<close>.\<close>

definition plain_value :: "(addr, ('e, 'j, 'cb) world) res \<Rightarrow> (goerror + Value, ('e, 'j, 'cb) world) res" where
  "plain_value m = bindR m (\<lambda>p w. Ok (Inr \<lparr>v_ptr = Some p, v_ctx = None\<rparr>) w)"

definition NewValue_BigInt :: "('e, 'j, 'cb) env \<Rightarrow> addr option \<Rightarrow> int \<Rightarrow> (goerror + Value, 'e, 'j, 'cb) op" where
  "NewValue_BigInt A isop v w =
     (if IsInt64 v then plain_value (C_NewValueBigInt A isop (word_of_int v) w)
      else if IsUint64 v then plain_value (C_NewValueBigIntFromUnsigned A isop (word_of_int v) w)
      else
        (let sign = (if v < 0 then 1 else 0); bits = nat_words (nat \<bar>v\<bar>); count = length bits
         in if count = 0 then Fault IndexOutOfRange w
            else bindR (C_NewValueBigIntFromWords A isop sign (c_int (int count)) bits w)
                   (\<lambda>rtn w. valueResult None rtn w)))"

definition NewValue :: "('e, 'j, 'cb) env \<Rightarrow> addr option \<Rightarrow> goval \<Rightarrow> (goerror + Value, 'e, 'j, 'cb) op" where
  "NewValue A isoa val w =
     (case isoa of
        None \<Rightarrow> Ok (Inl (GoErr ''v8go: failed to create new Value: Isolate cannot be <nil>'')) w
      | Some a \<Rightarrow>
         (case val of
            GString v \<Rightarrow>
              withCString v (\<lambda>cstr. with_isolate a (\<lambda>i w.
                bindR (C_NewValueString A (i_ptr i) cstr (c_int (int (length v))) w)
                  (\<lambda>rtn w. valueResult None rtn w))) w
          | GInt32 v \<Rightarrow> with_isolate a (\<lambda>i w. plain_value (C_NewValueInteger A (i_ptr i) v w)) w
          | GUint32 v \<Rightarrow> with_isolate a (\<lambda>i w. plain_value (C_NewValueIntegerFromUnsigned A (i_ptr i) v w)) w
          | GInt64 v \<Rightarrow> with_isolate a (\<lambda>i w. plain_value (C_NewValueBigInt A (i_ptr i) v w)) w
          | GUint64 v \<Rightarrow> with_isolate a (\<lambda>i w. plain_value (C_NewValueBigIntFromUnsigned A (i_ptr i) v w)) w
          | GBool v \<Rightarrow>
              with_isolate a (\<lambda>i w. plain_value (C_NewValueBoolean A (i_ptr i) (if v then 1 else 0) w)) w
          | GFloat64 v \<Rightarrow> with_isolate a (\<lambda>i w. plain_value (C_NewValueNumber A (i_ptr i) v w)) w
          | GBigInt v \<Rightarrow> with_isolate a (\<lambda>i. NewValue_BigInt A (i_ptr i) v) w
          | GValue _ \<Rightarrow> Ok (Inl (GoErr ''v8go: unsupported value type `*v8go.Value`'')) w
          | GValuer t _ \<Rightarrow> Ok (Inl (GoErr (''v8go: unsupported value type `'' @ t @ ''`''))) w
          | GObjectTemplate _ \<Rightarrow> Ok (Inl (GoErr ''v8go: unsupported value type `*v8go.ObjectTemplate`'')) w
          | GFunctionTemplate _ \<Rightarrow> Ok (Inl (GoErr ''v8go: unsupported value type `*v8go.FunctionTemplate`'')) w
          | GOther t \<Rightarrow> Ok (Inl (GoErr (''v8go: unsupported value type `'' @ t @ ''`''))) w))"

section \<open>Conversions\<close>

definition C_ValueToArrayIndex :: "('e, 'j, 'cb) env \<Rightarrow> addr option \<Rightarrow> (addr option, 'e, 'j, 'cb) op" where
  "C_ValueToArrayIndex A p = local_value p (\<lambda>i c h v w.
     bindR (run A i (v8_array_index A h v) w) (\<lambda>r w.
       case r of None \<Rightarrow> Ok None w
       | Some n \<Rightarrow> bindR (malloc (U32 n) w) (\<lambda>a w. Ok (Some a) w)))"

definition ArrayIndex :: "('e, 'j, 'cb) env \<Rightarrow> Value \<Rightarrow> (32 word \<times> bool, 'e, 'j, 'cb) op" where
  "ArrayIndex A v w = bindR (C_ValueToArrayIndex A (v_ptr v) w) (\<lambda>arrayIdx w.
     defer_free arrayIdx
       (case arrayIdx of None \<Rightarrow> Ok (0, False) w
        | Some a \<Rightarrow> (case blocks w a of Some (U32 n) \<Rightarrow> Ok (n, True) w | _ \<Rightarrow> Fault Segv w)))"

record ValueBigInt =
  word_array :: "addr option"
  word_count :: int
  sign_bit :: int

definition C_ValueToBigInt :: "('e, 'j, 'cb) env \<Rightarrow> addr option \<Rightarrow> (ValueBigInt, 'e, 'j, 'cb) op" where
  "C_ValueToBigInt A p = local_value p (\<lambda>i c h v w.
     bindR (run A i (v8_to_bigint A h v) w) (\<lambda>r w.
       case r of None \<Rightarrow> Ok \<lparr>word_array = None, word_count = 0, sign_bit = 0\<rparr> w
       | Some (s, ws) \<Rightarrow> bindR (malloc (U64s ws) w) (\<lambda>a w.
           Ok \<lparr>word_array = Some a, word_count = c_int (int (length ws)), sign_bit = s\<rparr> w)))"

text \<open>
  \<open>(v *Value) BigInt\<close>: the receiver may be nil; slicing the word array to a negative count or
  beyond its end is out of range.
\<close>

definition BigInt :: "('e, 'j, 'cb) env \<Rightarrow> Value option \<Rightarrow> (int option, 'e, 'j, 'cb) op" where
  "BigInt A val w =
     (case val of None \<Rightarrow> Ok None w
      | Some v \<Rightarrow>
         bindR (C_ValueToBigInt A (v_ptr v) w) (\<lambda>bint w.
           defer_free (word_array bint)
             (case word_array bint of None \<Rightarrow> Ok None w
              | Some a \<Rightarrow>
                 (case blocks w a of
                    Some (U64s ws) \<Rightarrow>
                      if word_count bint < 0 \<or> 2 ^ 30 < word_count bint then Fault IndexOutOfRange w
                      else if length ws < nat (word_count bint) then Fault Segv w
                      else (let b = int (words_nat (take (nat (word_count bint)) ws))
                            in Ok (Some (if sign_bit bint = 1 then - b else b)) w)
                  | _ \<Rightarrow> Fault Segv w))))"

definition C_ValueToBoolean :: "('e, 'j, 'cb) env \<Rightarrow> addr option \<Rightarrow> (int, 'e, 'j, 'cb) op" where
  "C_ValueToBoolean A p = local_value p (\<lambda>i c h v w.
     Ok (if v8_boolean_value A v (v8 w) then 1 else 0) w)"

definition Boolean :: "('e, 'j, 'cb) env \<Rightarrow> Value \<Rightarrow> (bool, 'e, 'j, 'cb) op" where
  "Boolean A v w = bindR (C_ValueToBoolean A (v_ptr v) w) (\<lambda>n w. Ok (n \<noteq> 0) w)"

definition C_ValueToInt32 :: "('e, 'j, 'cb) env \<Rightarrow> addr option \<Rightarrow> (32 word, 'e, 'j, 'cb) op" where
  "C_ValueToInt32 A p = local_value p (\<lambda>i c h v w. checked (run A i (v8_int32_value A h v) w))"

definition Int32 :: "('e, 'j, 'cb) env \<Rightarrow> Value \<Rightarrow> (32 word, 'e, 'j, 'cb) op" where
  "Int32 A v = C_ValueToInt32 A (v_ptr v)"

definition C_ValueToInteger :: "('e, 'j, 'cb) env \<Rightarrow> addr option \<Rightarrow> (64 word, 'e, 'j, 'cb) op" where
  "C_ValueToInteger A p = local_value p (\<lambda>i c h v w. checked (run A i (v8_integer_value A h v) w))"

definition Integer :: "('e, 'j, 'cb) env \<Rightarrow> Value \<Rightarrow> (64 word, 'e, 'j, 'cb) op" where
  "Integer A v = C_ValueToInteger A (v_ptr v)"

definition C_ValueToNumber :: "('e, 'j, 'cb) env \<Rightarrow> addr option \<Rightarrow> (64 word, 'e, 'j, 'cb) op" where
  "C_ValueToNumber A p = local_value p (\<lambda>i c h v w. checked (run A i (v8_number_value A h v) w))"

definition Number :: "('e, 'j, 'cb) env \<Rightarrow> Value \<Rightarrow> (64 word, 'e, 'j, 'cb) op" where
  "Number A v = C_ValueToNumber A (v_ptr v)"

definition C_ValueToUint32 :: "('e, 'j, 'cb) env \<Rightarrow> addr option \<Rightarrow> (32 word, 'e, 'j, 'cb) op" where
  "C_ValueToUint32 A p = local_value p (\<lambda>i c h v w. checked (run A i (v8_uint32_value A h v) w))"

definition Uint32 :: "('e, 'j, 'cb) env \<Rightarrow> Value \<Rightarrow> (32 word, 'e, 'j, 'cb) op" where
  "Uint32 A v = C_ValueToUint32 A (v_ptr v)"

record RtnString =
  rs_data :: "addr option"
  rs_length :: int
  rs_error :: RtnError

definition C_ValueToDetailString :: "('e, 'j, 'cb) env \<Rightarrow> addr option \<Rightarrow> (RtnString, 'e, 'j, 'cb) op" where
  "C_ValueToDetailString A p = local_value p (\<lambda>i c h v w.
     bindR (run A i (v8_detail_string A h v) w) (\<lambda>r w.
       case r of
         None \<Rightarrow> bindR (raised A i w) (\<lambda>e w. Ok \<lparr>rs_data = None, rs_length = 0, rs_error = e\<rparr> w)
       | Some ds \<Rightarrow> bindR (CopyUtf8 ds w) (\<lambda>a w.
           Ok \<lparr>rs_data = a, rs_length = c_int (int (length ds)), rs_error = no_error\<rparr> w)))"

definition DetailString :: "('e, 'j, 'cb) env \<Rightarrow> Value \<Rightarrow> (bytes, 'e, 'j, 'cb) op" where
  "DetailString A v w = bindR (C_ValueToDetailString A (v_ptr v) w) (\<lambda>rtn w.
     if rs_data rtn = None then bindR (newJSError (rs_error rtn) w) (\<lambda>err w. Fault (PanicErr err) w)
     else defer_free (rs_data rtn) (GoStringN (rs_data rtn) (rs_length rtn) w))"

text \<open>\<open>ValueToString\<close> copies the bytes into a block of exactly their length, without a NUL.\<close>

definition C_ValueToString :: "('e, 'j, 'cb) env \<Rightarrow> addr option \<Rightarrow> (RtnString, 'e, 'j, 'cb) op" where
  "C_ValueToString A p = local_value p (\<lambda>i c h v w.
     bindR (run A i (v8_utf8_value A i v) w) (\<lambda>src w.
     bindR (malloc (Chars src) w) (\<lambda>a w.
       Ok \<lparr>rs_data = Some a, rs_length = c_int (int (length src)), rs_error = no_error\<rparr> w)))"

definition String :: "('e, 'j, 'cb) env \<Rightarrow> Value \<Rightarrow> (bytes, 'e, 'j, 'cb) op" where
  "String A v w = bindR (C_ValueToString A (v_ptr v) w) (\<lambda>s w.
     defer_free (rs_data s) (GoStringN (rs_data s) (rs_length s) w))"

definition C_ValueToObject :: "('e, 'j, 'cb) env \<Rightarrow> addr option \<Rightarrow> (RtnValue, 'e, 'j, 'cb) op" where
  "C_ValueToObject A p = local_value p (\<lambda>i c h v w.
     bindR (run A i (v8_to_object A h v) w) (\<lambda>r w. rtn_of A i (Some c) r w))"

text \<open>\<open>if err != nil { panic(err) }\<close>.\<close>

definition or_panic :: "(goerror + 'a, ('e, 'j, 'cb) world) res \<Rightarrow> ('a, ('e, 'j, 'cb) world) res" where
  "or_panic m = bindR m (\<lambda>r w. case r of Inl err \<Rightarrow> Fault (PanicErr err) w | Inr a \<Rightarrow> Ok a w)"

definition Value_Object :: "('e, 'j, 'cb) env \<Rightarrow> Value \<Rightarrow> (Object, 'e, 'j, 'cb) op" where
  "Value_Object A v w = bindR (C_ValueToObject A (v_ptr v) w) (\<lambda>rtn w.
     or_panic (objectResult (v_ctx v) rtn w))"

definition C_ValueSameValue :: "('e, 'j, 'cb) env \<Rightarrow> addr option \<Rightarrow> addr option \<Rightarrow> (int, 'e, 'j, 'cb) op" where
  "C_ValueSameValue A p q w =
     (case c_deref (mvals w) p of None \<Rightarrow> Fault Segv w
      | Some (_, mv) \<Rightarrow> isolate_scope (Some (mv_iso mv)) (\<lambda>i w.
          bindR (get_handle q w) (\<lambda>v2 w. Ok (if v8_same_value A (mv_ptr mv) v2 (v8 w) then 1 else 0) w)) w)"

definition SameValue :: "('e, 'j, 'cb) env \<Rightarrow> Value \<Rightarrow> Value \<Rightarrow> (bool, 'e, 'j, 'cb) op" where
  "SameValue A v other w = bindR (C_ValueSameValue A (v_ptr v) (v_ptr other) w) (\<lambda>n w. Ok (n \<noteq> 0) w)"

text \<open>\<open>(v *Value) Format\<close>: what is written for a verb; \<open>quote\<close> is fmt's \<open>%q\<close>.\<close>

definition Value_Format ::
    "('e, 'j, 'cb) env \<Rightarrow> (bytes \<Rightarrow> bytes) \<Rightarrow> bool \<Rightarrow> char \<Rightarrow> Value \<Rightarrow> (bytes, 'e, 'j, 'cb) op" where
  "Value_Format A quote flagged verb v w =
     (if verb = CHR ''v'' \<and> flagged then DetailString A v w
      else if verb = CHR ''v'' \<or> verb = CHR ''s'' then String A v w
      else if verb = CHR ''q'' then bindR (String A v w) (\<lambda>s w. Ok (quote s) w)
      else Ok [] w)"

definition Value_Release :: "Value \<Rightarrow> (unit, 'e, 'j, 'cb) op" where
  "Value_Release v = C_ValueRelease (v_ptr v)"

section \<open>Type predicates\<close>

text \<open>
  Every \<open>ValueIs...\<close> function of v8go.cc is the same: \<open>LOCAL_VALUE\<close>, then one predicate of V8;
  and every \<open>Is...\<close> method compares its result with zero. Two of them look at the context first.
\<close>

definition C_ValueIs :: "('e, 'j, 'cb) env \<Rightarrow> v8pred \<Rightarrow> addr option \<Rightarrow> (int, 'e, 'j, 'cb) op" where
  "C_ValueIs A pr p = local_value p (\<lambda>i c h v w. Ok (if v8_is A pr v (v8 w) then 1 else 0) w)"

definition value_is :: "('e, 'j, 'cb) env \<Rightarrow> v8pred \<Rightarrow> Value \<Rightarrow> (bool, 'e, 'j, 'cb) op" where
  "value_is A pr v w = bindR (C_ValueIs A pr (v_ptr v) w) (\<lambda>n w. Ok (n \<noteq> 0) w)"

definition IsUndefined :: "('e, 'j, 'cb) env \<Rightarrow> Value \<Rightarrow> (bool, 'e, 'j, 'cb) op" where
  "IsUndefined A v = value_is A PUndefined v"

definition IsNull :: "('e, 'j, 'cb) env \<Rightarrow> Value \<Rightarrow> (bool, 'e, 'j, 'cb) op" where
  "IsNull A v = value_is A PNull v"

definition IsNullOrUndefined :: "('e, 'j, 'cb) env \<Rightarrow> Value \<Rightarrow> (bool, 'e, 'j, 'cb) op" where
  "IsNullOrUndefined A v = value_is A PNullOrUndefined v"

definition IsTrue :: "('e, 'j, 'cb) env \<Rightarrow> Value \<Rightarrow> (bool, 'e, 'j, 'cb) op" where
  "IsTrue A v = value_is A PTrue v"

definition IsFalse :: "('e, 'j, 'cb) env \<Rightarrow> Value \<Rightarrow> (bool, 'e, 'j, 'cb) op" where
  "IsFalse A v = value_is A PFalse v"

definition IsName :: "('e, 'j, 'cb) env \<Rightarrow> Value \<Rightarrow> (bool, 'e, 'j, 'cb) op" where
  "IsName A v = value_is A PName v"

definition IsString :: "('e, 'j, 'cb) env \<Rightarrow> Value \<Rightarrow> (bool, 'e, 'j, 'cb) op" where
  "IsString A v = value_is A PString v"

definition IsSymbol :: "('e, 'j, 'cb) env \<Rightarrow> Value \<Rightarrow> (bool, 'e, 'j, 'cb) op" where
  "IsSymbol A v = value_is A PSymbol v"

definition IsFunction :: "('e, 'j, 'cb) env \<Rightarrow> Value \<Rightarrow> (bool, 'e, 'j, 'cb) op" where
  "IsFunction A v = value_is A PFunction v"

definition IsObject :: "('e, 'j, 'cb) env \<Rightarrow> Value \<Rightarrow> (bool, 'e, 'j, 'cb) op" where
  "IsObject A v w = (if v_ctx v = None then Ok False w else value_is A PObject v w)"

definition IsBigInt :: "('e, 'j, 'cb) env \<Rightarrow> Value \<Rightarrow> (bool, 'e, 'j, 'cb) op" where
  "IsBigInt A v = value_is A PBigInt v"

definition IsBoolean :: "('e, 'j, 'cb) env \<Rightarrow> Value \<Rightarrow> (bool, 'e, 'j, 'cb) op" where
  "IsBoolean A v = value_is A PBoolean v"

definition IsNumber :: "('e, 'j, 'cb) env \<Rightarrow> Value \<Rightarrow> (bool, 'e, 'j, 'cb) op" where
  "IsNumber A v = value_is A PNumber v"

definition IsExternal :: "('e, 'j, 'cb) env \<Rightarrow> Value \<Rightarrow> (bool, 'e, 'j, 'cb) op" where
  "IsExternal A v w = (if v_ctx v = None then Ok False w else value_is A PExternal v w)"

definition IsInt32 :: "('e, 'j, 'cb) env \<Rightarrow> Value \<Rightarrow> (bool, 'e, 'j, 'cb) op" where
  "IsInt32 A v = value_is A PInt32 v"

definition IsUint32 :: "('e, 'j, 'cb) env \<Rightarrow> Value \<Rightarrow> (bool, 'e, 'j, 'cb) op" where
  "IsUint32 A v = value_is A PUint32 v"

definition IsDate :: "('e, 'j, 'cb) env \<Rightarrow> Value \<Rightarrow> (bool, 'e, 'j, 'cb) op" where
  "IsDate A v = value_is A PDate v"

definition IsArgumentsObject :: "('e, 'j, 'cb) env \<Rightarrow> Value \<Rightarrow> (bool, 'e, 'j, 'cb) op" where
  "IsArgumentsObject A v = value_is A PArgumentsObject v"

definition IsBigIntObject :: "('e, 'j, 'cb) env \<Rightarrow> Value \<Rightarrow> (bool, 'e, 'j, 'cb) op" where
  "IsBigIntObject A v = value_is A PBigIntObject v"

definition IsNumberObject :: "('e, 'j, 'cb) env \<Rightarrow> Value \<Rightarrow> (bool, 'e, 'j, 'cb) op" where
  "IsNumberObject A v = value_is A PNumberObject v"

definition IsStringObject :: "('e, 'j, 'cb) env \<Rightarrow> Value \<Rightarrow> (bool, 'e, 'j, 'cb) op" where
  "IsStringObject A v = value_is A PStringObject v"

definition IsSymbolObject :: "('e, 'j, 'cb) env \<Rightarrow> Value \<Rightarrow> (bool, 'e, 'j, 'cb) op" where
  "IsSymbolObject A v = value_is A PSymbolObject v"

definition IsNativeError :: "('e, 'j, 'cb) env \<Rightarrow> Value \<Rightarrow> (bool, 'e, 'j, 'cb) op" where
  "IsNativeError A v = value_is A PNativeError v"

definition IsRegExp :: "('e, 'j, 'cb) env \<Rightarrow> Value \<Rightarrow> (bool, 'e, 'j, 'cb) op" where
  "IsRegExp A v = value_is A PRegExp v"

definition IsAsyncFunction :: "('e, 'j, 'cb) env \<Rightarrow> Value \<Rightarrow> (bool, 'e, 'j, 'cb) op" where
  "IsAsyncFunction A v = value_is A PAsyncFunction v"

definition IsGeneratorFunction :: "('e, 'j, 'cb) env \<Rightarrow> Value \<Rightarrow> (bool, 'e, 'j, 'cb) op" where
  "IsGeneratorFunction A v = value_is A PGeneratorFunction v"

definition IsGeneratorObject :: "('e, 'j, 'cb) env \<Rightarrow> Value \<Rightarrow> (bool, 'e, 'j, 'cb) op" where
  "IsGeneratorObject A v = value_is A PGeneratorObject v"

definition IsPromise :: "('e, 'j, 'cb) env \<Rightarrow> Value \<Rightarrow> (bool, 'e, 'j, 'cb) op" where
  "IsPromise A v = value_is A PPromise v"

definition IsMap :: "('e, 'j, 'cb) env \<Rightarrow> Value \<Rightarrow> (bool, 'e, 'j, 'cb) op" where
  "IsMap A v = value_is A PMap v"

definition IsSet :: "('e, 'j, 'cb) env \<Rightarrow> Value \<Rightarrow> (bool, 'e, 'j, 'cb) op" where
  "IsSet A v = value_is A PSet v"

definition IsMapIterator :: "('e, 'j, 'cb) env \<Rightarrow> Value \<Rightarrow> (bool, 'e, 'j, 'cb) op" where
  "IsMapIterator A v = value_is A PMapIterator v"

definition IsSetIterator :: "('e, 'j, 'cb) env \<Rightarrow> Value \<Rightarrow> (bool, 'e, 'j, 'cb) op" where
  "IsSetIterator A v = value_is A PSetIterator v"

definition IsWeakMap :: "('e, 'j, 'cb) env \<Rightarrow> Value \<Rightarrow> (bool, 'e, 'j, 'cb) op" where
  "IsWeakMap A v = value_is A PWeakMap v"

definition IsWeakSet :: "('e, 'j, 'cb) env \<Rightarrow> Value \<Rightarrow> (bool, 'e, 'j, 'cb) op" where
  "IsWeakSet A v = value_is A PWeakSet v"

definition IsArray :: "('e, 'j, 'cb) env \<Rightarrow> Value \<Rightarrow> (bool, 'e, 'j, 'cb) op" where
  "IsArray A v = value_is A PArray v"

definition IsArrayBuffer :: "('e, 'j, 'cb) env \<Rightarrow> Value \<Rightarrow> (bool, 'e, 'j, 'cb) op" where
  "IsArrayBuffer A v = value_is A PArrayBuffer v"

definition IsArrayBufferView :: "('e, 'j, 'cb) env \<Rightarrow> Value \<Rightarrow> (bool, 'e, 'j, 'cb) op" where
  "IsArrayBufferView A v = value_is A PArrayBufferView v"

definition IsTypedArray :: "('e, 'j, 'cb) env \<Rightarrow> Value \<Rightarrow> (bool, 'e, 'j, 'cb) op" where
  "IsTypedArray A v = value_is A PTypedArray v"

definition IsUint8Array :: "('e, 'j, 'cb) env \<Rightarrow> Value \<Rightarrow> (bool, 'e, 'j, 'cb) op" where
  "IsUint8Array A v = value_is A PUint8Array v"

definition IsUint8ClampedArray :: "('e, 'j, 'cb) env \<Rightarrow> Value \<Rightarrow> (bool, 'e, 'j, 'cb) op" where
  "IsUint8ClampedArray A v = value_is A PUint8ClampedArray v"

definition IsInt8Array :: "('e, 'j, 'cb) env \<Rightarrow> Value \<Rightarrow> (bool, 'e, 'j, 'cb) op" where
  "IsInt8Array A v = value_is A PInt8Array v"

definition IsUint16Array :: "('e, 'j, 'cb) env \<Rightarrow> Value \<Rightarrow> (bool, 'e, 'j, 'cb) op" where
  "IsUint16Array A v = value_is A PUint16Array v"

definition IsInt16Array :: "('e, 'j, 'cb) env \<Rightarrow> Value \<Rightarrow> (bool, 'e, 'j, 'cb) op" where
  "IsInt16Array A v = value_is A PInt16Array v"

definition IsUint32Array :: "('e, 'j, 'cb) env \<Rightarrow> Value \<Rightarrow> (bool, 'e, 'j, 'cb) op" where
  "IsUint32Array A v = value_is A PUint32Array v"

definition IsInt32Array :: "('e, 'j, 'cb) env \<Rightarrow> Value \<Rightarrow> (bool, 'e, 'j, 'cb) op" where
  "IsInt32Array A v = value_is A PInt32Array v"

definition IsFloat32Array :: "('e, 'j, 'cb) env \<Rightarrow> Value \<Rightarrow> (bool, 'e, 'j, 'cb) op" where
  "IsFloat32Array A v = value_is A PFloat32Array v"

definition IsFloat64Array :: "('e, 'j, 'cb) env \<Rightarrow> Value \<Rightarrow> (bool, 'e, 'j, 'cb) op" where
  "IsFloat64Array A v = value_is A PFloat64Array v"

definition IsBigInt64Array :: "('e, 'j, 'cb) env \<Rightarrow> Value \<Rightarrow> (bool, 'e, 'j, 'cb) op" where
  "IsBigInt64Array A v = value_is A PBigInt64Array v"

definition IsBigUint64Array :: "('e, 'j, 'cb) env \<Rightarrow> Value \<Rightarrow> (bool, 'e, 'j, 'cb) op" where
  "IsBigUint64Array A v = value_is A PBigUint64Array v"

definition IsDataView :: "('e, 'j, 'cb) env \<Rightarrow> Value \<Rightarrow> (bool, 'e, 'j, 'cb) op" where
  "IsDataView A v = value_is A PDataView v"

definition IsSharedArrayBuffer :: "('e, 'j, 'cb) env \<Rightarrow> Value \<Rightarrow> (bool, 'e, 'j, 'cb) op" where
  "IsSharedArrayBuffer A v = value_is A PSharedArrayBuffer v"

definition IsProxy :: "('e, 'j, 'cb) env \<Rightarrow> Value \<Rightarrow> (bool, 'e, 'j, 'cb) op" where
  "IsProxy A v = value_is A PProxy v"

definition IsWasmModuleObject :: "('e, 'j, 'cb) env \<Rightarrow> Value \<Rightarrow> (bool, 'e, 'j, 'cb) op" where
  "IsWasmModuleObject A v = value_is A PWasmModuleObject v"

definition IsModuleNamespaceObject :: "('e, 'j, 'cb) env \<Rightarrow> Value \<Rightarrow> (bool, 'e, 'j, 'cb) op" where
  "IsModuleNamespaceObject A v = value_is A PModuleNamespaceObject v"

lemmas predicate_defs = IsUndefined_def IsNull_def IsNullOrUndefined_def IsTrue_def IsFalse_def IsName_def
  IsString_def IsSymbol_def IsFunction_def IsObject_def IsBigInt_def IsBoolean_def
  IsNumber_def IsExternal_def IsInt32_def IsUint32_def IsDate_def
  IsArgumentsObject_def IsBigIntObject_def IsNumberObject_def IsStringObject_def
  IsSymbolObject_def IsNativeError_def IsRegExp_def IsAsyncFunction_def
  IsGeneratorFunction_def IsGeneratorObject_def IsPromise_def IsMap_def IsSet_def
  IsMapIterator_def IsSetIterator_def IsWeakMap_def IsWeakSet_def IsArray_def
  IsArrayBuffer_def IsArrayBufferView_def IsTypedArray_def IsUint8Array_def
  IsUint8ClampedArray_def IsInt8Array_def IsUint16Array_def IsInt16Array_def
  IsUint32Array_def IsInt32Array_def IsFloat32Array_def IsFloat64Array_def
  IsBigInt64Array_def IsBigUint64Array_def IsDataView_def IsSharedArrayBuffer_def
  IsProxy_def IsWasmModuleObject_def IsModuleNamespaceObject_def

section \<open>Casts\<close>

text \<open>\<open>type Function struct\<close>, \<open>type Promise struct\<close>.\<close>

datatype Function = Function (fn_value: Value)

datatype Promise = Promise (prom_object: Object)

definition AsObject :: "('e, 'j, 'cb) env \<Rightarrow> Value \<Rightarrow> (goerror + Object, 'e, 'j, 'cb) op" where
  "AsObject A v w = bindR (IsObject A v w) (\<lambda>b w.
     if \<not> b then Ok (Inl (GoErr ''v8go: value is not an Object'')) w else Ok (Inr (Object v)) w)"

definition AsPromise :: "('e, 'j, 'cb) env \<Rightarrow> Value \<Rightarrow> (goerror + Promise, 'e, 'j, 'cb) op" where
  "AsPromise A v w = bindR (IsPromise A v w) (\<lambda>b w.
     if \<not> b then Ok (Inl (GoErr ''v8go: value is not a Promise'')) w else Ok (Inr (Promise (Object v))) w)"

definition AsFunction :: "('e, 'j, 'cb) env \<Rightarrow> Value \<Rightarrow> (goerror + Function, 'e, 'j, 'cb) op" where
  "AsFunction A v w = bindR (IsFunction A v w) (\<lambda>b w.
     if \<not> b then Ok (Inl (GoErr ''v8go: value is not a Function'')) w else Ok (Inr (Function v)) w)"

section \<open>The invariant\<close>

lemma holds_goval [holds_intros]:
  assumes "\<And>x. v = GString x \<Longrightarrow> holds Q R (f1 x)" "\<And>x. v = GInt32 x \<Longrightarrow> holds Q R (f2 x)"
    "\<And>x. v = GUint32 x \<Longrightarrow> holds Q R (f3 x)" "\<And>x. v = GInt64 x \<Longrightarrow> holds Q R (f4 x)"
    "\<And>x. v = GUint64 x \<Longrightarrow> holds Q R (f5 x)" "\<And>x. v = GBool x \<Longrightarrow> holds Q R (f6 x)"
    "\<And>x. v = GFloat64 x \<Longrightarrow> holds Q R (f7 x)" "\<And>x. v = GBigInt x \<Longrightarrow> holds Q R (f8 x)"
    "\<And>x. v = GValue x \<Longrightarrow> holds Q R (f9 x)" "\<And>t x. v = GValuer t x \<Longrightarrow> holds Q R (f10 t x)"
    "\<And>x. v = GObjectTemplate x \<Longrightarrow> holds Q R (f11 x)" "\<And>x. v = GFunctionTemplate x \<Longrightarrow> holds Q R (f12 x)"
    "\<And>x. v = GOther x \<Longrightarrow> holds Q R (f13 x)"
  shows "holds Q R (case_goval f1 f2 f3 f4 f5 f6 f7 f8 f9 f10 f11 f12 f13 v)"
  using assms by (cases v) auto

lemma holds_block [holds_intros]:
  assumes "\<And>x. b = Chars x \<Longrightarrow> holds Q R (f1 x)" "\<And>x. b = U64s x \<Longrightarrow> holds Q R (f2 x)"
    "\<And>x. b = U32 x \<Longrightarrow> holds Q R (f3 x)"
  shows "holds Q R (case_block f1 f2 f3 b)"
  using assms by (cases b) auto

lemma world_C_new_primitive [world_intros]: "world_ok w \<Longrightarrow> keeps world_ok (C_new_primitive f p w)"
  unfolding C_new_primitive_def by (intro holds_intros world_intros | assumption)+

lemma world_plain_value [world_intros]: "keeps world_ok m \<Longrightarrow> keeps world_ok (plain_value m)"
  unfolding plain_value_def by (erule keeps_bindR) simp

lemma world_or_panic [world_intros]: "keeps world_ok m \<Longrightarrow> keeps world_ok (or_panic m)"
  unfolding or_panic_def by (erule keeps_bindR) (auto split: sum.splits)

lemma world_C_NewValueString [world_intros]:
  "bodies_ok (closures A) \<Longrightarrow> world_ok w \<Longrightarrow> keeps world_ok (C_NewValueString A p v n w)"
  unfolding C_NewValueString_def by (intro holds_intros world_intros | assumption)+

lemma world_C_NewValueBigIntFromWords [world_intros]:
  "bodies_ok (closures A) \<Longrightarrow> world_ok w \<Longrightarrow> keeps world_ok (C_NewValueBigIntFromWords A p s n ws w)"
  unfolding C_NewValueBigIntFromWords_def by (intro holds_intros world_intros | assumption)+

lemmas C_primitive_defs = C_NewValueInteger_def C_NewValueIntegerFromUnsigned_def C_NewValueBoolean_def
  C_NewValueNumber_def C_NewValueBigInt_def C_NewValueBigIntFromUnsigned_def

lemma world_NewValue_BigInt [world_intros]:
  "bodies_ok (closures A) \<Longrightarrow> world_ok w \<Longrightarrow> keeps world_ok (NewValue_BigInt A p v w)"
  unfolding NewValue_BigInt_def C_primitive_defs by (intro holds_intros world_intros | assumption)+

lemma world_NewValue [world_intros]:
  assumes "bodies_ok (closures A)" "world_ok w"
  shows "keeps world_ok (NewValue A p v w)"
  unfolding NewValue_def C_primitive_defs
  by (intro holds_intros world_intros assms | assumption)+

lemma world_ArrayIndex [world_intros]:
  "bodies_ok (closures A) \<Longrightarrow> world_ok w \<Longrightarrow> keeps world_ok (ArrayIndex A v w)"
  unfolding ArrayIndex_def C_ValueToArrayIndex_def
  by (intro holds_intros world_intros | assumption)+

lemma world_BigInt [world_intros]:
  "bodies_ok (closures A) \<Longrightarrow> world_ok w \<Longrightarrow> keeps world_ok (BigInt A v w)"
  unfolding BigInt_def C_ValueToBigInt_def
  by (intro holds_intros world_intros | assumption)+

lemma world_conversions [world_intros]:
  assumes "bodies_ok (closures A)" "world_ok w"
  shows "keeps world_ok (Boolean A v w)" "keeps world_ok (Int32 A v w)" "keeps world_ok (Integer A v w)"
    "keeps world_ok (Number A v w)" "keeps world_ok (Uint32 A v w)" "keeps world_ok (String A v w)"
    "keeps world_ok (DetailString A v w)" "keeps world_ok (Value_Object A v w)" "keeps world_ok (SameValue A v u w)"
  unfolding Boolean_def C_ValueToBoolean_def Int32_def C_ValueToInt32_def Integer_def C_ValueToInteger_def
    Number_def C_ValueToNumber_def Uint32_def C_ValueToUint32_def String_def C_ValueToString_def
    DetailString_def C_ValueToDetailString_def Value_Object_def C_ValueToObject_def
    SameValue_def C_ValueSameValue_def
  by (intro holds_intros world_intros assms | assumption | simp)+

lemma world_Value_Format [world_intros]:
  "bodies_ok (closures A) \<Longrightarrow> world_ok w \<Longrightarrow> keeps world_ok (Value_Format A q f verb v w)"
  unfolding Value_Format_def by (intro holds_intros world_intros | assumption)+

lemma world_Value_Release [world_intros]: "world_ok w \<Longrightarrow> keeps world_ok (Value_Release v w)"
  unfolding Value_Release_def by (rule world_C_ValueRelease)

text \<open>A predicate does not change the state at all.\<close>

lemma value_is_pure: "value_is A pr v w = Ok b w' \<Longrightarrow> w' = w"
  by (auto simp: value_is_def C_ValueIs_def local_value_def bindR_eq_Ok split: option.splits)

lemma world_value_is [world_intros]: "world_ok w \<Longrightarrow> keeps world_ok (value_is A pr v w)"
  unfolding value_is_def C_ValueIs_def by (intro holds_intros world_intros | assumption)+

lemma world_casts [world_intros]:
  assumes "world_ok w"
  shows "keeps world_ok (IsObject A v w)" "keeps world_ok (IsExternal A v w)" "keeps world_ok (AsObject A v w)"
    "keeps world_ok (AsPromise A v w)" "keeps world_ok (AsFunction A v w)"
  unfolding AsObject_def AsPromise_def AsFunction_def IsObject_def IsExternal_def IsPromise_def IsFunction_def
  by (intro holds_intros world_intros assms | assumption)+

end
