(* ===== verification/Functions.thy ===== *)
theory Functions
  imports Values
begin

text \<open>
  function.go and object.go with the functions of v8go.cc they call: calling a JavaScript
  function, constructing with it, its source map; properties of an object by key and by index,
  its internal fields, method calls.
\<close>

section \<open>Calling\<close>

primrec get_handles :: "addr option list \<Rightarrow> ('j list, 'e, 'j, 'cb) op" where
  "get_handles [] w = Ok [] w"
| "get_handles (p # ps) w = bindR (get_handle p w) (\<lambda>j w. bindR (get_handles ps w) (\<lambda>js w. Ok (j # js) w))"

text \<open>\<open>Local<Value> argv[argc]; buildCallArguments(iso, argv, argc, args)\<close>.\<close>

definition buildCallArguments :: "int \<Rightarrow> addr option list \<Rightarrow> ('j list, 'e, 'j, 'cb) op" where
  "buildCallArguments argc args w =
     (if argc < 0 \<or> length args < nat argc then Fault Segv w else get_handles (take (nat argc) args) w)"

definition C_FunctionCall :: "('e, 'j, 'cb) env \<Rightarrow> addr option \<Rightarrow> addr option \<Rightarrow> int \<Rightarrow> addr option list \<Rightarrow>
    (RtnValue, 'e, 'j, 'cb) op" where
  "C_FunctionCall A p recv argc args = local_value p (\<lambda>i c h fn w.
     bindR (buildCallArguments argc args w) (\<lambda>argv w.
     bindR (get_handle recv w) (\<lambda>local_recv w.
     bindR (run A i (v8_call A h fn local_recv argv) w) (\<lambda>result w. rtn_of A i (Some c) result w))))"

definition Function_Call :: "('e, 'j, 'cb) env \<Rightarrow> Function \<Rightarrow> Value \<Rightarrow> Value list \<Rightarrow> (goerror + Value, 'e, 'j, 'cb) op" where
  "Function_Call A fn recv args w =
     bindR (C_FunctionCall A (v_ptr (fn_value fn)) (v_ptr recv) (c_int (int (length args))) (map v_ptr args) w)
       (\<lambda>rtn w. valueResult (v_ctx (fn_value fn)) rtn w)"

definition C_FunctionNewInstance :: "('e, 'j, 'cb) env \<Rightarrow> addr option \<Rightarrow> int \<Rightarrow> addr option list \<Rightarrow>
    (RtnValue, 'e, 'j, 'cb) op" where
  "C_FunctionNewInstance A p argc args = local_value p (\<lambda>i c h fn w.
     bindR (buildCallArguments argc args w) (\<lambda>argv w.
     bindR (run A i (v8_construct A h fn argv) w) (\<lambda>result w. rtn_of A i (Some c) result w)))"

definition Function_NewInstance :: "('e, 'j, 'cb) env \<Rightarrow> Function \<Rightarrow> Value list \<Rightarrow> (goerror + Object, 'e, 'j, 'cb) op" where
  "Function_NewInstance A fn args w =
     bindR (C_FunctionNewInstance A (v_ptr (fn_value fn)) (c_int (int (length args))) (map v_ptr args) w)
       (\<lambda>rtn w. objectResult (v_ctx (fn_value fn)) rtn w)"

definition C_FunctionSourceMapUrl :: "('e, 'j, 'cb) env \<Rightarrow> addr option \<Rightarrow> (addr, 'e, 'j, 'cb) op" where
  "C_FunctionSourceMapUrl A p = local_value p (\<lambda>i c h fn w.
     new_value i (Some c) (v8_source_map_url A fn (v8 w)) w)"

definition SourceMapURL :: "('e, 'j, 'cb) env \<Rightarrow> Function \<Rightarrow> (Value, 'e, 'j, 'cb) op" where
  "SourceMapURL A fn w = bindR (C_FunctionSourceMapUrl A (v_ptr (fn_value fn)) w)
     (\<lambda>p w. Ok \<lparr>v_ptr = Some p, v_ctx = v_ctx (fn_value fn)\<rparr> w)"

section \<open>Properties\<close>

definition C_ObjectGet :: "('e, 'j, 'cb) env \<Rightarrow> addr option \<Rightarrow> addr \<Rightarrow> (RtnValue, 'e, 'j, 'cb) op" where
  "C_ObjectGet A p key = local_value p (\<lambda>i c h obj w.
     bindR (utf8_arg A i key w) (\<lambda>key_val w.
       case key_val of None \<Rightarrow> fail_value A i w
       | Some k \<Rightarrow> bindR (run A i (v8_get A h obj k) w) (\<lambda>result w. rtn_of A i (Some c) result w)))"

definition C_ObjectGetIdx :: "('e, 'j, 'cb) env \<Rightarrow> addr option \<Rightarrow> 32 word \<Rightarrow> (RtnValue, 'e, 'j, 'cb) op" where
  "C_ObjectGetIdx A p idx = local_value p (\<lambda>i c h obj w.
     bindR (run A i (v8_get_idx A h obj idx) w) (\<lambda>result w. rtn_of A i (Some c) result w))"

definition C_ObjectSet :: "('e, 'j, 'cb) env \<Rightarrow> addr option \<Rightarrow> addr \<Rightarrow> addr option \<Rightarrow> (unit, 'e, 'j, 'cb) op" where
  "C_ObjectSet A p key prop_val = local_value p (\<lambda>i c h obj w.
     bindR (checked (utf8_arg A i key w)) (\<lambda>k w.
     bindR (get_handle prop_val w) (\<lambda>x w.
     bindR (checked (run A i (v8_set A h obj k x) w)) (\<lambda>_ w. Ok () w))))"

definition C_ObjectSetIdx :: "('e, 'j, 'cb) env \<Rightarrow> addr option \<Rightarrow> 32 word \<Rightarrow> addr option \<Rightarrow> (unit, 'e, 'j, 'cb) op" where
  "C_ObjectSetIdx A p idx prop_val = local_value p (\<lambda>i c h obj w.
     bindR (get_handle prop_val w) (\<lambda>x w.
     bindR (checked (run A i (v8_set_idx A h obj idx x) w)) (\<lambda>_ w. Ok () w)))"

definition c_bool :: "bool \<Rightarrow> int" where
  "c_bool b = (if b then 1 else 0)"

definition C_ObjectHas :: "('e, 'j, 'cb) env \<Rightarrow> addr option \<Rightarrow> addr \<Rightarrow> (int, 'e, 'j, 'cb) op" where
  "C_ObjectHas A p key = local_value p (\<lambda>i c h obj w.
     bindR (checked (utf8_arg A i key w)) (\<lambda>k w.
     bindR (checked (run A i (v8_has A h obj k) w)) (\<lambda>b w. Ok (c_bool b) w)))"

definition C_ObjectHasIdx :: "('e, 'j, 'cb) env \<Rightarrow> addr option \<Rightarrow> 32 word \<Rightarrow> (int, 'e, 'j, 'cb) op" where
  "C_ObjectHasIdx A p idx = local_value p (\<lambda>i c h obj w.
     bindR (checked (run A i (v8_has_idx A h obj idx) w)) (\<lambda>b w. Ok (c_bool b) w))"

definition C_ObjectDelete :: "('e, 'j, 'cb) env \<Rightarrow> addr option \<Rightarrow> addr \<Rightarrow> (int, 'e, 'j, 'cb) op" where
  "C_ObjectDelete A p key = local_value p (\<lambda>i c h obj w.
     bindR (checked (utf8_arg A i key w)) (\<lambda>k w.
     bindR (checked (run A i (v8_delete A h obj k) w)) (\<lambda>b w. Ok (c_bool b) w)))"

definition C_ObjectDeleteIdx :: "('e, 'j, 'cb) env \<Rightarrow> addr option \<Rightarrow> 32 word \<Rightarrow> (int, 'e, 'j, 'cb) op" where
  "C_ObjectDeleteIdx A p idx = local_value p (\<lambda>i c h obj w.
     bindR (checked (run A i (v8_delete_idx A h obj idx) w)) (\<lambda>b w. Ok (c_bool b) w))"

definition MethodCall :: "('e, 'j, 'cb) env \<Rightarrow> Object \<Rightarrow> bytes \<Rightarrow> Value list \<Rightarrow> (goerror + Value, 'e, 'j, 'cb) op" where
  "MethodCall A ob methodName args = withCString methodName (\<lambda>ckey w.
     let v = obj_value ob in
     bindR (C_ObjectGet A (v_ptr v) ckey w) (\<lambda>getRtn w.
     bindR (valueResult (v_ctx v) getRtn w) (\<lambda>prop w.
       case prop of Inl err \<Rightarrow> Ok (Inl err) w
       | Inr prop \<Rightarrow> bindR (AsFunction A prop w) (\<lambda>fn w.
           case fn of Inl err \<Rightarrow> Ok (Inl err) w | Inr fn \<Rightarrow> Function_Call A fn v args w))))"

text \<open>
  \<open>coerceValue\<close>: the value is \<open>None\<close>, a nil pointer without an error, when NewValue fails.
\<close>

definition is_primitive :: "goval \<Rightarrow> bool" where
  "is_primitive val = (case val of GValue _ \<Rightarrow> False | GValuer _ _ \<Rightarrow> False | GObjectTemplate _ \<Rightarrow> False
     | GFunctionTemplate _ \<Rightarrow> False | GOther _ \<Rightarrow> False | _ \<Rightarrow> True)"

definition type_text :: "goval \<Rightarrow> string" where
  "type_text val = (case val of GValue _ \<Rightarrow> ''*v8go.Value'' | GValuer t _ \<Rightarrow> t
     | GObjectTemplate _ \<Rightarrow> ''*v8go.ObjectTemplate'' | GFunctionTemplate _ \<Rightarrow> ''*v8go.FunctionTemplate''
     | GOther t \<Rightarrow> t | _ \<Rightarrow> [])"

definition coerceValue :: "('e, 'j, 'cb) env \<Rightarrow> addr \<Rightarrow> goval \<Rightarrow> (goerror + Value option, 'e, 'j, 'cb) op" where
  "coerceValue A isoa val w =
     (if is_primitive val then
        bindR (NewValue A (Some isoa) val w) (\<lambda>r w.
          Ok (Inr (case r of Inl _ \<Rightarrow> None | Inr v \<Rightarrow> Some v)) w)
      else (case val of GValue v \<Rightarrow> Ok (Inr (Some (Value_value v))) w
            | GValuer _ v \<Rightarrow> Ok (Inr (Some (Value_value v))) w
            | _ \<Rightarrow> Ok (Inl (GoErr (''v8go: unsupported object property type `'' @ type_text val @ ''`''))) w))"

text \<open>\<open>o.ctx.iso\<close>, and \<open>value.ptr\<close> of a possibly nil value.\<close>

definition object_iso :: "Object \<Rightarrow> (addr, 'e, 'j, 'cb) op" where
  "object_iso ob w = (case v_ctx (obj_value ob) of None \<Rightarrow> Fault NilDeref w
     | Some a \<Rightarrow> with_context a (\<lambda>c w. Ok (c_iso c) w) w)"

definition value_ptr :: "Value option \<Rightarrow> (addr option, 'e, 'j, 'cb) op" where
  "value_ptr v w = (case v of None \<Rightarrow> Fault NilDeref w | Some v \<Rightarrow> Ok (v_ptr v) w)"

definition Object_Set :: "('e, 'j, 'cb) env \<Rightarrow> Object \<Rightarrow> bytes \<Rightarrow> goval \<Rightarrow> (goerror option, 'e, 'j, 'cb) op" where
  "Object_Set A ob key val w =
     bindR (object_iso ob w) (\<lambda>i w.
     bindR (coerceValue A i val w) (\<lambda>r w.
       case r of Inl err \<Rightarrow> Ok (Some err) w
       | Inr value \<Rightarrow> withCString key (\<lambda>ckey w.
           bindR (value_ptr value w) (\<lambda>vp w.
           bindR (C_ObjectSet A (v_ptr (obj_value ob)) ckey vp w) (\<lambda>_ w. Ok None w))) w))"

definition Object_SetIdx :: "('e, 'j, 'cb) env \<Rightarrow> Object \<Rightarrow> 32 word \<Rightarrow> goval \<Rightarrow> (goerror option, 'e, 'j, 'cb) op" where
  "Object_SetIdx A ob idx val w =
     bindR (object_iso ob w) (\<lambda>i w.
     bindR (coerceValue A i val w) (\<lambda>r w.
       case r of Inl err \<Rightarrow> Ok (Some err) w
       | Inr value \<Rightarrow>
           bindR (value_ptr value w) (\<lambda>vp w.
           bindR (C_ObjectSetIdx A (v_ptr (obj_value ob)) idx vp w) (\<lambda>_ w. Ok None w))))"

definition Object_Get :: "('e, 'j, 'cb) env \<Rightarrow> Object \<Rightarrow> bytes \<Rightarrow> (goerror + Value, 'e, 'j, 'cb) op" where
  "Object_Get A ob key = withCString key (\<lambda>ckey w.
     bindR (C_ObjectGet A (v_ptr (obj_value ob)) ckey w) (\<lambda>rtn w. valueResult (v_ctx (obj_value ob)) rtn w))"

definition Object_GetIdx :: "('e, 'j, 'cb) env \<Rightarrow> Object \<Rightarrow> 32 word \<Rightarrow> (goerror + Value, 'e, 'j, 'cb) op" where
  "Object_GetIdx A ob idx w =
     bindR (C_ObjectGetIdx A (v_ptr (obj_value ob)) idx w) (\<lambda>rtn w. valueResult (v_ctx (obj_value ob)) rtn w)"

definition Object_Has :: "('e, 'j, 'cb) env \<Rightarrow> Object \<Rightarrow> bytes \<Rightarrow> (bool, 'e, 'j, 'cb) op" where
  "Object_Has A ob key = withCString key (\<lambda>ckey w.
     bindR (C_ObjectHas A (v_ptr (obj_value ob)) ckey w) (\<lambda>n w. Ok (n \<noteq> 0) w))"

definition Object_HasIdx :: "('e, 'j, 'cb) env \<Rightarrow> Object \<Rightarrow> 32 word \<Rightarrow> (bool, 'e, 'j, 'cb) op" where
  "Object_HasIdx A ob idx w = bindR (C_ObjectHasIdx A (v_ptr (obj_value ob)) idx w) (\<lambda>n w. Ok (n \<noteq> 0) w)"

definition Object_Delete :: "('e, 'j, 'cb) env \<Rightarrow> Object \<Rightarrow> bytes \<Rightarrow> (bool, 'e, 'j, 'cb) op" where
  "Object_Delete A ob key = withCString key (\<lambda>ckey w.
     bindR (C_ObjectDelete A (v_ptr (obj_value ob)) ckey w) (\<lambda>n w. Ok (n \<noteq> 0) w))"

definition Object_DeleteIdx :: "('e, 'j, 'cb) env \<Rightarrow> Object \<Rightarrow> 32 word \<Rightarrow> (bool, 'e, 'j, 'cb) op" where
  "Object_DeleteIdx A ob idx w = bindR (C_ObjectDeleteIdx A (v_ptr (obj_value ob)) idx w) (\<lambda>n w. Ok (n \<noteq> 0) w)"

section \<open>Internal fields\<close>

definition C_ObjectSetInternalField ::
    "('e, 'j, 'cb) env \<Rightarrow> addr option \<Rightarrow> int \<Rightarrow> addr option \<Rightarrow> (int, 'e, 'j, 'cb) op" where
  "C_ObjectSetInternalField A p idx val = local_value p (\<lambda>i c h obj w.
     if v8_field_count A obj (v8 w) \<le> idx then Ok 0 w
     else bindR (get_handle val w) (\<lambda>x w.
          bindR (tell (v8_set_field A obj idx x) w) (\<lambda>_ w. Ok 1 w)))"

definition C_ObjectInternalFieldCount :: "('e, 'j, 'cb) env \<Rightarrow> addr option \<Rightarrow> (int, 'e, 'j, 'cb) op" where
  "C_ObjectInternalFieldCount A p = local_value p (\<lambda>i c h obj w. Ok (v8_field_count A obj (v8 w)) w)"

definition C_ObjectGetInternalField :: "('e, 'j, 'cb) env \<Rightarrow> addr option \<Rightarrow> int \<Rightarrow> (addr option, 'e, 'j, 'cb) op" where
  "C_ObjectGetInternalField A p idx = local_value p (\<lambda>i c h obj w.
     if v8_field_count A obj (v8 w) \<le> idx then Ok None w
     else bindR (new_value i (Some c) (v8_get_field A obj idx (v8 w)) w) (\<lambda>a w. Ok (Some a) w))"

definition Object_InternalFieldCount :: "('e, 'j, 'cb) env \<Rightarrow> Object \<Rightarrow> (32 word, 'e, 'j, 'cb) op" where
  "Object_InternalFieldCount A ob w =
     bindR (C_ObjectInternalFieldCount A (v_ptr (obj_value ob)) w) (\<lambda>count w. Ok (word_of_int count) w)"

text \<open>\<open>panic(fmt.Errorf("index out of range [%v] with length %v", idx, o.InternalFieldCount()))\<close>.\<close>

definition index_panic :: "('e, 'j, 'cb) env \<Rightarrow> Object \<Rightarrow> 32 word \<Rightarrow> ('a, 'e, 'j, 'cb) op" where
  "index_panic A ob idx w = bindR (Object_InternalFieldCount A ob w) (\<lambda>n w.
     Fault (PanicErr (GoErr (''index out of range ['' @ dec_nat (unat idx) @ ''] with length '' @ dec_nat (unat n)))) w)"

definition SetInternalField :: "('e, 'j, 'cb) env \<Rightarrow> Object \<Rightarrow> 32 word \<Rightarrow> goval \<Rightarrow> (goerror option, 'e, 'j, 'cb) op" where
  "SetInternalField A ob idx val w =
     bindR (object_iso ob w) (\<lambda>i w.
     bindR (coerceValue A i val w) (\<lambda>r w.
       case r of Inl err \<Rightarrow> Ok (Some err) w
       | Inr value \<Rightarrow>
           bindR (value_ptr value w) (\<lambda>vp w.
           bindR (C_ObjectSetInternalField A (v_ptr (obj_value ob)) (c_int (uint idx)) vp w) (\<lambda>inserted w.
             if inserted = 0 then index_panic A ob idx w else Ok None w))))"

definition GetInternalField :: "('e, 'j, 'cb) env \<Rightarrow> Object \<Rightarrow> 32 word \<Rightarrow> (Value, 'e, 'j, 'cb) op" where
  "GetInternalField A ob idx w =
     bindR (C_ObjectGetInternalField A (v_ptr (obj_value ob)) (c_int (uint idx)) w) (\<lambda>rtn w.
       case rtn of None \<Rightarrow> index_panic A ob idx w
       | Some p \<Rightarrow> Ok \<lparr>v_ptr = Some p, v_ctx = v_ctx (obj_value ob)\<rparr> w)"

section \<open>The invariant\<close>

lemma world_get_handles [world_intros]: "world_ok w \<Longrightarrow> keeps world_ok (get_handles ps w)"
  by (induction ps arbitrary: w) (auto intro!: keeps_bindR world_get_handle)

lemma world_buildCallArguments [world_intros]: "world_ok w \<Longrightarrow> keeps world_ok (buildCallArguments n ps w)"
  unfolding buildCallArguments_def by (intro holds_intros world_intros | simp)+

lemma world_calls [world_intros]:
  assumes "bodies_ok (closures A)" "world_ok w"
  shows "keeps world_ok (Function_Call A fn v args w)" "keeps world_ok (Function_NewInstance A fn args w)"
    "keeps world_ok (SourceMapURL A fn w)"
  unfolding Function_Call_def C_FunctionCall_def Function_NewInstance_def C_FunctionNewInstance_def
    SourceMapURL_def C_FunctionSourceMapUrl_def
  by (intro holds_intros world_intros assms | assumption)+

lemma world_object_reads [world_intros]:
  assumes "bodies_ok (closures A)" "world_ok w"
  shows "keeps world_ok (MethodCall A ob key args w)" "keeps world_ok (Object_Get A ob key w)"
    "keeps world_ok (Object_GetIdx A ob idx w)" "keeps world_ok (Object_Has A ob key w)"
    "keeps world_ok (Object_HasIdx A ob idx w)" "keeps world_ok (Object_Delete A ob key w)"
    "keeps world_ok (Object_DeleteIdx A ob idx w)"
  unfolding MethodCall_def Object_Get_def C_ObjectGet_def Object_GetIdx_def C_ObjectGetIdx_def
    Object_Has_def C_ObjectHas_def Object_HasIdx_def C_ObjectHasIdx_def Object_Delete_def C_ObjectDelete_def
    Object_DeleteIdx_def C_ObjectDeleteIdx_def
  by (intro holds_intros world_intros assms | assumption)+

lemma world_object_iso [world_intros]: "world_ok w \<Longrightarrow> keeps world_ok (object_iso ob w)"
  unfolding object_iso_def by (intro holds_intros world_intros | assumption)+

lemma world_value_ptr [world_intros]: "world_ok w \<Longrightarrow> keeps world_ok (value_ptr v w)"
  unfolding value_ptr_def by (intro holds_intros | assumption)+

lemma world_coerceValue [world_intros]:
  "bodies_ok (closures A) \<Longrightarrow> world_ok w \<Longrightarrow> keeps world_ok (coerceValue A i val w)"
  unfolding coerceValue_def by (intro holds_intros world_intros | assumption)+

lemma world_index_panic [world_intros]: "world_ok w \<Longrightarrow> keeps world_ok (index_panic A ob idx w)"
  unfolding index_panic_def Object_InternalFieldCount_def C_ObjectInternalFieldCount_def
  by (intro holds_intros world_intros | assumption)+

lemma world_object_writes [world_intros]:
  assumes "bodies_ok (closures A)" "world_ok w"
  shows "keeps world_ok (Object_Set A ob key val w)" "keeps world_ok (Object_SetIdx A ob idx val w)"
    "keeps world_ok (SetInternalField A ob idx val w)" "keeps world_ok (GetInternalField A ob idx w)"
  unfolding Object_Set_def C_ObjectSet_def Object_SetIdx_def C_ObjectSetIdx_def SetInternalField_def
    C_ObjectSetInternalField_def GetInternalField_def C_ObjectGetInternalField_def
  by (intro holds_intros world_intros assms | assumption)+

end
