(* ===== verification/Templates.thy ===== *)
theory Templates
  imports Functions
begin

text \<open>
  template.go, object_template.go and function_template.go with the functions of v8go.cc they
  call: property attributes, creating templates, setting properties on them, instances and
  functions made from them, and the finalizer. An \<open>*ObjectTemplate\<close> or \<open>*FunctionTemplate\<close> is
  the address of the \<open>template\<close> it embeds.
\<close>

unbundle bit_operations_syntax

section \<open>Property attributes\<close>

text \<open>
  \<open>type PropertyAttribute uint8\<close>. The constant block starts with \<open>None\<close> at iota 0, so
  \<open>1 << iota\<close> is first evaluated at iota 1.
\<close>

type_synonym PropertyAttribute = "8 word"

definition Attr_None :: PropertyAttribute where
  "Attr_None = 0"

definition ReadOnly :: PropertyAttribute where
  "ReadOnly = push_bit 1 1"

definition DontEnum :: PropertyAttribute where
  "DontEnum = push_bit 2 1"

definition DontDelete :: PropertyAttribute where
  "DontDelete = push_bit 3 1"

text \<open>\<open>attrs |= a\<close> over the variadic argument.\<close>

definition join_attributes :: "PropertyAttribute list \<Rightarrow> PropertyAttribute" where
  "join_attributes attributes = fold (\<lambda>a attrs. attrs OR a) attributes 0"

section \<open>Creating templates\<close>

definition new_m_template :: "addr \<Rightarrow> 'j \<Rightarrow> (addr, 'e, 'j, 'cb) op" where
  "new_m_template i j w = bindR (c_new w) (\<lambda>t w.
     Ok t (w\<lparr>mtmpls := (mtmpls w)(t \<mapsto> \<lparr>mt_iso = i, mt_ptr = j\<rparr>)\<rparr>))"

definition C_NewObjectTemplate :: "('e, 'j, 'cb) env \<Rightarrow> addr option \<Rightarrow> (addr, 'e, 'j, 'cb) op" where
  "C_NewObjectTemplate A p = isolate_scope p (\<lambda>i w.
     bindR (ask (v8_object_template A i) w) (\<lambda>j w. new_m_template i j w))"

definition C_NewFunctionTemplate :: "('e, 'j, 'cb) env \<Rightarrow> addr option \<Rightarrow> int \<Rightarrow> (addr, 'e, 'j, 'cb) op" where
  "C_NewFunctionTemplate A p callback_ref = isolate_scope p (\<lambda>i w.
     bindR (ask (v8_function_template A i callback_ref) w) (\<lambda>j w. new_m_template i j w))"

definition NewObjectTemplate :: "('e, 'j, 'cb) env \<Rightarrow> addr option \<Rightarrow> (addr, 'e, 'j, 'cb) op" where
  "NewObjectTemplate A isoa w =
     (case isoa of None \<Rightarrow> Fault (PanicText ''nil Isolate argument not supported'') w
      | Some a \<Rightarrow> with_isolate a (\<lambda>i w.
          bindR (C_NewObjectTemplate A (i_ptr i) w) (\<lambda>t w.
            new_template \<lparr>t_ptr = Some t, t_iso = Some a\<rparr> w)) w)"

definition NewFunctionTemplate :: "('e, 'j, 'cb) env \<Rightarrow> addr option \<Rightarrow> 'cb option \<Rightarrow> (addr, 'e, 'j, 'cb) op" where
  "NewFunctionTemplate A isoa callback w =
     (case isoa of None \<Rightarrow> Fault (PanicText ''nil Isolate argument not supported'') w
      | Some a \<Rightarrow>
         (case callback of None \<Rightarrow> Fault (PanicText ''nil FunctionCallback argument not supported'') w
          | Some cb \<Rightarrow>
              bindR (Isolate_registerCallback a cb w) (\<lambda>cbref w.
              with_isolate a (\<lambda>i w.
                bindR (C_NewFunctionTemplate A (i_ptr i) (c_int cbref) w) (\<lambda>t w.
                  new_template \<lparr>t_ptr = Some t, t_iso = Some a\<rparr> w)) w)))"

section \<open>Setting properties\<close>

definition C_TemplateSetValue ::
    "('e, 'j, 'cb) env \<Rightarrow> addr option \<Rightarrow> addr \<Rightarrow> addr option \<Rightarrow> int \<Rightarrow> (unit, 'e, 'j, 'cb) op" where
  "C_TemplateSetValue A p name val attributes = local_template p (\<lambda>i tmpl w.
     bindR (checked (utf8_arg A i name w)) (\<lambda>prop_name w.
     bindR (get_handle val w) (\<lambda>v w. tell (v8_template_set A tmpl prop_name v attributes) w)))"

definition C_TemplateSetTemplate ::
    "('e, 'j, 'cb) env \<Rightarrow> addr option \<Rightarrow> addr \<Rightarrow> addr option \<Rightarrow> int \<Rightarrow> (unit, 'e, 'j, 'cb) op" where
  "C_TemplateSetTemplate A p name obj attributes = local_template p (\<lambda>i tmpl w.
     bindR (checked (utf8_arg A i name w)) (\<lambda>prop_name w.
       case c_deref (mtmpls w) obj of None \<Rightarrow> Fault Segv w
       | Some (_, t) \<Rightarrow> tell (v8_template_set A tmpl prop_name (mt_ptr t) attributes) w))"

text \<open>What \<open>%v\<close> prints for an error: \<open>Format\<close> of a \<open>JSError\<close> prints its message.\<close>

definition error_text :: "goerror \<Rightarrow> bytes" where
  "error_text err = (case err of JSErr e \<Rightarrow> JSError_Format (\<lambda>s. s) False (CHR ''v'') e | GoErr s \<Rightarrow> s)"

definition unsupported_property :: goerror where
  "unsupported_property = GoErr ''v8go: unsupported property: value type must be a primitive or use a template''"

definition unsupported_property_type :: "goval \<Rightarrow> goerror" where
  "unsupported_property_type val = GoErr (''v8go: unsupported property type `'' @ type_text val @
     ''`, must be one of string, int32, uint32, int64, uint64, float64, *big.Int, *v8go.Value, *v8go.ObjectTemplate or *v8go.FunctionTemplate'')"

definition template_Set ::
    "('e, 'j, 'cb) env \<Rightarrow> addr \<Rightarrow> bytes \<Rightarrow> goval \<Rightarrow> PropertyAttribute list \<Rightarrow> (goerror option, 'e, 'j, 'cb) op" where
  "template_Set A t name val attributes = withCString name (\<lambda>cname.
     let attrs = uint (join_attributes attributes);
         set_template = (\<lambda>v. with_template v (\<lambda>obj. with_template t (\<lambda>tm w.
           bindR (C_TemplateSetTemplate A (t_ptr tm) cname (t_ptr obj) attrs w) (\<lambda>_ w. Ok None w))));
         set_value = (\<lambda>vp. with_template t (\<lambda>tm w.
           bindR (C_TemplateSetValue A (t_ptr tm) cname vp attrs w) (\<lambda>_ w. Ok None w)))
     in if is_primitive val then
          with_template t (\<lambda>tm w.
            bindR (NewValue A (t_iso tm) val w) (\<lambda>r w.
              case r of
                Inl err \<Rightarrow> Ok (Some (GoErr (''v8go: unable to create new value: '' @ error_text err))) w
              | Inr newVal \<Rightarrow> set_value (v_ptr newVal) w))
        else (case val of
            GObjectTemplate v \<Rightarrow> set_template v
          | GFunctionTemplate v \<Rightarrow> set_template v
          | GValue v \<Rightarrow> (\<lambda>w.
              bindR (IsObject A v w) (\<lambda>ob w.
              bindR (if ob then Ok True w else IsExternal A v w) (\<lambda>bad w.
                if bad then Ok (Some unsupported_property) w else set_value (v_ptr v) w)))
          | _ \<Rightarrow> Ok (Some (unsupported_property_type val))))"

section \<open>Instances and functions\<close>

definition C_ObjectTemplateNewInstance ::
    "('e, 'j, 'cb) env \<Rightarrow> addr option \<Rightarrow> addr option \<Rightarrow> (RtnValue, 'e, 'j, 'cb) op" where
  "C_ObjectTemplateNewInstance A p ctx = local_template p (\<lambda>i tmpl w.
     case c_deref (mctxs w) ctx of None \<Rightarrow> Fault Segv w
     | Some (c, mc) \<Rightarrow> bindR (run A i (v8_instance A tmpl (mc_ptr mc)) w) (\<lambda>obj w. rtn_of A i (Some c) obj w))"

definition ObjectTemplate_NewInstance ::
    "('e, 'j, 'cb) env \<Rightarrow> addr \<Rightarrow> addr option \<Rightarrow> (goerror + Object, 'e, 'j, 'cb) op" where
  "ObjectTemplate_NewInstance A t ctx w =
     (case ctx of None \<Rightarrow> Ok (Inl (GoErr ''v8go: Context cannot be <nil>'')) w
      | Some a \<Rightarrow> with_template t (\<lambda>tm. with_context a (\<lambda>c w.
          bindR (C_ObjectTemplateNewInstance A (t_ptr tm) (c_ptr c) w) (\<lambda>rtn w. objectResult (Some a) rtn w))) w)"

definition C_ObjectTemplateSetInternalFieldCount ::
    "('e, 'j, 'cb) env \<Rightarrow> addr option \<Rightarrow> int \<Rightarrow> (unit, 'e, 'j, 'cb) op" where
  "C_ObjectTemplateSetInternalFieldCount A p field_count = local_template p (\<lambda>i tmpl.
     tell (v8_set_field_count A tmpl field_count))"

definition SetInternalFieldCount :: "('e, 'j, 'cb) env \<Rightarrow> addr \<Rightarrow> 32 word \<Rightarrow> (unit, 'e, 'j, 'cb) op" where
  "SetInternalFieldCount A t fieldCount = with_template t (\<lambda>tm.
     C_ObjectTemplateSetInternalFieldCount A (t_ptr tm) (c_int (uint fieldCount)))"

definition C_ObjectTemplateInternalFieldCount :: "('e, 'j, 'cb) env \<Rightarrow> addr option \<Rightarrow> (int, 'e, 'j, 'cb) op" where
  "C_ObjectTemplateInternalFieldCount A p = local_template p (\<lambda>i tmpl w.
     Ok (v8_template_field_count A tmpl (v8 w)) w)"

definition ObjectTemplate_InternalFieldCount :: "('e, 'j, 'cb) env \<Rightarrow> addr \<Rightarrow> (32 word, 'e, 'j, 'cb) op" where
  "ObjectTemplate_InternalFieldCount A t = with_template t (\<lambda>tm w.
     bindR (C_ObjectTemplateInternalFieldCount A (t_ptr tm) w) (\<lambda>n w. Ok (word_of_int n) w))"

definition C_FunctionTemplateGetFunction ::
    "('e, 'j, 'cb) env \<Rightarrow> addr option \<Rightarrow> addr option \<Rightarrow> (RtnValue, 'e, 'j, 'cb) op" where
  "C_FunctionTemplateGetFunction A p ctx = local_template p (\<lambda>i tmpl w.
     case c_deref (mctxs w) ctx of None \<Rightarrow> Fault Segv w
     | Some (c, mc) \<Rightarrow>
        bindR (ask (v8_template_function A tmpl (mc_ptr mc)) w) (\<lambda>fn w. rtn_of A i (Some c) fn w))"

definition GetFunction :: "('e, 'j, 'cb) env \<Rightarrow> addr \<Rightarrow> addr \<Rightarrow> (Function, 'e, 'j, 'cb) op" where
  "GetFunction A t ctx = with_template t (\<lambda>tm. with_context ctx (\<lambda>c w.
     bindR (C_FunctionTemplateGetFunction A (t_ptr tm) (c_ptr c) w) (\<lambda>rtn w.
     bindR (or_panic (valueResult (Some ctx) rtn w)) (\<lambda>val w. Ok (Function val) w))))"

section \<open>The finalizer\<close>

definition C_TemplateFreeWrapper :: "addr option \<Rightarrow> (unit, 'e, 'j, 'cb) op" where
  "C_TemplateFreeWrapper p w =
     (case c_deref (mtmpls w) p of None \<Rightarrow> Fault Segv w
      | Some (t, _) \<Rightarrow> Ok () (w\<lparr>mtmpls := (mtmpls w)(t := None)\<rparr>))"

definition template_finalizer :: "addr \<Rightarrow> (unit, 'e, 'j, 'cb) op" where
  "template_finalizer t = with_template t (\<lambda>tm w.
     bindR (C_TemplateFreeWrapper (t_ptr tm) w) (\<lambda>_ w.
       Ok () (w\<lparr>gtmpls := (gtmpls w)(t \<mapsto> tm\<lparr>t_ptr := None\<rparr>)\<rparr>)))"

section \<open>FunctionCallbackInfo\<close>

definition info_Context :: "FunctionCallbackInfo \<Rightarrow> addr option" where
  "info_Context i = fi_ctx i"

definition info_This :: "FunctionCallbackInfo \<Rightarrow> Object" where
  "info_This i = fi_this i"

definition info_Args :: "FunctionCallbackInfo \<Rightarrow> Value list" where
  "info_Args i = fi_args i"

primrec release_all :: "Value list \<Rightarrow> (unit, 'e, 'j, 'cb) op" where
  "release_all [] w = Ok () w"
| "release_all (v # vs) w = bindR (Value_Release v w) (\<lambda>_ w. release_all vs w)"

definition info_Release :: "FunctionCallbackInfo \<Rightarrow> (unit, 'e, 'j, 'cb) op" where
  "info_Release i w = bindR (release_all (fi_args i) w) (\<lambda>_ w. Value_Release (obj_value (fi_this i)) w)"

section \<open>The invariant\<close>

lemma heap_mtmpls_upd: "heap_ok w \<Longrightarrow> t < brk w \<Longrightarrow> heap_ok (w\<lparr>mtmpls := (mtmpls w)(t := x)\<rparr>)"
  by (auto simp: heap_ok_defs)

lemma world_mtmpls_upd: "world_ok w \<Longrightarrow> t < brk w \<Longrightarrow> world_ok (w\<lparr>mtmpls := (mtmpls w)(t := x)\<rparr>)"
  using heap_mtmpls_upd go_ok_same by (fastforce simp: world_ok_def)

lemma mtmpls_live: "world_ok w \<Longrightarrow> mtmpls w t = Some m \<Longrightarrow> t < brk w"
  by (rule ccontr) (auto simp: world_ok_def heap_ok_def fresh_ok_def)

lemma world_new_m_template [world_intros]: "world_ok w \<Longrightarrow> keeps world_ok (new_m_template i j w)"
  using world_mtmpls_upd [of "w\<lparr>brk := Suc (brk w)\<rparr>" "brk w"]
  by (simp add: new_m_template_def c_new_def world_brk)

lemma world_NewObjectTemplate [world_intros]: "world_ok w \<Longrightarrow> keeps world_ok (NewObjectTemplate A i w)"
  unfolding NewObjectTemplate_def C_NewObjectTemplate_def by (intro holds_intros world_intros | assumption)+

lemma world_NewFunctionTemplate [world_intros]: "world_ok w \<Longrightarrow> keeps world_ok (NewFunctionTemplate A i cb w)"
  unfolding NewFunctionTemplate_def C_NewFunctionTemplate_def by (intro holds_intros world_intros | assumption)+

lemma world_C_TemplateSet [world_intros]:
  assumes "world_ok w"
  shows "keeps world_ok (C_TemplateSetValue A p name val at w)" "keeps world_ok (C_TemplateSetTemplate A p name val at w)"
  unfolding C_TemplateSetValue_def C_TemplateSetTemplate_def
  by (intro holds_intros world_intros assms | assumption)+

lemma world_template_Set [world_intros]:
  assumes "bodies_ok (closures A)" "world_ok w"
  shows "keeps world_ok (template_Set A t name val attributes w)"
  unfolding template_Set_def Let_def
  by (rule world_withCString [OF assms(2)])
     (cases val; simp add: is_primitive_def; (intro holds_intros world_intros assms | assumption)+)

lemma world_instances [world_intros]:
  assumes "bodies_ok (closures A)" "world_ok w"
  shows "keeps world_ok (ObjectTemplate_NewInstance A t c w)" "keeps world_ok (SetInternalFieldCount A t n w)"
    "keeps world_ok (ObjectTemplate_InternalFieldCount A t w)" "keeps world_ok (GetFunction A t ctx w)"
  unfolding ObjectTemplate_NewInstance_def C_ObjectTemplateNewInstance_def SetInternalFieldCount_def
    C_ObjectTemplateSetInternalFieldCount_def ObjectTemplate_InternalFieldCount_def
    C_ObjectTemplateInternalFieldCount_def GetFunction_def C_FunctionTemplateGetFunction_def
  by (intro holds_intros world_intros assms | assumption)+

lemma gtmpls_live: "world_ok w \<Longrightarrow> gtmpls w t = Some m \<Longrightarrow> t < gbrk w"
  by (rule ccontr) (auto simp: world_ok_def go_ok_def gheap_ok_def)

lemma world_template_finalizer [world_intros]:
  assumes "world_ok w"
  shows "keeps world_ok (template_finalizer t w)"
proof -
  have "world_ok (w\<lparr>mtmpls := (mtmpls w)(p := None), gtmpls := (gtmpls w)(t \<mapsto> tm')\<rparr>)"
    if "gtmpls w t = Some tm" "mtmpls w p = Some m" for tm tm' p m
  proof -
    have "world_ok (w\<lparr>mtmpls := (mtmpls w)(p := None)\<rparr>)"
      using assms mtmpls_live [OF assms that(2)] by (rule world_mtmpls_upd)
    then show ?thesis using world_gtmpls_upd [of "w\<lparr>mtmpls := (mtmpls w)(p := None)\<rparr>" t "Some tm'"]
        gtmpls_live [OF assms that(1)] by simp
  qed
  then show ?thesis
    using assms unfolding template_finalizer_def with_template_def C_TemplateFreeWrapper_def c_deref_def
    by (auto split: option.splits)
qed

lemma world_release_all [world_intros]: "world_ok w \<Longrightarrow> keeps world_ok (release_all vs w)"
  by (induction vs arbitrary: w) (auto intro!: keeps_bindR world_Value_Release)

lemma world_info_Release [world_intros]: "world_ok w \<Longrightarrow> keeps world_ok (info_Release i w)"
  unfolding info_Release_def by (intro holds_intros world_intros | assumption)+

end
