(* ===== verification/Promises.thy ===== *)
theory Promises
  imports Templates
begin

text \<open>
  promise.go and json.go with the functions of v8go.cc they call. A \<open>*PromiseResolver\<close> is its
  struct, which the methods return with the cached promise filled in.
\<close>

section \<open>Promises\<close>

definition Pending :: int where "Pending = 0"
definition Fulfilled :: int where "Fulfilled = 1"
definition Rejected :: int where "Rejected = 2"

record PromiseResolver =
  pres_object :: Object
  prom :: "Promise option"

abbreviation prom_value :: "Promise \<Rightarrow> Value" where
  "prom_value p \<equiv> obj_value (prom_object p)"

abbreviation pres_value :: "PromiseResolver \<Rightarrow> Value" where
  "pres_value r \<equiv> obj_value (pres_object r)"

definition C_NewPromiseResolver :: "('e, 'j, 'cb) env \<Rightarrow> addr option \<Rightarrow> (RtnValue, 'e, 'j, 'cb) op" where
  "C_NewPromiseResolver A ctx = local_context ctx (\<lambda>i c h w.
     bindR (ask (v8_resolver A h) w) (\<lambda>r w. rtn_of A i (Some c) r w))"

definition NewPromiseResolver :: "('e, 'j, 'cb) env \<Rightarrow> addr option \<Rightarrow> (goerror + PromiseResolver, 'e, 'j, 'cb) op" where
  "NewPromiseResolver A ctx w =
     (case ctx of None \<Rightarrow> Ok (Inl (GoErr ''v8go: Context is required'')) w
      | Some a \<Rightarrow> with_context a (\<lambda>c w.
          bindR (C_NewPromiseResolver A (c_ptr c) w) (\<lambda>rtn w.
          bindR (objectResult (Some a) rtn w) (\<lambda>obj w.
            case obj of Inl err \<Rightarrow> Ok (Inl err) w
            | Inr ob \<Rightarrow> Ok (Inr \<lparr>pres_object = ob, prom = None\<rparr>) w))) w)"

definition C_PromiseResolverGetPromise :: "('e, 'j, 'cb) env \<Rightarrow> addr option \<Rightarrow> (addr, 'e, 'j, 'cb) op" where
  "C_PromiseResolverGetPromise A p = local_value p (\<lambda>i c h resolver w.
     new_value i (Some c) (v8_promise A resolver (v8 w)) w)"

definition GetPromise :: "('e, 'j, 'cb) env \<Rightarrow> PromiseResolver \<Rightarrow> (PromiseResolver \<times> Promise, 'e, 'j, 'cb) op" where
  "GetPromise A r w =
     (case prom r of Some p \<Rightarrow> Ok (r, p) w
      | None \<Rightarrow> bindR (C_PromiseResolverGetPromise A (v_ptr (pres_value r)) w) (\<lambda>ptr w.
          let p = Promise (Object \<lparr>v_ptr = Some ptr, v_ctx = v_ctx (pres_value r)\<rparr>)
          in Ok (r\<lparr>prom := Some p\<rparr>, p) w))"

definition C_PromiseResolverResolve :: "('e, 'j, 'cb) env \<Rightarrow> addr option \<Rightarrow> addr option \<Rightarrow> (int, 'e, 'j, 'cb) op" where
  "C_PromiseResolverResolve A p val = local_value p (\<lambda>i c h resolver w.
     bindR (get_handle val w) (\<lambda>v w.
     bindR (checked (run A i (v8_resolve A h resolver v) w)) (\<lambda>b w. Ok (c_bool b) w)))"

definition Resolve :: "('e, 'j, 'cb) env \<Rightarrow> PromiseResolver \<Rightarrow> Value \<Rightarrow> (bool, 'e, 'j, 'cb) op" where
  "Resolve A r val w = bindR (C_PromiseResolverResolve A (v_ptr (pres_value r)) (v_ptr val) w) (\<lambda>n w. Ok (n \<noteq> 0) w)"

definition C_PromiseResolverReject :: "('e, 'j, 'cb) env \<Rightarrow> addr option \<Rightarrow> addr option \<Rightarrow> (int, 'e, 'j, 'cb) op" where
  "C_PromiseResolverReject A p val = local_value p (\<lambda>i c h resolver w.
     bindR (get_handle val w) (\<lambda>v w.
     bindR (checked (run A i (v8_reject A h resolver v) w)) (\<lambda>b w. Ok (c_bool b) w)))"

definition Reject :: "('e, 'j, 'cb) env \<Rightarrow> PromiseResolver \<Rightarrow> Value \<Rightarrow> (bool, 'e, 'j, 'cb) op" where
  "Reject A r err w = bindR (C_PromiseResolverReject A (v_ptr (pres_value r)) (v_ptr err) w) (\<lambda>n w. Ok (n \<noteq> 0) w)"

definition C_PromiseState :: "('e, 'j, 'cb) env \<Rightarrow> addr option \<Rightarrow> (int, 'e, 'j, 'cb) op" where
  "C_PromiseState A p = local_value p (\<lambda>i c h promise w. Ok (v8_promise_state A promise (v8 w)) w)"

definition Promise_State :: "('e, 'j, 'cb) env \<Rightarrow> Promise \<Rightarrow> (int, 'e, 'j, 'cb) op" where
  "Promise_State A p = C_PromiseState A (v_ptr (prom_value p))"

definition C_PromiseResult :: "('e, 'j, 'cb) env \<Rightarrow> addr option \<Rightarrow> (addr, 'e, 'j, 'cb) op" where
  "C_PromiseResult A p = local_value p (\<lambda>i c h promise w.
     new_value i (Some c) (v8_promise_result A promise (v8 w)) w)"

definition Promise_Result :: "('e, 'j, 'cb) env \<Rightarrow> Promise \<Rightarrow> (Value, 'e, 'j, 'cb) op" where
  "Promise_Result A p w = bindR (C_PromiseResult A (v_ptr (prom_value p)) w)
     (\<lambda>ptr w. Ok \<lparr>v_ptr = Some ptr, v_ctx = v_ctx (prom_value p)\<rparr> w)"

definition C_PromiseThen :: "('e, 'j, 'cb) env \<Rightarrow> addr option \<Rightarrow> int \<Rightarrow> (RtnValue, 'e, 'j, 'cb) op" where
  "C_PromiseThen A p callback_ref = local_value p (\<lambda>i c h promise w.
     bindR (ask (v8_function A h callback_ref) w) (\<lambda>func w.
       case func of None \<Rightarrow> fail_value A i w
       | Some f \<Rightarrow> bindR (run A i (v8_then A h promise f) w) (\<lambda>r w. rtn_of A i (Some c) r w)))"

definition C_PromiseThen2 :: "('e, 'j, 'cb) env \<Rightarrow> addr option \<Rightarrow> int \<Rightarrow> int \<Rightarrow> (RtnValue, 'e, 'j, 'cb) op" where
  "C_PromiseThen2 A p on_fulfilled_ref on_rejected_ref = local_value p (\<lambda>i c h promise w.
     bindR (ask (v8_function A h on_fulfilled_ref) w) (\<lambda>onFulfilledFunc w.
       case onFulfilledFunc of None \<Rightarrow> fail_value A i w
       | Some f \<Rightarrow> bindR (ask (v8_function A h on_rejected_ref) w) (\<lambda>onRejectedFunc w.
           case onRejectedFunc of None \<Rightarrow> fail_value A i w
           | Some g \<Rightarrow> bindR (run A i (v8_then2 A h promise f g) w) (\<lambda>r w. rtn_of A i (Some c) r w))))"

definition C_PromiseCatch :: "('e, 'j, 'cb) env \<Rightarrow> addr option \<Rightarrow> int \<Rightarrow> (RtnValue, 'e, 'j, 'cb) op" where
  "C_PromiseCatch A p callback_ref = local_value p (\<lambda>i c h promise w.
     bindR (ask (v8_function A h callback_ref) w) (\<lambda>func w.
       case func of None \<Rightarrow> fail_value A i w
       | Some f \<Rightarrow> bindR (run A i (v8_catch A h promise f) w) (\<lambda>r w. rtn_of A i (Some c) r w)))"

definition promise_of :: "Promise \<Rightarrow> RtnValue \<Rightarrow> (Promise, 'e, 'j, 'cb) op" where
  "promise_of p rtn w = bindR (or_panic (objectResult (v_ctx (prom_value p)) rtn w)) (\<lambda>obj w. Ok (Promise obj) w)"

definition Then :: "('e, 'j, 'cb) env \<Rightarrow> Promise \<Rightarrow> 'cb list \<Rightarrow> (Promise, 'e, 'j, 'cb) op" where
  "Then A p cs w =
     (case cs of
        [cb] \<Rightarrow>
          bindR (object_iso (prom_object p) w) (\<lambda>i w.
          bindR (Isolate_registerCallback i cb w) (\<lambda>cbID w.
          bindR (C_PromiseThen A (v_ptr (prom_value p)) (c_int cbID) w) (\<lambda>rtn w. promise_of p rtn w)))
      | [cb1, cb2] \<Rightarrow>
          bindR (object_iso (prom_object p) w) (\<lambda>i w.
          bindR (Isolate_registerCallback i cb1 w) (\<lambda>cbID1 w.
          bindR (Isolate_registerCallback i cb2 w) (\<lambda>cbID2 w.
          bindR (C_PromiseThen2 A (v_ptr (prom_value p)) (c_int cbID1) (c_int cbID2) w) (\<lambda>rtn w.
            promise_of p rtn w))))
      | _ \<Rightarrow> Fault (PanicText ''1 or 2 callbacks required'') w)"

definition Promise_Catch :: "('e, 'j, 'cb) env \<Rightarrow> Promise \<Rightarrow> 'cb \<Rightarrow> (Promise, 'e, 'j, 'cb) op" where
  "Promise_Catch A p cb w =
     bindR (object_iso (prom_object p) w) (\<lambda>i w.
     bindR (Isolate_registerCallback i cb w) (\<lambda>cbID w.
     bindR (C_PromiseCatch A (v_ptr (prom_value p)) (c_int cbID) w) (\<lambda>rtn w. promise_of p rtn w)))"

section \<open>JSON\<close>

text \<open>
  \<open>JSONParse\<close> of v8go.cc has no return after the first error: the error strings are made and
  then \<open>JSON::Parse\<close> is called with an empty handle, which V8 dereferences.
\<close>

definition C_JSONParse :: "('e, 'j, 'cb) env \<Rightarrow> addr option \<Rightarrow> addr \<Rightarrow> (RtnValue, 'e, 'j, 'cb) op" where
  "C_JSONParse A ctx str = local_context ctx (\<lambda>i c h w.
     bindR (utf8_arg A i str w) (\<lambda>v8Str w.
       case v8Str of None \<Rightarrow> bindR (raised A i w) (\<lambda>_ w. Fault Segv w)
       | Some s \<Rightarrow> bindR (ask (v8_json_parse A h s) w) (\<lambda>result w. rtn_of A i (Some c) result w)))"

definition JSONParse :: "('e, 'j, 'cb) env \<Rightarrow> addr option \<Rightarrow> bytes \<Rightarrow> (goerror + Value, 'e, 'j, 'cb) op" where
  "JSONParse A ctx str w =
     (case ctx of None \<Rightarrow> Ok (Inl (GoErr ''v8go: Context is required'')) w
      | Some a \<Rightarrow> withCString str (\<lambda>cstr. with_context a (\<lambda>c w.
          bindR (C_JSONParse A (c_ptr c) cstr w) (\<lambda>rtn w. valueResult (Some a) rtn w))) w)"

definition C_JSONStringify :: "('e, 'j, 'cb) env \<Rightarrow> addr option \<Rightarrow> addr option \<Rightarrow> (addr option, 'e, 'j, 'cb) op" where
  "C_JSONStringify A ctx val w =
     (case c_deref (mvals w) val of None \<Rightarrow> Fault Segv w
      | Some (_, mv) \<Rightarrow>
         if ctx \<noteq> None \<and> c_deref (mctxs w) ctx = None then Fault Segv w
         else
           internal_scope (case c_deref (mctxs w) ctx of None \<Rightarrow> Some (mv_iso mv) | Some (_, mc) \<Rightarrow> Some (mc_iso mc))
             (\<lambda>i int w.
               case c_deref (mctxs w) (if ctx \<noteq> None then ctx else if mv_ctx mv \<noteq> None then mv_ctx mv else int) of
                 None \<Rightarrow> Fault Segv w
               | Some (_, mc) \<Rightarrow>
                  bindR (run A i (v8_json_stringify A (mc_ptr mc) (mv_ptr mv)) w) (\<lambda>str w.
                    case str of None \<Rightarrow> Ok None w | Some s \<Rightarrow> CopyUtf8 s w)) w)"

definition JSONStringify :: "('e, 'j, 'cb) env \<Rightarrow> addr option \<Rightarrow> Value option \<Rightarrow> (goerror + bytes, 'e, 'j, 'cb) op" where
  "JSONStringify A ctx val w =
     (case val of None \<Rightarrow> Ok (Inl (GoErr ''v8go: Value is required'')) w
      | Some v \<Rightarrow>
         bindR (case ctx of None \<Rightarrow> Ok None w | Some a \<Rightarrow> with_context a (\<lambda>c w. Ok (c_ptr c) w) w) (\<lambda>ctxPtr w.
         bindR (C_JSONStringify A ctxPtr (v_ptr v) w) (\<lambda>str w.
           defer_free str (bindR (GoString str w) (\<lambda>s w. Ok (Inr s) w)))))"

definition MarshalJSON :: "('e, 'j, 'cb) env \<Rightarrow> Value option \<Rightarrow> (goerror + bytes, 'e, 'j, 'cb) op" where
  "MarshalJSON A v w = bindR (JSONStringify A None v w) (\<lambda>r w.
     case r of Inl err \<Rightarrow> Ok (Inl err) w | Inr jsonStr \<Rightarrow> Ok (Inr jsonStr) w)"

section \<open>The invariant\<close>

lemma world_promises [world_intros]:
  assumes "bodies_ok (closures A)" "world_ok w"
  shows "keeps world_ok (NewPromiseResolver A ctx w)" "keeps world_ok (GetPromise A r w)"
    "keeps world_ok (Resolve A r val w)" "keeps world_ok (Reject A r val w)"
    "keeps world_ok (Promise_State A p w)" "keeps world_ok (Promise_Result A p w)"
  unfolding NewPromiseResolver_def C_NewPromiseResolver_def GetPromise_def C_PromiseResolverGetPromise_def
    Resolve_def C_PromiseResolverResolve_def Reject_def C_PromiseResolverReject_def
    Promise_State_def C_PromiseState_def Promise_Result_def C_PromiseResult_def
  by (intro holds_intros world_intros assms | assumption)+

lemma world_promise_of [world_intros]: "world_ok w \<Longrightarrow> keeps world_ok (promise_of p rtn w)"
  unfolding promise_of_def by (intro holds_intros world_intros | assumption)+

lemma world_C_promise_calls [world_intros]:
  assumes "bodies_ok (closures A)" "world_ok w"
  shows "keeps world_ok (C_PromiseThen A p r w)" "keeps world_ok (C_PromiseThen2 A p r s w)"
    "keeps world_ok (C_PromiseCatch A p r w)"
  unfolding C_PromiseThen_def C_PromiseThen2_def C_PromiseCatch_def
  by (intro holds_intros world_intros assms | assumption)+

lemma world_chaining [world_intros]:
  assumes "bodies_ok (closures A)" "world_ok w"
  shows "keeps world_ok (Then A p cs w)" "keeps world_ok (Promise_Catch A p cb w)"
  unfolding Then_def Promise_Catch_def
  by (intro holds_intros world_intros assms | assumption)+

lemma world_JSON [world_intros]:
  assumes "bodies_ok (closures A)" "world_ok w"
  shows "keeps world_ok (JSONParse A ctx str w)" "keeps world_ok (JSONStringify A ctx val w)"
    "keeps world_ok (MarshalJSON A val w)"
  unfolding JSONParse_def C_JSONParse_def MarshalJSON_def JSONStringify_def C_JSONStringify_def
  by (intro holds_intros world_intros assms | assumption)+

end
