(* ===== verification/Scripts.thy ===== *)
theory Scripts
  imports Contexts
begin

text \<open>
  Unbound scripts: script_compiler.go, unbound_script.go and CompileUnboundScript of isolate.go
  with the functions of v8go.cc they call. A compiled script belongs to the internal context of
  its isolate, which frees it when the isolate is disposed of.
\<close>

section \<open>Compile modes and cached data\<close>

text \<open>The enumerators of \<open>v8::ScriptCompiler::CompileOptions\<close> that v8go.cc re-exports.\<close>

definition ScriptCompilerNoCompileOptions :: int where "ScriptCompilerNoCompileOptions = 0"
definition ScriptCompilerConsumeCodeCache :: int where "ScriptCompilerConsumeCodeCache = 1"
definition ScriptCompilerEagerCompile :: int where "ScriptCompilerEagerCompile = 2"

definition CompileModeDefault :: int where "CompileModeDefault = ScriptCompilerNoCompileOptions"
definition CompileModeEager :: int where "CompileModeEager = ScriptCompilerEagerCompile"

record CompilerCachedData =
  cd_Bytes :: bytes
  cd_Rejected :: bool

record CompileOptions =
  co_CachedData :: "CompilerCachedData option"
  co_Mode :: int

record UnboundScript =
  us_ptr :: "addr option"
  us_iso :: addr

section \<open>Compiling\<close>

record RtnUnboundScript =
  ru_ptr :: "addr option"
  ru_rejected :: int
  ru_error :: RtnError

definition new_unbound_script :: "addr \<Rightarrow> 'j \<Rightarrow> (addr, 'e, 'j, 'cb) op" where
  "new_unbound_script ctx j w = bindR (c_new w) (\<lambda>us w.
     tracked_unbound_script ctx us (w\<lparr>mscripts := (mscripts w)(us \<mapsto> \<lparr>mu_ptr = j\<rparr>)\<rparr>))"

definition C_IsolateCompileUnboundScript ::
    "('e, 'j, 'cb) env \<Rightarrow> addr option \<Rightarrow> addr \<Rightarrow> addr \<Rightarrow> bytes option \<Rightarrow> int \<Rightarrow> (RtnUnboundScript, 'e, 'j, 'cb) op" where
  "C_IsolateCompileUnboundScript A p s ogn data option = internal_scope p (\<lambda>i ctx w.
     case c_deref (mctxs w) ctx of None \<Rightarrow> Fault Segv w
     | Some (c, _) \<Rightarrow>
        bindR (checked (utf8_arg A i s w)) (\<lambda>src w.
        bindR (checked (utf8_arg A i ogn w)) (\<lambda>o1 w.
        bindR (ask (v8_compile_unbound A i src o1 data option) w) (\<lambda>(script, rejected) w.
          case script of
            None \<Rightarrow> bindR (raised A i w) (\<lambda>e w. Ok \<lparr>ru_ptr = None, ru_rejected = 0, ru_error = e\<rparr> w)
          | Some j \<Rightarrow> bindR (new_unbound_script c j w) (\<lambda>us w.
              Ok \<lparr>ru_ptr = Some us, ru_rejected = (if data \<noteq> None \<and> rejected then 1 else 0),
                   ru_error = no_error\<rparr> w)))))"

text \<open>
  The result has the script or the error, and the cached data of the options, whose \<open>Rejected\<close>
  the function sets through the pointer it was given.
\<close>

definition CompileUnboundScript ::
    "('e, 'j, 'cb) env \<Rightarrow> addr \<Rightarrow> bytes \<Rightarrow> bytes \<Rightarrow> CompileOptions \<Rightarrow>
       ((goerror + UnboundScript) \<times> CompilerCachedData option, 'e, 'j, 'cb) op" where
  "CompileUnboundScript A a source origin opts w =
     bindR (CString source w) (\<lambda>cSource w.
     bindR (CString origin w) (\<lambda>cOrigin w.
       defer_free (Some cSource) (defer_free (Some cOrigin)
         (bindR
           (case co_CachedData opts of
              Some cd \<Rightarrow>
                if co_Mode opts \<noteq> 0 then
                  Fault (PanicText ''On CompileOptions, Mode and CachedData can't both be set'') w
                else if cd_Bytes cd = [] then Fault IndexOutOfRange w
                else Ok (Some (cd_Bytes cd), ScriptCompilerConsumeCodeCache) w
            | None \<Rightarrow> Ok (None, co_Mode opts) w)
           (\<lambda>(data, compileOption) w.
             with_isolate a (\<lambda>i w.
               bindR (C_IsolateCompileUnboundScript A (i_ptr i) cSource cOrigin data compileOption w) (\<lambda>rtn w.
                 if ru_ptr rtn = None then
                   bindR (newJSError (ru_error rtn) w) (\<lambda>e w. Ok (Inl e, co_CachedData opts) w)
                 else
                   Ok (Inr \<lparr>us_ptr = ru_ptr rtn, us_iso = a\<rparr>,
                       map_option (\<lambda>cd. cd\<lparr>cd_Rejected := (ru_rejected rtn = 1)\<rparr>) (co_CachedData opts)) w)) w)))))"

section \<open>Running and caching\<close>

definition C_UnboundScriptRun :: "('e, 'j, 'cb) env \<Rightarrow> addr option \<Rightarrow> addr option \<Rightarrow> (RtnValue, 'e, 'j, 'cb) op" where
  "C_UnboundScriptRun A ctx us = local_context ctx (\<lambda>i c h w.
     case c_deref (mscripts w) us of None \<Rightarrow> Fault Segv w
     | Some (_, mu) \<Rightarrow>
        bindR (ask (v8_bind A h (mu_ptr mu)) w) (\<lambda>script w.
        bindR (run A i (v8_run A h script) w) (\<lambda>result w. rtn_of A i (Some c) result w)))"

definition UnboundScript_Run :: "('e, 'j, 'cb) env \<Rightarrow> UnboundScript \<Rightarrow> addr \<Rightarrow> (goerror + Value, 'e, 'j, 'cb) op" where
  "UnboundScript_Run A u ctx w =
     bindR (Context_Isolate ctx w) (\<lambda>i w.
       if i \<noteq> us_iso u then
         Fault (PanicText ''attempted to run unbound script in a context that belongs to a different isolate'') w
       else with_context ctx (\<lambda>c w.
         bindR (C_UnboundScriptRun A (c_ptr c) (us_ptr u) w) (\<lambda>rtn w. valueResult (Some ctx) rtn w)) w)"

record ScriptCompilerCachedData =
  sd_data :: addr
  sd_length :: int
  sd_rejected :: int

text \<open>The data of the code cache lives in a block until \<open>ScriptCompilerCachedDataDelete\<close>.\<close>

definition C_UnboundScriptCreateCodeCache ::
    "('e, 'j, 'cb) env \<Rightarrow> addr option \<Rightarrow> addr option \<Rightarrow> (ScriptCompilerCachedData, 'e, 'j, 'cb) op" where
  "C_UnboundScriptCreateCodeCache A p us = isolate_scope p (\<lambda>i w.
     case c_deref (mscripts w) us of None \<Rightarrow> Fault Segv w
     | Some (_, mu) \<Rightarrow>
        (let (data, rejected) = v8_code_cache A (mu_ptr mu) (v8 w) in
         bindR (malloc (Chars data) w) (\<lambda>a w.
           Ok \<lparr>sd_data = a, sd_length = c_int (int (length data)), sd_rejected = (if rejected then 1 else 0)\<rparr> w)))"

definition C_ScriptCompilerCachedDataDelete :: "ScriptCompilerCachedData \<Rightarrow> (unit, 'e, 'j, 'cb) op" where
  "C_ScriptCompilerCachedDataDelete cd = cfree (Some (sd_data cd))"

definition CreateCodeCache :: "('e, 'j, 'cb) env \<Rightarrow> UnboundScript \<Rightarrow> (CompilerCachedData, 'e, 'j, 'cb) op" where
  "CreateCodeCache A u = with_isolate (us_iso u) (\<lambda>i w.
     bindR (C_UnboundScriptCreateCodeCache A (i_ptr i) (us_ptr u) w) (\<lambda>rtn w.
     bindR (GoStringN (Some (sd_data rtn)) (sd_length rtn) w) (\<lambda>bs w.
     bindR (C_ScriptCompilerCachedDataDelete rtn w) (\<lambda>_ w.
       Ok \<lparr>cd_Bytes = bs, cd_Rejected = (sd_rejected rtn = 1)\<rparr> w))))"

section \<open>The invariant\<close>

lemma heap_ok_new_script:
  assumes ok: "heap_ok w" and c: "mctxs w c = Some mc" and s: "s < brk w" "mscripts w s = None"
  shows "heap_ok (w\<lparr>mscripts := (mscripts w)(s \<mapsto> us),
     mctxs := (mctxs w)(c \<mapsto> mc\<lparr>mc_unboundScripts := mc_unboundScripts mc @ [s]\<rparr>)\<rparr>)" (is "heap_ok ?w")
proof -
  have ca: "c < brk w" using heap_okD_fresh [OF ok, of c] c by (cases "brk w \<le> c") auto
  have old: "s \<notin> set (mc_unboundScripts md)" if "mctxs w d = Some md" for d md
    using ok that s(2) unfolding heap_ok_def scripts_ok_def by blast
  have "fresh_ok ?w" using ok ca s by (auto simp: heap_ok_def fresh_ok_def)
  moreover have "entries_ok ?w"
    using ok c by (auto simp: heap_ok_def entries_ok_def table_ok_def age_def)
  moreover have "values_ok ?w" using ok c unfolding heap_ok_def values_ok_def by fastforce
  moreover have "scripts_ok ?w"
  proof -
    have mem: "x = s \<and> d = c \<or> (\<exists>md. mctxs w d = Some md \<and> x \<in> set (mc_unboundScripts md))"
      if "mctxs ?w d = Some me" "x \<in> set (mc_unboundScripts me)" for d me x
      using that c by (auto split: if_splits)
    have "distinct (mc_unboundScripts me) \<and> (\<forall>x \<in> set (mc_unboundScripts me). mscripts ?w x \<noteq> None)"
      if "mctxs ?w d = Some me" for d me
      using ok that c old unfolding heap_ok_def scripts_ok_def by (auto split: if_splits)
    moreover have "d = e" if "mctxs ?w d = Some md" "mctxs ?w e = Some me"
      "x \<in> set (mc_unboundScripts md)" "x \<in> set (mc_unboundScripts me)" for d md e me x
      using mem [OF that(1,3)] mem [OF that(2,4)] old ok unfolding heap_ok_def scripts_ok_def by metis
    ultimately show ?thesis unfolding scripts_ok_def by blast
  qed
  moreover have "internal_ok ?w"
    using ok c unfolding heap_ok_def internal_ok_def by (simp split: if_splits) (metis option.inject)
  ultimately show ?thesis by (simp add: heap_ok_def)
qed

lemma world_new_unbound_script [world_intros]:
  assumes ok: "world_ok w"
  shows "keeps world_ok (new_unbound_script c j w)"
proof (cases "brk w < mem_limit")
  case False
  then show ?thesis by (simp add: new_unbound_script_def c_new_def)
next
  case True
  let ?w = "w\<lparr>brk := Suc (brk w)\<rparr>"
  show ?thesis
  proof (cases "mctxs w c")
    case None
    with True show ?thesis by (simp add: new_unbound_script_def c_new_def tracked_unbound_script_def)
  next
    case (Some mc)
    have hok: "heap_ok ?w" using world_brk [OF ok True] by (simp add: world_ok_def)
    have free: "mscripts w (brk w) = None"
      using ok heap_okD_fresh [of w "brk w"] by (simp add: world_ok_def)
    have "heap_ok (?w\<lparr>mscripts := (mscripts ?w)(brk w \<mapsto> \<lparr>mu_ptr = j\<rparr>),
        mctxs := (mctxs ?w)(c \<mapsto> mc\<lparr>mc_unboundScripts := mc_unboundScripts mc @ [brk w]\<rparr>)\<rparr>)" (is "heap_ok ?w2")
      using hok by (rule heap_ok_new_script) (simp_all add: Some free)
    moreover have "same_go w ?w2" by (auto simp: same_go_def)
    ultimately have "world_ok ?w2" using ok by (auto simp: world_ok_def intro: go_ok_same)
    then show ?thesis using True Some by (simp add: new_unbound_script_def c_new_def tracked_unbound_script_def)
  qed
qed

lemma world_CompileUnboundScript [world_intros]:
  assumes "bodies_ok (closures A)" "world_ok w"
  shows "keeps world_ok (CompileUnboundScript A a source origin opts w)"
  unfolding CompileUnboundScript_def C_IsolateCompileUnboundScript_def
  by (intro holds_intros world_intros assms | assumption)+

lemma world_UnboundScript_Run [world_intros]:
  assumes "bodies_ok (closures A)" "world_ok w"
  shows "keeps world_ok (UnboundScript_Run A u ctx w)"
  unfolding UnboundScript_Run_def C_UnboundScriptRun_def Context_Isolate_def
  by (intro holds_intros world_intros assms | assumption)+

lemma world_CreateCodeCache [world_intros]: "world_ok w \<Longrightarrow> keeps world_ok (CreateCodeCache A u w)"
  unfolding CreateCodeCache_def C_UnboundScriptCreateCodeCache_def C_ScriptCompilerCachedDataDelete_def
  by (intro holds_intros world_intros | assumption)+

end
