(* ===== verification/Profiler.thy ===== *)
theory Profiler
  imports Isolates
begin

text \<open>
  cpuprofiler.go, cpuprofile.go and cpuprofilenode.go with the functions of v8go.cc they call:
  starting and stopping a profile, the copy of V8's call tree into C structs and from there into
  Go structs with parent links, and disposing. A Go \<open>*CPUProfiler\<close> or \<open>*CPUProfile\<close> is its
  struct, returned updated; nodes are addresses, because they point to each other. The
  recursions over C nodes carry fuel for the depth of the stack; the theory shows that the
  number of C addresses ever handed out is enough of it for every tree that was built.
\<close>

section \<open>The C structs\<close>

definition new_cprofiler :: "'j CPUProfiler_c \<Rightarrow> (addr, 'e, 'j, 'cb) op" where
  "new_cprofiler c w = bindR (c_new w) (\<lambda>a w. Ok a (w\<lparr>cprofilers := (cprofilers w)(a \<mapsto> c)\<rparr>))"

definition C_NewCPUProfiler :: "('e, 'j, 'cb) env \<Rightarrow> addr option \<Rightarrow> (addr, 'e, 'j, 'cb) op" where
  "C_NewCPUProfiler A p = isolate_scope p (\<lambda>i w.
     bindR (ask (v8_profiler_new A i) w) (\<lambda>j w. new_cprofiler \<lparr>pr_ptr = Some j, pr_iso = Some i\<rparr> w))"

definition C_CPUProfilerDispose :: "('e, 'j, 'cb) env \<Rightarrow> addr \<Rightarrow> (unit, 'e, 'j, 'cb) op" where
  "C_CPUProfilerDispose A p w =
     (case cprofilers w p of None \<Rightarrow> Fault Segv w
      | Some pr \<Rightarrow>
         (case pr_ptr pr of None \<Rightarrow> Ok () w
          | Some j \<Rightarrow> bindR (tell (v8_profiler_dispose A j) w) (\<lambda>_ w.
              Ok () (w\<lparr>cprofilers := (cprofilers w)(p := None)\<rparr>))))"

definition C_CPUProfilerStartProfiling :: "('e, 'j, 'cb) env \<Rightarrow> addr \<Rightarrow> addr \<Rightarrow> (unit, 'e, 'j, 'cb) op" where
  "C_CPUProfilerStartProfiling A p title w =
     (case cprofilers w p of None \<Rightarrow> Fault Segv w
      | Some pr \<Rightarrow>
         if pr_iso pr = None then Ok () w
         else isolate_scope (pr_iso pr) (\<lambda>i w.
           bindR (checked (utf8_arg A i title w)) (\<lambda>t w.
             case pr_ptr pr of None \<Rightarrow> Fault Segv w | Some j \<Rightarrow> tell (v8_profiler_start A j t) w)) w)"

definition new_cnode :: "'j CPUProfileNode_c \<Rightarrow> (addr, 'e, 'j, 'cb) op" where
  "new_cnode n w = bindR (c_new w) (\<lambda>a w. Ok a (w\<lparr>cnodes := (cnodes w)(a \<mapsto> n)\<rparr>))"

fun C_NewCPUProfileNode :: "'j v8_node \<Rightarrow> (addr, 'e, 'j, 'cb) op"
  and C_NewCPUProfileNodes :: "'j v8_node list \<Rightarrow> (addr list, 'e, 'j, 'cb) op" where
  "C_NewCPUProfileNode (V8Node ptr nid sid resource fname line column hits bailout kids) w =
     bindR (C_NewCPUProfileNodes kids w) (\<lambda>children w.
       new_cnode \<lparr>cn_ptr = ptr, cn_nodeId = nid, cn_scriptId = sid, cn_scriptResourceName = resource,
         cn_functionName = fname, cn_lineNumber = line, cn_columnNumber = column, cn_hitCount = hits,
         cn_bailoutReason = bailout, cn_childrenCount = int (length kids), cn_children = children\<rparr> w)"
| "C_NewCPUProfileNodes [] w = Ok [] w"
| "C_NewCPUProfileNodes (t # ts) w =
     bindR (C_NewCPUProfileNode t w) (\<lambda>a w.
     bindR (C_NewCPUProfileNodes ts w) (\<lambda>as w. Ok (a # as) w))"

definition new_cprofile :: "'j CPUProfile_c \<Rightarrow> (addr, 'e, 'j, 'cb) op" where
  "new_cprofile cp w = bindR (c_new w) (\<lambda>a w. Ok a (w\<lparr>cprofiles := (cprofiles w)(a \<mapsto> cp)\<rparr>))"

text \<open>
  The struct is allocated when all its fields are known, which cannot be told from allocating it
  first. Without a profile of that title V8 answers a null profile, through which \<open>GetTitle\<close> is called.
\<close>

definition C_CPUProfilerStopProfiling :: "('e, 'j, 'cb) env \<Rightarrow> addr \<Rightarrow> addr \<Rightarrow> (addr option, 'e, 'j, 'cb) op" where
  "C_CPUProfilerStopProfiling A p title w =
     (case cprofilers w p of None \<Rightarrow> Fault Segv w
      | Some pr \<Rightarrow>
         if pr_iso pr = None then Ok None w
         else isolate_scope (pr_iso pr) (\<lambda>i w.
           bindR (checked (utf8_arg A i title w)) (\<lambda>t w.
             case pr_ptr pr of None \<Rightarrow> Fault Segv w
             | Some j \<Rightarrow>
                bindR (ask (v8_profiler_stop A j t) w) (\<lambda>vp w.
                  case vp of None \<Rightarrow> Fault Segv w
                  | Some vp \<Rightarrow>
                     bindR (CopyUtf8 (vp_title vp) w) (\<lambda>ttl w.
                     bindR (C_NewCPUProfileNode (vp_root vp) w) (\<lambda>root w.
                     bindR (new_cprofile \<lparr>cp_ptr = Some (vp_ptr vp), cp_title = ttl, cp_root = root,
                              cp_startTime = vp_start vp, cp_endTime = vp_end vp\<rparr> w) (\<lambda>pf w.
                       Ok (Some pf) w)))))) w)"

fun C_CPUProfileNodeDelete :: "nat \<Rightarrow> addr \<Rightarrow> (unit, 'e, 'j, 'cb) op"
  and C_CPUProfileNodesDelete :: "nat \<Rightarrow> addr list \<Rightarrow> (unit, 'e, 'j, 'cb) op" where
  "C_CPUProfileNodeDelete 0 a w = Fault OutOfMemory w"
| "C_CPUProfileNodeDelete (Suc k) a w =
     (case cnodes w a of None \<Rightarrow> Fault Segv w
      | Some n \<Rightarrow>
         if length (cn_children n) < nat (cn_childrenCount n) then Fault Segv w
         else bindR (C_CPUProfileNodesDelete k (take (nat (cn_childrenCount n)) (cn_children n)) w) (\<lambda>_ w.
              if cnodes w a = None then Fault Segv w else Ok () (w\<lparr>cnodes := (cnodes w)(a := None)\<rparr>)))"
| "C_CPUProfileNodesDelete k [] w = Ok () w"
| "C_CPUProfileNodesDelete k (a # as) w =
     bindR (C_CPUProfileNodeDelete k a w) (\<lambda>_ w. C_CPUProfileNodesDelete k as w)"

definition C_CPUProfileDelete :: "('e, 'j, 'cb) env \<Rightarrow> addr \<Rightarrow> (unit, 'e, 'j, 'cb) op" where
  "C_CPUProfileDelete A p w =
     (case cprofiles w p of None \<Rightarrow> Fault Segv w
      | Some cp \<Rightarrow>
         (case cp_ptr cp of None \<Rightarrow> Ok () w
          | Some j \<Rightarrow>
              bindR (tell (v8_profile_delete A j) w) (\<lambda>_ w.
              bindR (cfree (cp_title cp) w) (\<lambda>_ w.
              bindR (C_CPUProfileNodeDelete (brk w) (cp_root cp) w) (\<lambda>_ w.
                Ok () (w\<lparr>cprofiles := (cprofiles w)(p := None)\<rparr>))))))"

section \<open>The Go structs\<close>

record CPUProfiler =
  gp_p :: "addr option"
  gp_iso :: addr

record CPUProfile =
  pf_p :: "addr option"
  pf_title :: bytes
  pf_root :: addr
  pf_startTimeOffset :: int
  pf_endTimeOffset :: int

definition NewCPUProfiler :: "('e, 'j, 'cb) env \<Rightarrow> addr \<Rightarrow> (CPUProfiler, 'e, 'j, 'cb) op" where
  "NewCPUProfiler A a = with_isolate a (\<lambda>i w.
     bindR (C_NewCPUProfiler A (i_ptr i) w) (\<lambda>p w. Ok \<lparr>gp_p = Some p, gp_iso = a\<rparr> w))"

definition CPUProfiler_Dispose :: "('e, 'j, 'cb) env \<Rightarrow> CPUProfiler \<Rightarrow> (CPUProfiler, 'e, 'j, 'cb) op" where
  "CPUProfiler_Dispose A c w =
     (case gp_p c of None \<Rightarrow> Ok c w
      | Some p \<Rightarrow> bindR (C_CPUProfilerDispose A p w) (\<lambda>_ w. Ok (c\<lparr>gp_p := None\<rparr>) w))"

text \<open>\<open>if c.p == nil || c.iso.ptr == nil { panic(...) }\<close>.\<close>

definition profiler_guard :: "CPUProfiler \<Rightarrow> (addr \<Rightarrow> ('a, 'e, 'j, 'cb) op) \<Rightarrow> ('a, 'e, 'j, 'cb) op" where
  "profiler_guard c k w =
     (case gp_p c of None \<Rightarrow> Fault (PanicText ''profiler or isolate are nil'') w
      | Some p \<Rightarrow> with_isolate (gp_iso c) (\<lambda>i w.
          if i_ptr i = None then Fault (PanicText ''profiler or isolate are nil'') w else k p w) w)"

definition StartProfiling :: "('e, 'j, 'cb) env \<Rightarrow> CPUProfiler \<Rightarrow> bytes \<Rightarrow> (unit, 'e, 'j, 'cb) op" where
  "StartProfiling A c title = profiler_guard c (\<lambda>p. withCString title (\<lambda>tstr.
     C_CPUProfilerStartProfiling A p tstr))"

definition go_node_of :: "'j CPUProfileNode_c \<Rightarrow> addr option \<Rightarrow> CPUProfileNode" where
  "go_node_of n parent =
     \<lparr>n_nodeID = uint (cn_nodeId n), n_scriptID = cn_scriptId n,
      n_scriptResourceName = c_str (cn_scriptResourceName n), n_functionName = c_str (cn_functionName n),
      n_lineNumber = cn_lineNumber n, n_columnNumber = cn_columnNumber n, n_hitCount = uint (cn_hitCount n),
      n_bailoutReason = c_str (cn_bailoutReason n), n_children = [], n_parent = parent\<rparr>"

fun newCPUProfileNode :: "nat \<Rightarrow> addr \<Rightarrow> addr option \<Rightarrow> (addr, 'e, 'j, 'cb) op"
  and newCPUProfileNodes :: "nat \<Rightarrow> addr list \<Rightarrow> addr option \<Rightarrow> (addr list, 'e, 'j, 'cb) op" where
  "newCPUProfileNode 0 node parent w = Fault OutOfMemory w"
| "newCPUProfileNode (Suc k) node parent w =
     (case cnodes w node of None \<Rightarrow> Fault Segv w
      | Some cn \<Rightarrow>
         bindR (go_new w) (\<lambda>n w.
           let w = w\<lparr>gnodes := (gnodes w)(n \<mapsto> go_node_of cn parent)\<rparr> in
           if 0 < cn_childrenCount cn then
             if 2 ^ 28 < cn_childrenCount cn then Fault IndexOutOfRange w
             else if length (cn_children cn) < nat (cn_childrenCount cn) then Fault Segv w
             else bindR (newCPUProfileNodes k (take (nat (cn_childrenCount cn)) (cn_children cn)) (Some n) w) (\<lambda>ns w.
                    Ok n (w\<lparr>gnodes := (gnodes w)(n := map_option (n_children_update (\<lambda>_. ns)) (gnodes w n))\<rparr>))
           else Ok n w))"
| "newCPUProfileNodes k [] parent w = Ok [] w"
| "newCPUProfileNodes k (a # as) parent w =
     bindR (newCPUProfileNode k a parent w) (\<lambda>n w.
     bindR (newCPUProfileNodes k as parent w) (\<lambda>ns w. Ok (n # ns) w))"

text \<open>\<open>time.Duration(t) * time.Millisecond\<close>: nanoseconds, at 64 bits.\<close>

definition milliseconds :: "int \<Rightarrow> int" where
  "milliseconds t = c_long (c_long t * 1000000)"

text \<open>The composite literal of StopProfiling, for the C profile it got.\<close>

definition go_profile :: "addr option \<Rightarrow> (CPUProfile, 'e, 'j, 'cb) op" where
  "go_profile profile w =
     (case c_deref (cprofiles w) profile of None \<Rightarrow> Fault NilDeref w
      | Some (_, cp) \<Rightarrow>
         bindR (GoString (cp_title cp) w) (\<lambda>ttl w.
         bindR (newCPUProfileNode (brk w) (cp_root cp) None w) (\<lambda>root w.
           Ok \<lparr>pf_p = profile, pf_title = ttl, pf_root = root,
               pf_startTimeOffset = milliseconds (cp_startTime cp),
               pf_endTimeOffset = milliseconds (cp_endTime cp)\<rparr> w)))"

definition StopProfiling :: "('e, 'j, 'cb) env \<Rightarrow> CPUProfiler \<Rightarrow> bytes \<Rightarrow> (CPUProfile, 'e, 'j, 'cb) op" where
  "StopProfiling A c title = profiler_guard c (\<lambda>p. withCString title (\<lambda>tstr w.
     bindR (C_CPUProfilerStopProfiling A p tstr w) (\<lambda>profile w. go_profile profile w)))"

definition CPUProfile_GetTitle :: "CPUProfile \<Rightarrow> bytes" where
  "CPUProfile_GetTitle c = pf_title c"

definition GetTopDownRoot :: "CPUProfile \<Rightarrow> addr" where
  "GetTopDownRoot c = pf_root c"

definition GetDuration :: "CPUProfile \<Rightarrow> int" where
  "GetDuration c = c_long (pf_endTimeOffset c - pf_startTimeOffset c)"

definition CPUProfile_Delete :: "('e, 'j, 'cb) env \<Rightarrow> CPUProfile \<Rightarrow> (CPUProfile, 'e, 'j, 'cb) op" where
  "CPUProfile_Delete A c w =
     (case pf_p c of None \<Rightarrow> Ok c w
      | Some p \<Rightarrow> bindR (C_CPUProfileDelete A p w) (\<lambda>_ w. Ok (c\<lparr>pf_p := None\<rparr>) w))"

section \<open>The accessors of a node\<close>

definition with_node :: "addr \<Rightarrow> (CPUProfileNode \<Rightarrow> ('a, 'e, 'j, 'cb) op) \<Rightarrow> ('a, 'e, 'j, 'cb) op" where
  "with_node a k w = (case gnodes w a of None \<Rightarrow> Fault NilDeref w | Some n \<Rightarrow> k n w)"

definition GetNodeID :: "addr \<Rightarrow> (int, 'e, 'j, 'cb) op" where
  "GetNodeID c = with_node c (\<lambda>n. Ok (n_nodeID n))"

definition GetScriptID :: "addr \<Rightarrow> (int, 'e, 'j, 'cb) op" where
  "GetScriptID c = with_node c (\<lambda>n. Ok (n_scriptID n))"

definition GetFunctionName :: "addr \<Rightarrow> (bytes, 'e, 'j, 'cb) op" where
  "GetFunctionName c = with_node c (\<lambda>n. Ok (n_functionName n))"

definition GetScriptResourceName :: "addr \<Rightarrow> (bytes, 'e, 'j, 'cb) op" where
  "GetScriptResourceName c = with_node c (\<lambda>n. Ok (n_scriptResourceName n))"

definition GetLineNumber :: "addr \<Rightarrow> (int, 'e, 'j, 'cb) op" where
  "GetLineNumber c = with_node c (\<lambda>n. Ok (n_lineNumber n))"

definition GetColumnNumber :: "addr \<Rightarrow> (int, 'e, 'j, 'cb) op" where
  "GetColumnNumber c = with_node c (\<lambda>n. Ok (n_columnNumber n))"

definition GetHitCount :: "addr \<Rightarrow> (int, 'e, 'j, 'cb) op" where
  "GetHitCount c = with_node c (\<lambda>n. Ok (n_hitCount n))"

definition GetBailoutReason :: "addr \<Rightarrow> (bytes, 'e, 'j, 'cb) op" where
  "GetBailoutReason c = with_node c (\<lambda>n. Ok (n_bailoutReason n))"

definition GetParent :: "addr \<Rightarrow> (addr option, 'e, 'j, 'cb) op" where
  "GetParent c = with_node c (\<lambda>n. Ok (n_parent n))"

definition GetChildrenCount :: "addr \<Rightarrow> (int, 'e, 'j, 'cb) op" where
  "GetChildrenCount c = with_node c (\<lambda>n. Ok (int (length (n_children n))))"

definition GetChild :: "addr \<Rightarrow> int \<Rightarrow> (addr, 'e, 'j, 'cb) op" where
  "GetChild c index = with_node c (\<lambda>n w.
     if 0 \<le> index \<and> index < int (length (n_children n)) then Ok (n_children n ! nat index) w
     else Fault IndexOutOfRange w)"

section \<open>The invariant\<close>

lemma world_cnodes_upd: "world_ok w \<Longrightarrow> a < brk w \<Longrightarrow> world_ok (w\<lparr>cnodes := (cnodes w)(a := x)\<rparr>)"
  by (auto simp: world_ok_def heap_ok_defs go_ok_defs)

lemma world_cprofiles_upd: "world_ok w \<Longrightarrow> a < brk w \<Longrightarrow> world_ok (w\<lparr>cprofiles := (cprofiles w)(a := x)\<rparr>)"
  by (auto simp: world_ok_def heap_ok_defs go_ok_defs)

lemma world_cprofilers_upd: "world_ok w \<Longrightarrow> a < brk w \<Longrightarrow> world_ok (w\<lparr>cprofilers := (cprofilers w)(a := x)\<rparr>)"
  by (auto simp: world_ok_def heap_ok_defs go_ok_defs)

lemma world_gnodes_upd: "world_ok w \<Longrightarrow> a < gbrk w \<Longrightarrow> world_ok (w\<lparr>gnodes := (gnodes w)(a := x)\<rparr>)"
  by (auto simp: world_ok_def go_ok_defs heap_ok_defs)

lemma gnodes_live: "world_ok w \<Longrightarrow> gnodes w a = Some n \<Longrightarrow> a < gbrk w"
  by (rule ccontr) (auto simp: world_ok_def go_ok_def gheap_ok_def)

lemma world_gnodes_upd2: "world_ok w \<Longrightarrow> world_ok (w\<lparr>gnodes := (gnodes w)(a := map_option f (gnodes w a))\<rparr>)"
  by (cases "gnodes w a") (auto simp: fun_upd_idem intro: world_gnodes_upd gnodes_live)

lemma C_live:
  assumes "world_ok w"
  shows "cnodes w a = Some n \<Longrightarrow> a < brk w" "cprofiles w a = Some p \<Longrightarrow> a < brk w"
    "cprofilers w a = Some q \<Longrightarrow> a < brk w"
  using assms by (fastforce simp: world_ok_def heap_ok_def fresh_ok_def not_less [symmetric])+

lemma world_new_cnode [world_intros]: "world_ok w \<Longrightarrow> keeps world_ok (new_cnode n w)"
  using world_cnodes_upd [of "w\<lparr>brk := Suc (brk w)\<rparr>" "brk w"] world_c_new [of w]
  by (auto simp: new_cnode_def c_new_def)

lemma world_C_NewCPUProfileNode [world_intros]:
  "world_ok w \<Longrightarrow> keeps world_ok (C_NewCPUProfileNode t w)"
  "world_ok w \<Longrightarrow> keeps world_ok (C_NewCPUProfileNodes ts w)"
  by (induction t w and ts w rule: C_NewCPUProfileNode_C_NewCPUProfileNodes.induct)
     (auto intro!: keeps_bindR_eq world_new_cnode)

lemma world_C_CPUProfileNodeDelete [world_intros]:
  "world_ok w \<Longrightarrow> keeps world_ok (C_CPUProfileNodeDelete k a w)"
  "world_ok w \<Longrightarrow> keeps world_ok (C_CPUProfileNodesDelete k as w)"
  by (induction k a w and k as w rule: C_CPUProfileNodeDelete_C_CPUProfileNodesDelete.induct)
     (auto intro!: keeps_bindR_eq world_cnodes_upd split: option.splits intro: C_live)

lemma world_newCPUProfileNode [world_intros]:
  "world_ok w \<Longrightarrow> keeps world_ok (newCPUProfileNode k a parent w)"
  "world_ok w \<Longrightarrow> keeps world_ok (newCPUProfileNodes k as parent w)"
proof (induction k a parent w and k as parent w rule: newCPUProfileNode_newCPUProfileNodes.induct)
  case (2 k node parent w)
  show ?case
  proof (cases "cnodes w node")
    case (Some cn)
    let ?w = "w\<lparr>gbrk := Suc (gbrk w), gnodes := (gnodes w)(gbrk w \<mapsto> go_node_of cn parent)\<rparr>"
    have w: "world_ok ?w" if "gbrk w < mem_limit"
      using world_gnodes_upd [OF world_gbrk [OF "2.prems" that], of "gbrk w"] by simp
    have "keeps world_ok (newCPUProfileNodes k (take (nat (cn_childrenCount cn)) (cn_children cn)) (Some (gbrk w)) ?w)"
      if "gbrk w < mem_limit" "0 < cn_childrenCount cn" "\<not> 2 ^ 28 < cn_childrenCount cn" "\<not> length (cn_children cn) < nat (cn_childrenCount cn)"
      using "2.IH" [OF Some, of "gbrk w" "w\<lparr>gbrk := Suc (gbrk w)\<rparr>"] that w by (simp add: go_new_def)
    then show ?thesis
      using Some w by (auto simp: go_new_def Let_def intro!: keeps_bindR world_gnodes_upd2)
  qed simp
qed (auto intro!: keeps_bindR_eq)

lemma world_new_structs [world_intros]:
  assumes "world_ok w"
  shows "keeps world_ok (new_cprofile cp w)" "keeps world_ok (new_cprofiler c w)"
  using world_cprofiles_upd [of "w\<lparr>brk := Suc (brk w)\<rparr>" "brk w"]
    world_cprofilers_upd [of "w\<lparr>brk := Suc (brk w)\<rparr>" "brk w"] world_c_new [OF assms]
  by (auto simp: new_cprofile_def new_cprofiler_def c_new_def)

lemma world_drop:
  assumes "world_ok w"
  shows "world_ok (w\<lparr>cprofiles := (cprofiles w)(p := None)\<rparr>)" "world_ok (w\<lparr>cprofilers := (cprofilers w)(p := None)\<rparr>)"
  using assms by (auto simp: world_ok_def heap_ok_defs go_ok_defs)

lemma world_C_profiles [world_intros]:
  assumes "world_ok w"
  shows "keeps world_ok (C_NewCPUProfiler A q w)" "keeps world_ok (C_CPUProfilerDispose A p w)"
    "keeps world_ok (C_CPUProfilerStartProfiling A p t w)" "keeps world_ok (C_CPUProfilerStopProfiling A p t w)"
    "keeps world_ok (C_CPUProfileDelete A p w)"
  unfolding C_NewCPUProfiler_def C_CPUProfilerDispose_def C_CPUProfilerStartProfiling_def
    C_CPUProfilerStopProfiling_def C_CPUProfileDelete_def
  by (intro holds_intros world_intros world_drop assms | assumption)+

lemma world_profiler_guard [world_intros]:
  "(\<And>p. world_ok w \<Longrightarrow> keeps world_ok (k p w)) \<Longrightarrow> world_ok w \<Longrightarrow> keeps world_ok (profiler_guard c k w)"
  unfolding profiler_guard_def by (intro holds_intros world_intros | assumption | simp)+

lemma world_profiles [world_intros]:
  assumes "world_ok w"
  shows "keeps world_ok (NewCPUProfiler A a w)" "keeps world_ok (CPUProfiler_Dispose A c w)"
    "keeps world_ok (StartProfiling A c t w)" "keeps world_ok (StopProfiling A c t w)"
    "keeps world_ok (CPUProfile_Delete A pf w)"
  unfolding NewCPUProfiler_def CPUProfiler_Dispose_def StartProfiling_def StopProfiling_def go_profile_def CPUProfile_Delete_def
  by (intro holds_intros world_intros assms | assumption)+

section \<open>Copying the call tree\<close>

text \<open>
  \<open>go_tree h parent a t\<close>: the Go node at \<open>a\<close> has the data of V8's node \<open>t\<close>, the given parent,
  and one child per child of \<open>t\<close>, in order, each with this node as its parent.
\<close>

fun go_tree :: "(addr \<Rightarrow> CPUProfileNode option) \<Rightarrow> addr option \<Rightarrow> addr \<Rightarrow> 'j v8_node \<Rightarrow> bool"
  and go_forest :: "(addr \<Rightarrow> CPUProfileNode option) \<Rightarrow> addr option \<Rightarrow> addr list \<Rightarrow> 'j v8_node list \<Rightarrow> bool" where
  "go_tree h parent a (V8Node ptr nid sid resource fname line column hits bailout kids) =
     (case h a of None \<Rightarrow> False
      | Some n \<Rightarrow> n_nodeID n = uint nid \<and> n_scriptID n = sid \<and> n_scriptResourceName n = c_str resource \<and>
          n_functionName n = c_str fname \<and> n_lineNumber n = line \<and> n_columnNumber n = column \<and>
          n_hitCount n = uint hits \<and> n_bailoutReason n = c_str bailout \<and> n_parent n = parent \<and>
          go_forest h (Some a) (n_children n) kids)"
| "go_forest h parent as [] = (as = [])"
| "go_forest h parent as (t # ts) =
     (case as of [] \<Rightarrow> False | b # bs \<Rightarrow> go_tree h parent b t \<and> go_forest h parent bs ts)"

text \<open>How many nodes a tree has; the C nodes of a tree are laid out in post-order.\<close>

fun nodes :: "'j v8_node \<Rightarrow> nat" and forest_nodes :: "'j v8_node list \<Rightarrow> nat" where
  "nodes (V8Node ptr nid sid resource fname line column hits bailout kids) = Suc (forest_nodes kids)"
| "forest_nodes [] = 0"
| "forest_nodes (t # ts) = nodes t + forest_nodes ts"

lemma nodes_pos [simp]: "0 < nodes t"
  by (cases t) simp

fun c_roots :: "addr \<Rightarrow> 'j v8_node list \<Rightarrow> addr list" where
  "c_roots lo [] = []"
| "c_roots lo (t # ts) = (lo + nodes t - 1) # c_roots (lo + nodes t) ts"

definition c_node_of :: "'j v8_node \<Rightarrow> addr list \<Rightarrow> 'j CPUProfileNode_c" where
  "c_node_of t children =
     \<lparr>cn_ptr = vn_ptr t, cn_nodeId = vn_id t, cn_scriptId = vn_script t, cn_scriptResourceName = vn_resource t,
      cn_functionName = vn_function t, cn_lineNumber = vn_line t, cn_columnNumber = vn_column t,
      cn_hitCount = vn_hits t, cn_bailoutReason = vn_bailout t, cn_childrenCount = int (length (vn_children t)),
      cn_children = children\<rparr>"

fun c_tree :: "(addr \<Rightarrow> 'j CPUProfileNode_c option) \<Rightarrow> addr \<Rightarrow> 'j v8_node \<Rightarrow> bool"
  and c_forest :: "(addr \<Rightarrow> 'j CPUProfileNode_c option) \<Rightarrow> addr \<Rightarrow> 'j v8_node list \<Rightarrow> bool" where
  "c_tree h lo (V8Node ptr nid sid resource fname line column hits bailout kids) =
     (h (lo + forest_nodes kids) =
        Some (c_node_of (V8Node ptr nid sid resource fname line column hits bailout kids) (c_roots lo kids)) \<and>
      c_forest h lo kids)"
| "c_forest h lo [] = True"
| "c_forest h lo (t # ts) = (c_tree h lo t \<and> c_forest h (lo + nodes t) ts)"

lemma length_c_roots [simp]: "length (c_roots lo ts) = length ts"
  by (induction ts arbitrary: lo) auto

lemma c_tree_cong:
  "(\<And>a. lo \<le> a \<Longrightarrow> a < lo + nodes t \<Longrightarrow> h a = h' a) \<Longrightarrow> c_tree h lo t = c_tree h' lo t"
  "(\<And>a. lo \<le> a \<Longrightarrow> a < lo + forest_nodes ts \<Longrightarrow> h a = h' a) \<Longrightarrow> c_forest h lo ts = c_forest h' lo ts"
  by (induction h lo t and h lo ts rule: c_tree_c_forest.induct) auto

lemma C_NewCPUProfileNode_spec:
  "brk w + nodes t \<le> mem_limit \<Longrightarrow>
     \<exists>h. C_NewCPUProfileNode t w = Ok (brk w + nodes t - 1) (w\<lparr>brk := brk w + nodes t, cnodes := h\<rparr>) \<and>
         c_tree h (brk w) t \<and> (\<forall>a. a < brk w \<or> brk w + nodes t \<le> a \<longrightarrow> h a = cnodes w a)"
  "brk w + forest_nodes ts \<le> mem_limit \<Longrightarrow>
     \<exists>h. C_NewCPUProfileNodes ts w = Ok (c_roots (brk w) ts) (w\<lparr>brk := brk w + forest_nodes ts, cnodes := h\<rparr>) \<and>
         c_forest h (brk w) ts \<and> (\<forall>a. a < brk w \<or> brk w + forest_nodes ts \<le> a \<longrightarrow> h a = cnodes w a)"
proof (induction t w and ts w rule: C_NewCPUProfileNode_C_NewCPUProfileNodes.induct)
  case (1 ptr nid sid resource fname line column hits bailout kids w)
  let ?t = "V8Node ptr nid sid resource fname line column hits bailout kids"
  let ?n = "brk w + forest_nodes kids"
  from 1 obtain h where h: "C_NewCPUProfileNodes kids w = Ok (c_roots (brk w) kids) (w\<lparr>brk := ?n, cnodes := h\<rparr>)"
    "c_forest h (brk w) kids" "\<forall>a. a < brk w \<or> ?n \<le> a \<longrightarrow> h a = cnodes w a" by auto
  let ?h = "h(?n \<mapsto> c_node_of ?t (c_roots (brk w) kids))"
  have "c_forest ?h (brk w) kids" using c_tree_cong(2) [of "brk w" kids h ?h] h(2) by simp
  moreover have "C_NewCPUProfileNode ?t w = Ok ?n (w\<lparr>brk := Suc ?n, cnodes := ?h\<rparr>)"
    using h(1) "1.prems" by (simp add: new_cnode_def c_new_def c_node_of_def)
  moreover have "\<forall>a. a < brk w \<or> Suc ?n \<le> a \<longrightarrow> ?h a = cnodes w a" using h(3) by auto
  ultimately have "C_NewCPUProfileNode ?t w = Ok (brk w + nodes ?t - 1) (w\<lparr>brk := brk w + nodes ?t, cnodes := ?h\<rparr>) \<and>
      c_tree ?h (brk w) ?t \<and> (\<forall>a. a < brk w \<or> brk w + nodes ?t \<le> a \<longrightarrow> ?h a = cnodes w a)" by simp
  then show ?case by blast
next
  case (2 w)
  then show ?case by (auto intro: exI [of _ "cnodes w"])
next
  case (3 t ts w)
  from 3 obtain h where h: "C_NewCPUProfileNode t w = Ok (brk w + nodes t - 1) (w\<lparr>brk := brk w + nodes t, cnodes := h\<rparr>)"
    "c_tree h (brk w) t" "\<forall>a. a < brk w \<or> brk w + nodes t \<le> a \<longrightarrow> h a = cnodes w a" by auto
  from "3.IH"(2) [OF h(1)] "3.prems" obtain h2 where h2:
    "C_NewCPUProfileNodes ts (w\<lparr>brk := brk w + nodes t, cnodes := h\<rparr>) = Ok (c_roots (brk w + nodes t) ts)
        (w\<lparr>brk := brk w + nodes t + forest_nodes ts, cnodes := h2\<rparr>)"
    "c_forest h2 (brk w + nodes t) ts"
    "\<forall>a. a < brk w + nodes t \<or> brk w + nodes t + forest_nodes ts \<le> a \<longrightarrow> h2 a = h a" by auto
  have "c_tree h2 (brk w) t" using c_tree_cong(1) [of "brk w" t h h2] h(2) h2(3) by simp
  then have "C_NewCPUProfileNodes (t # ts) w = Ok (c_roots (brk w) (t # ts))
        (w\<lparr>brk := brk w + forest_nodes (t # ts), cnodes := h2\<rparr>) \<and> c_forest h2 (brk w) (t # ts) \<and>
      (\<forall>a. a < brk w \<or> brk w + forest_nodes (t # ts) \<le> a \<longrightarrow> h2 a = cnodes w a)"
    using h h2 by (simp add: add.assoc)
  then show ?case by blast
qed

text \<open>Deleting the C tree frees exactly its nodes.\<close>

lemma C_CPUProfileNodeDelete_spec:
  "c_tree (cnodes w) lo t \<Longrightarrow> nodes t \<le> k \<Longrightarrow>
     C_CPUProfileNodeDelete k (lo + nodes t - 1) w = Ok () (w\<lparr>cnodes := without {lo..<lo + nodes t} (cnodes w)\<rparr>)"
  "c_forest (cnodes w) lo ts \<Longrightarrow> forest_nodes ts \<le> k \<Longrightarrow>
     C_CPUProfileNodesDelete k (c_roots lo ts) w = Ok () (w\<lparr>cnodes := without {lo..<lo + forest_nodes ts} (cnodes w)\<rparr>)"
proof (induction t and ts arbitrary: w lo k and w lo k rule: nodes_forest_nodes.induct)
  case (1 ptr nid sid resource fname line column hits bailout kids)
  from "1.prems"(2) obtain k' where k: "k = Suc k'" "forest_nodes kids \<le> k'" by (cases k) auto
  let ?n = "lo + forest_nodes kids"
  have "without {lo..<?n} (cnodes w) ?n \<noteq> None" using "1.prems"(1) by (simp add: restrict_map_def)
  moreover have "(without {lo..<?n} (cnodes w))(?n := None) = without {lo..<Suc ?n} (cnodes w)"
    by (auto simp: fun_eq_iff restrict_map_def)
  ultimately show ?case
    using "1.prems"(1) "1.IH" [of w lo k'] k by (simp add: c_node_of_def)
next
  case 2
  then show ?case by simp
next
  case (3 t ts)
  let ?h = "without {lo..<lo + nodes t} (cnodes w)"
  have "c_forest ?h (lo + nodes t) ts"
    using "3.prems"(1) c_tree_cong(2) [of "lo + nodes t" ts ?h "cnodes w"] by (simp add: restrict_map_def)
  moreover have "without {lo + nodes t..<lo + nodes t + forest_nodes ts} ?h =
      without {lo..<lo + forest_nodes (t # ts)} (cnodes w)"
    by (auto simp: fun_eq_iff restrict_map_def)
  ultimately show ?case
    using "3.prems" "3.IH"(1) [of w lo k] "3.IH"(2) [of "w\<lparr>cnodes := ?h\<rparr>" "lo + nodes t" k] by simp
qed

text \<open>
  The Go copy: it takes one address per node, and whatever happens elsewhere in the Go heap
  afterwards, the copy still represents the tree.
\<close>

definition agrees :: "addr \<Rightarrow> addr \<Rightarrow> (addr \<Rightarrow> 'a option) \<Rightarrow> (addr \<Rightarrow> 'a option) \<Rightarrow> bool" where
  "agrees lo hi h h' \<longleftrightarrow> (\<forall>a. lo \<le> a \<and> a < hi \<longrightarrow> h' a = h a)"

lemma go_node_of_no_children [simp]: "(go_node_of cn parent)\<lparr>n_children := []\<rparr> = go_node_of cn parent"
  by (simp add: go_node_of_def)

lemma newCPUProfileNode_step:
  assumes cn: "cnodes w node = Some cn" "cn_childrenCount cn = int (length (cn_children cn))"
    and lim: "gbrk w < mem_limit" "length (cn_children cn) \<le> 2 ^ 28"
    and kids: "newCPUProfileNodes k (cn_children cn) (Some (gbrk w))
        (w\<lparr>gbrk := Suc (gbrk w), gnodes := (gnodes w)(gbrk w \<mapsto> go_node_of cn parent)\<rparr>) = Ok ns w2"
    and root: "gnodes w2 (gbrk w) = Some (go_node_of cn parent)"
  shows "newCPUProfileNode (Suc k) node parent w =
     Ok (gbrk w) (w2\<lparr>gnodes := (gnodes w2)(gbrk w \<mapsto> (go_node_of cn parent)\<lparr>n_children := ns\<rparr>)\<rparr>)"
proof (cases "cn_children cn")
  case Nil
  with kids have "ns = []" and w2: "w2 = w\<lparr>gbrk := Suc (gbrk w), gnodes := (gnodes w)(gbrk w \<mapsto> go_node_of cn parent)\<rparr>"
    by simp_all
  with cn lim Nil show ?thesis by (simp add: go_new_def)
next
  case (Cons a as)
  with cn(2) lim(2) have "0 < cn_childrenCount cn" "nat (cn_childrenCount cn) = length (cn_children cn)" "cn_childrenCount cn \<le> 2 ^ 28" by simp_all
  with cn lim kids root show ?thesis by (simp add: go_new_def Let_def)
qed

lemma length_forest: "length ts \<le> forest_nodes ts"
proof (induction ts)
  case (Cons t ts)
  have "1 \<le> nodes t" using nodes_pos [of t] by linarith
  with Cons.IH show ?case by simp
qed simp

definition tree_copied :: "nat \<Rightarrow> addr \<Rightarrow> addr option \<Rightarrow> 'j v8_node \<Rightarrow> ('e, 'j, 'cb) world \<Rightarrow> bool" where
  "tree_copied k lo parent t w \<longleftrightarrow>
     (\<exists>h. newCPUProfileNode k (lo + nodes t - 1) parent w = Ok (gbrk w) (w\<lparr>gbrk := gbrk w + nodes t, gnodes := h\<rparr>) \<and>
         (\<forall>h'. agrees (gbrk w) (gbrk w + nodes t) h h' \<longrightarrow> go_tree h' parent (gbrk w) t) \<and>
         (\<forall>a < gbrk w. h a = gnodes w a))"

definition forest_copied :: "nat \<Rightarrow> addr \<Rightarrow> addr option \<Rightarrow> 'j v8_node list \<Rightarrow> ('e, 'j, 'cb) world \<Rightarrow> bool" where
  "forest_copied k lo parent ts w \<longleftrightarrow>
     (\<exists>h ns. newCPUProfileNodes k (c_roots lo ts) parent w = Ok ns (w\<lparr>gbrk := gbrk w + forest_nodes ts, gnodes := h\<rparr>) \<and>
         (\<forall>h'. agrees (gbrk w) (gbrk w + forest_nodes ts) h h' \<longrightarrow> go_forest h' parent ns ts) \<and>
         (\<forall>a < gbrk w. h a = gnodes w a))"

lemma tree_copied_node:
  assumes tree: "c_tree (cnodes w) lo (V8Node ptr nid sid resource fname line column hits bailout kids)"
    and len: "length kids \<le> 2 ^ 28" and lim: "gbrk w < mem_limit"
    and kids: "\<And>n. forest_copied k lo (Some (gbrk w)) kids (w\<lparr>gbrk := Suc (gbrk w), gnodes := (gnodes w)(gbrk w \<mapsto> n)\<rparr>)"
  shows "tree_copied (Suc k) lo parent (V8Node ptr nid sid resource fname line column hits bailout kids) w"
proof -
  let ?t = "V8Node ptr nid sid resource fname line column hits bailout kids"
  let ?cn = "c_node_of ?t (c_roots lo kids)" and ?a = "gbrk w"
  let ?n = "go_node_of ?cn parent"
  let ?w = "w\<lparr>gbrk := Suc ?a, gnodes := (gnodes w)(?a \<mapsto> ?n)\<rparr>"
  have cn: "cnodes w (lo + forest_nodes kids) = Some ?cn" using tree by simp
  from kids [of ?n] obtain h ns where h:
    "newCPUProfileNodes k (c_roots lo kids) (Some ?a) ?w = Ok ns (?w\<lparr>gbrk := gbrk ?w + forest_nodes kids, gnodes := h\<rparr>)"
    "\<And>h'. agrees (gbrk ?w) (gbrk ?w + forest_nodes kids) h h' \<Longrightarrow> go_forest h' (Some ?a) ns kids"
    "\<And>a. a < gbrk ?w \<Longrightarrow> h a = gnodes ?w a" unfolding forest_copied_def by blast
  let ?h = "h(?a \<mapsto> ?n\<lparr>n_children := ns\<rparr>)"
  have h_a: "h ?a = Some ?n" using h(3) [of ?a] by simp
  have "newCPUProfileNode (Suc k) (lo + forest_nodes kids) parent w =
      Ok ?a ((?w\<lparr>gbrk := gbrk ?w + forest_nodes kids, gnodes := h\<rparr>)\<lparr>gnodes := ?h\<rparr>)"
    using newCPUProfileNode_step [OF cn _ _ _, of k parent ns "?w\<lparr>gbrk := gbrk ?w + forest_nodes kids, gnodes := h\<rparr>"]
      h(1) h_a len lim by (simp add: c_node_of_def)
  then have "newCPUProfileNode (Suc k) (lo + nodes ?t - 1) parent w = Ok ?a (w\<lparr>gbrk := gbrk w + nodes ?t, gnodes := ?h\<rparr>)"
    by simp
  moreover have "go_tree h' parent ?a ?t" if "agrees ?a (?a + nodes ?t) ?h h'" for h'
  proof -
    have "agrees (Suc ?a) (Suc ?a + forest_nodes kids) h h'" "h' ?a = Some (?n\<lparr>n_children := ns\<rparr>)"
      using that by (auto simp: agrees_def)
    with h(2) show ?thesis by (simp add: go_node_of_def c_node_of_def)
  qed
  moreover have "\<forall>a < ?a. ?h a = gnodes w a" using h(3) by auto
  ultimately show ?thesis unfolding tree_copied_def by blast
qed

lemma forest_copied_cons:
  assumes t: "tree_copied k lo parent t w"
    and ts: "\<And>h. forest_copied k (lo + nodes t) parent ts (w\<lparr>gbrk := gbrk w + nodes t, gnodes := h\<rparr>)"
  shows "forest_copied k lo parent (t # ts) w"
proof -
  from t obtain h where h:
    "newCPUProfileNode k (lo + nodes t - 1) parent w = Ok (gbrk w) (w\<lparr>gbrk := gbrk w + nodes t, gnodes := h\<rparr>)"
    "\<And>h'. agrees (gbrk w) (gbrk w + nodes t) h h' \<Longrightarrow> go_tree h' parent (gbrk w) t"
    "\<And>a. a < gbrk w \<Longrightarrow> h a = gnodes w a" unfolding tree_copied_def by blast
  let ?w = "w\<lparr>gbrk := gbrk w + nodes t, gnodes := h\<rparr>"
  from ts [of h] obtain h2 ns where h2:
    "newCPUProfileNodes k (c_roots (lo + nodes t) ts) parent ?w = Ok ns (?w\<lparr>gbrk := gbrk ?w + forest_nodes ts, gnodes := h2\<rparr>)"
    "\<And>h'. agrees (gbrk ?w) (gbrk ?w + forest_nodes ts) h2 h' \<Longrightarrow> go_forest h' parent ns ts"
    "\<And>a. a < gbrk ?w \<Longrightarrow> h2 a = gnodes ?w a" unfolding forest_copied_def by blast
  have "newCPUProfileNodes k (c_roots lo (t # ts)) parent w =
      Ok (gbrk w # ns) (w\<lparr>gbrk := gbrk w + forest_nodes (t # ts), gnodes := h2\<rparr>)"
    using h(1) h2(1) by (simp add: add.assoc)
  moreover have "go_forest h' parent (gbrk w # ns) (t # ts)" if "agrees (gbrk w) (gbrk w + forest_nodes (t # ts)) h2 h'" for h'
  proof -
    have "agrees (gbrk w) (gbrk w + nodes t) h h'" using that h2(3) by (simp add: agrees_def)
    moreover have "agrees (gbrk ?w) (gbrk ?w + forest_nodes ts) h2 h'" using that by (simp add: agrees_def)
    ultimately show ?thesis using h(2) h2(2) by simp
  qed
  moreover have "\<forall>a < gbrk w. h2 a = gnodes w a" using h(3) h2(3) by simp
  ultimately show ?thesis unfolding forest_copied_def by blast
qed

lemma newCPUProfileNode_copies:
  "c_tree (cnodes w) lo t \<Longrightarrow> nodes t \<le> k \<Longrightarrow> nodes t \<le> 2 ^ 28 \<Longrightarrow> gbrk w + nodes t \<le> mem_limit \<Longrightarrow> tree_copied k lo parent t w"
  "c_forest (cnodes w) lo ts \<Longrightarrow> forest_nodes ts \<le> k \<Longrightarrow> forest_nodes ts \<le> 2 ^ 28 \<Longrightarrow> gbrk w + forest_nodes ts \<le> mem_limit \<Longrightarrow>
     forest_copied k lo parent ts w"
proof (induction t and ts arbitrary: w lo k parent and w lo k parent rule: nodes_forest_nodes.induct)
  case (1 ptr nid sid resource fname line column hits bailout kids)
  from "1.prems"(2) obtain k' where k: "k = Suc k'" "forest_nodes kids \<le> k'" by (cases k) auto
  show ?case
    unfolding k(1) using "1.prems" k(2) length_forest [of kids] by (intro tree_copied_node "1.IH") auto
next
  case 2
  have "newCPUProfileNodes k (c_roots lo []) parent w = Ok [] (w\<lparr>gbrk := gbrk w + forest_nodes [], gnodes := gnodes w\<rparr>)" by simp
  moreover have "\<forall>h'. agrees (gbrk w) (gbrk w + forest_nodes []) (gnodes w) h' \<longrightarrow> go_forest h' parent [] []" by simp
  ultimately show ?case unfolding forest_copied_def by blast
next
  case (3 t ts)
  then show ?case by (intro forest_copied_cons "3.IH") auto
qed

lemmas newCPUProfileNode_spec = newCPUProfileNode_copies [unfolded tree_copied_def forest_copied_def]

text \<open>The profiles made of an answer of V8.\<close>

definition stopped_profile :: "'j v8_profile \<Rightarrow> addr \<Rightarrow> addr \<Rightarrow> CPUProfile" where
  "stopped_profile vp pf root = \<lparr>pf_p = Some pf, pf_title = c_str (vp_title vp), pf_root = root,
     pf_startTimeOffset = milliseconds (vp_start vp), pf_endTimeOffset = milliseconds (vp_end vp)\<rparr>"

definition c_profile :: "'j v8_profile \<Rightarrow> addr option \<Rightarrow> addr \<Rightarrow> 'j CPUProfile_c" where
  "c_profile vp ttl lo = \<lparr>cp_ptr = Some (vp_ptr vp), cp_title = ttl, cp_root = lo + nodes (vp_root vp) - 1,
     cp_startTime = vp_start vp, cp_endTime = vp_end vp\<rparr>"

text \<open>The C side of stopping: what is in the C heap afterwards.\<close>

lemma C_Stop:
  assumes pr: "cprofilers w p = Some pr" "pr_iso pr = Some i" "pr_ptr pr = Some j" "isolates w i \<noteq> None"
    and title: "read_cstr tstr w = Some s" "v8_new_utf8 A i s (v8 w) = (e1, Some ts)"
    and stop: "v8_profiler_stop A j ts e1 = (e2, Some vp)"
    and room: "brk w + nodes (vp_root vp) + (if vp_title vp = [] then 1 else 2) \<le> mem_limit"
  obtains pf ttl lo bl h where
    "C_CPUProfilerStopProfiling A p tstr w = Ok (Some pf) (w\<lparr>v8 := e2, brk := Suc pf, blocks := bl, cnodes := h,
       cprofiles := (cprofiles w)(pf \<mapsto> c_profile vp ttl lo)\<rparr>)"
    "pf = lo + nodes (vp_root vp)" "brk w \<le> lo" "c_tree h lo (vp_root vp)"
    "\<forall>a. a < lo \<or> pf \<le> a \<longrightarrow> h a = cnodes w a"
    "vp_title vp = [] \<and> ttl = None \<and> bl = blocks w \<or>
     ttl = Some (brk w) \<and> lo = Suc (brk w) \<and> bl = (blocks w)(brk w \<mapsto> Chars (vp_title vp @ [NUL]))"
proof -
  obtain ttl lo bl where copy: "CopyUtf8 (vp_title vp) (w\<lparr>v8 := e2\<rparr>) = Ok ttl (w\<lparr>v8 := e2, brk := lo, blocks := bl\<rparr>)"
    and lo: "brk w \<le> lo" "lo + nodes (vp_root vp) < mem_limit"
    and ttl: "vp_title vp = [] \<and> ttl = None \<and> bl = blocks w \<or>
       ttl = Some (brk w) \<and> lo = Suc (brk w) \<and> bl = (blocks w)(brk w \<mapsto> Chars (vp_title vp @ [NUL]))"
  proof (cases "vp_title vp = []")
    case True
    then show thesis using that [of None "blocks w" "brk w"] room by (simp add: CopyUtf8_def)
  next
    case False
    then show thesis
      using that [of "Some (brk w)" "(blocks w)(brk w \<mapsto> Chars (vp_title vp @ [NUL]))" "Suc (brk w)"] room
      by (simp add: CopyUtf8_def CopyString_eq)
  qed
  let ?w1 = "w\<lparr>v8 := e2, brk := lo, blocks := bl\<rparr>" and ?pf = "lo + nodes (vp_root vp)"
  have "brk ?w1 + nodes (vp_root vp) \<le> mem_limit" and lim: "?pf < mem_limit" using room lo by simp_all
  from C_NewCPUProfileNode_spec(1) [OF this(1)] obtain h where h:
    "C_NewCPUProfileNode (vp_root vp) ?w1 = Ok (?pf - 1) (?w1\<lparr>brk := ?pf, cnodes := h\<rparr>)"
    "c_tree h lo (vp_root vp)" "\<forall>a. a < lo \<or> ?pf \<le> a \<longrightarrow> h a = cnodes w a" by auto
  have "C_CPUProfilerStopProfiling A p tstr w = Ok (Some ?pf) (w\<lparr>v8 := e2, brk := Suc ?pf, blocks := bl, cnodes := h,
       cprofiles := (cprofiles w)(?pf \<mapsto> c_profile vp ttl lo)\<rparr>)"
    using pr title stop copy h(1) lim
    by (auto simp: C_CPUProfilerStopProfiling_def isolate_scope_def utf8_arg_def ask_def checked_def
        new_cprofile_def c_new_def c_profile_def)
  then show thesis using that [OF _ refl lo(1) h(2,3) ttl] by simp
qed

text \<open>Without the memory for it the C++ allocator gives up, at whatever node it is.\<close>

lemma C_NewCPUProfileNode_full:
  "brk w \<le> mem_limit \<Longrightarrow> mem_limit < brk w + nodes t \<Longrightarrow> \<exists>w'. C_NewCPUProfileNode t w = Fault OutOfMemory w'"
  "brk w \<le> mem_limit \<Longrightarrow> mem_limit < brk w + forest_nodes ts \<Longrightarrow> \<exists>w'. C_NewCPUProfileNodes ts w = Fault OutOfMemory w'"
proof (induction t w and ts w rule: C_NewCPUProfileNode_C_NewCPUProfileNodes.induct)
  case (1 ptr nid sid resource fname line column hits bailout kids w)
  show ?case
  proof (cases "mem_limit < brk w + forest_nodes kids")
    case True
    with 1 show ?thesis by auto
  next
    case False
    then have "brk w + forest_nodes kids \<le> mem_limit" by simp
    from C_NewCPUProfileNode_spec(2) [OF this] obtain h where
      "C_NewCPUProfileNodes kids w = Ok (c_roots (brk w) kids) (w\<lparr>brk := brk w + forest_nodes kids, cnodes := h\<rparr>)" by blast
    with "1.prems" show ?thesis by (simp add: new_cnode_def c_new_def)
  qed
next
  case (3 t ts w)
  show ?case
  proof (cases "mem_limit < brk w + nodes t")
    case True
    with 3 show ?thesis by auto
  next
    case False
    then have "brk w + nodes t \<le> mem_limit" by simp
    from C_NewCPUProfileNode_spec(1) [OF this] obtain h where h:
      "C_NewCPUProfileNode t w = Ok (brk w + nodes t - 1) (w\<lparr>brk := brk w + nodes t, cnodes := h\<rparr>)" by blast
    with "3.IH"(2) [OF h] "3.prems" False show ?thesis by auto
  qed
qed simp

lemma C_Stop_full:
  fixes w :: "('e, 'j, 'cb) world"
  assumes pr: "cprofilers w p = Some pr" "pr_iso pr = Some i" "pr_ptr pr = Some j" "isolates w i \<noteq> None"
    and title: "read_cstr tstr w = Some s" "v8_new_utf8 A i s (v8 w) = (e1, Some ts)"
    and stop: "v8_profiler_stop A j ts e1 = (e2, Some vp)"
    and full: "brk w \<le> mem_limit" "mem_limit < brk w + nodes (vp_root vp) + (if vp_title vp = [] then 1 else 2)"
  shows "\<exists>w'. C_CPUProfilerStopProfiling A p tstr w = Fault OutOfMemory w'"
proof -
  have nodes: "\<exists>w'. bindR (C_NewCPUProfileNode (vp_root vp) w1) (\<lambda>root w. bindR (new_cprofile (cp root) w) k) = Fault OutOfMemory w'"
    if w1: "brk w1 \<le> mem_limit" "mem_limit \<le> brk w1 + nodes (vp_root vp)" for w1 :: "('e, 'j, 'cb) world" and cp k
  proof (cases "mem_limit < brk w1 + nodes (vp_root vp)")
    case True
    with C_NewCPUProfileNode_full(1) [OF w1(1)] show ?thesis by fastforce
  next
    case False
    with w1 C_NewCPUProfileNode_spec(1) [of w1 "vp_root vp"] show ?thesis by (auto simp: new_cprofile_def c_new_def)
  qed
  have "\<exists>w'. bindR (CopyUtf8 (vp_title vp) (w\<lparr>v8 := e2\<rparr>)) (\<lambda>ttl w. bindR (C_NewCPUProfileNode (vp_root vp) w) (\<lambda>root w.
      bindR (new_cprofile (cp ttl root) w) k)) = Fault OutOfMemory w'" for cp k
  proof (cases "vp_title vp = []")
    case True
    then show ?thesis using full nodes [of "w\<lparr>v8 := e2\<rparr>"] by (simp add: CopyUtf8_def)
  next
    case False
    then show ?thesis using full
      by (cases "brk w < mem_limit") (auto simp: CopyUtf8_def CopyString_def malloc_def c_new_def intro!: nodes)
  qed
  then show ?thesis
    using pr title stop
    by (auto simp: C_CPUProfilerStopProfiling_def isolate_scope_def utf8_arg_def ask_def checked_def)
qed

text \<open>The situation in which a running profile is stopped.\<close>

definition stoppable :: "('e, 'j, 'cb) env \<Rightarrow> CPUProfiler \<Rightarrow> bytes \<Rightarrow> 'j v8_profile \<Rightarrow> ('e, 'j, 'cb) world \<Rightarrow> bool" where
  "stoppable A c title vp w \<longleftrightarrow> heap_ok w \<and>
     (\<exists>p g pr i j e1 ts e2. gp_p c = Some p \<and> gisos w (gp_iso c) = Some g \<and> i_ptr g \<noteq> None \<and>
        cprofilers w p = Some pr \<and> pr_iso pr = Some i \<and> pr_ptr pr = Some j \<and> isolates w i \<noteq> None \<and>
        v8_new_utf8 A i (c_str title) (v8 w) = (e1, Some ts) \<and> v8_profiler_stop A j ts e1 = (e2, Some vp)) \<and>
     brk w + nodes (vp_root vp) + 3 \<le> mem_limit \<and> nodes (vp_root vp) \<le> 2 ^ 28 \<and> gbrk w + nodes (vp_root vp) \<le> mem_limit"

lemma go_profile_Ok:
  assumes cp: "cprofiles w pf = Some (c_profile vp ttl lo)"
    and t: "c_tree (cnodes w) lo (vp_root vp)" "nodes (vp_root vp) \<le> brk w" "nodes (vp_root vp) \<le> 2 ^ 28" "gbrk w + nodes (vp_root vp) \<le> mem_limit"
    and ttl: "GoString ttl w = Ok (c_str (vp_title vp)) w"
  obtains h where
    "go_profile (Some pf) w = Ok (stopped_profile vp pf (gbrk w)) (w\<lparr>gbrk := gbrk w + nodes (vp_root vp), gnodes := h\<rparr>)"
    "go_tree h None (gbrk w) (vp_root vp)"
proof -
  let ?t = "vp_root vp"
  from newCPUProfileNode_spec(1) [OF t, of None] obtain h where
    "newCPUProfileNode (brk w) (lo + nodes ?t - 1) None w = Ok (gbrk w) (w\<lparr>gbrk := gbrk w + nodes ?t, gnodes := h\<rparr>)"
    "go_tree h None (gbrk w) ?t" by (auto simp: agrees_def)
  then show thesis using that cp ttl by (simp add: go_profile_def c_profile_def stopped_profile_def)
qed

lemma C_CPUProfileDelete_Ok:
  assumes cp: "cprofiles w pf = Some cp" "cp_ptr cp = Some j" "cp_root cp = lo + nodes t - 1"
    and t: "c_tree (cnodes w) lo t" "nodes t \<le> brk w"
    and ttl: "\<And>a. cp_title cp = Some a \<Longrightarrow> blocks w a \<noteq> None"
  shows "C_CPUProfileDelete A pf w = Ok () (w\<lparr>v8 := v8_profile_delete A j (v8 w),
     blocks := (case cp_title cp of None \<Rightarrow> blocks w | Some a \<Rightarrow> (blocks w)(a := None)),
     cnodes := without {lo..<lo + nodes t} (cnodes w), cprofiles := (cprofiles w)(pf := None)\<rparr>)"
proof -
  let ?bl = "case cp_title cp of None \<Rightarrow> blocks w | Some a \<Rightarrow> (blocks w)(a := None)"
  let ?w = "w\<lparr>v8 := v8_profile_delete A j (v8 w), blocks := ?bl\<rparr>"
  have "cfree (cp_title cp) (w\<lparr>v8 := v8_profile_delete A j (v8 w)\<rparr>) = Ok () ?w"
    using ttl by (cases "cp_title cp") (auto simp: cfree_def)
  moreover have "c_tree (cnodes ?w) lo t" "nodes t \<le> brk ?w" using t by simp_all
  note C_CPUProfileNodeDelete_spec(1) [OF this]
  ultimately show ?thesis using cp by (simp add: C_CPUProfileDelete_def tell_def)
qed

lemma stop_body:
  assumes pr: "cprofilers w p = Some pr" "pr_iso pr = Some i" "pr_ptr pr = Some j" "isolates w i \<noteq> None"
    and title: "read_cstr tstr w = Some s" "v8_new_utf8 A i s (v8 w) = (e1, Some ts)"
    and stop: "v8_profiler_stop A j ts e1 = (e2, Some vp)"
    and room: "brk w + nodes (vp_root vp) + 2 \<le> mem_limit" "gbrk w + nodes (vp_root vp) \<le> mem_limit" "nodes (vp_root vp) \<le> 2 ^ 28"
  obtains lo ttl bl h g where
    "bindR (C_CPUProfilerStopProfiling A p tstr w) (\<lambda>profile w. go_profile profile w) =
       Ok (stopped_profile vp (lo + nodes (vp_root vp)) (gbrk w))
         (w\<lparr>v8 := e2, brk := Suc (lo + nodes (vp_root vp)), blocks := bl, cnodes := h,
            cprofiles := (cprofiles w)(lo + nodes (vp_root vp) \<mapsto> c_profile vp ttl lo),
            gbrk := gbrk w + nodes (vp_root vp), gnodes := g\<rparr>)"
    "brk w \<le> lo" "c_tree h lo (vp_root vp)" "\<forall>a. a < lo \<or> lo + nodes (vp_root vp) \<le> a \<longrightarrow> h a = cnodes w a"
    "ttl = None \<and> bl = blocks w \<or> ttl = Some (brk w) \<and> bl = (blocks w)(brk w \<mapsto> Chars (vp_title vp @ [NUL]))"
    "go_tree g None (gbrk w) (vp_root vp)"
proof -
  let ?t = "vp_root vp"
  have "brk w + nodes ?t + (if vp_title vp = [] then 1 else 2) \<le> mem_limit" using room(1) by auto
  from C_Stop [OF pr title stop this] obtain pf ttl lo bl h where C:
    "C_CPUProfilerStopProfiling A p tstr w = Ok (Some pf) (w\<lparr>v8 := e2, brk := Suc pf, blocks := bl, cnodes := h,
       cprofiles := (cprofiles w)(pf \<mapsto> c_profile vp ttl lo)\<rparr>)"
    and pf: "pf = lo + nodes ?t" "brk w \<le> lo" and h: "c_tree h lo ?t" "\<forall>a. a < lo \<or> pf \<le> a \<longrightarrow> h a = cnodes w a"
    and ttl: "vp_title vp = [] \<and> ttl = None \<and> bl = blocks w \<or>
      ttl = Some (brk w) \<and> lo = Suc (brk w) \<and> bl = (blocks w)(brk w \<mapsto> Chars (vp_title vp @ [NUL]))" .
  define w2 where "w2 = w\<lparr>v8 := e2, brk := Suc pf, blocks := bl, cnodes := h, cprofiles := (cprofiles w)(pf \<mapsto> c_profile vp ttl lo)\<rparr>"
  have str: "GoString ttl w2 = Ok (c_str (vp_title vp)) w2"
    using ttl by (auto simp: w2_def GoString_def read_cstr_def)
  have w2: "cprofiles w2 pf = Some (c_profile vp ttl lo)" "c_tree (cnodes w2) lo ?t" "nodes ?t \<le> brk w2"
    "nodes ?t \<le> 2 ^ 28" "gbrk w2 + nodes ?t \<le> mem_limit" and g: "gbrk w2 = gbrk w"
    using h(1) pf room(2,3) by (simp_all add: w2_def)
  from go_profile_Ok [OF w2 str, unfolded g] obtain g where g:
    "go_profile (Some pf) w2 = Ok (stopped_profile vp pf (gbrk w)) (w2\<lparr>gbrk := gbrk w + nodes ?t, gnodes := g\<rparr>)"
    "go_tree g None (gbrk w) ?t" .
  have "bindR (C_CPUProfilerStopProfiling A p tstr w) (\<lambda>profile w. go_profile profile w) = go_profile (Some pf) w2"
    by (simp add: C w2_def)
  note eq = trans [OF this g(1), unfolded w2_def pf(1)]
  show thesis by (rule that [OF eq pf(2) h(1) h(2) [unfolded pf(1)] _ g(2)]) (use ttl in blast)
qed

lemma StopProfiling_Ok:
  assumes "stoppable A c title vp w"
  obtains lo ttl bl h g e where
    "StopProfiling A c title w = Ok (stopped_profile vp (lo + nodes (vp_root vp)) (gbrk w))
       (w\<lparr>v8 := e, brk := Suc (lo + nodes (vp_root vp)), blocks := bl, cnodes := h,
          cprofiles := (cprofiles w)(lo + nodes (vp_root vp) \<mapsto> c_profile vp ttl lo),
          gbrk := gbrk w + nodes (vp_root vp), gnodes := g\<rparr>)"
    "brk w < lo" "c_tree h lo (vp_root vp)" "\<forall>a. a < lo \<or> lo + nodes (vp_root vp) \<le> a \<longrightarrow> h a = cnodes w a"
    "ttl = None \<and> bl = blocks w \<or> ttl = Some (Suc (brk w)) \<and> bl = (blocks w)(Suc (brk w) \<mapsto> Chars (vp_title vp @ [NUL]))"
    "go_tree g None (gbrk w) (vp_root vp)"
proof -
  from assms obtain p i j e1 ts e2 g0 pr where c: "gp_p c = Some p" "gisos w (gp_iso c) = Some g0" "i_ptr g0 \<noteq> None"
    and pr: "cprofilers w p = Some pr" "pr_iso pr = Some i" "pr_ptr pr = Some j" "isolates w i \<noteq> None"
    and ts: "v8_new_utf8 A i (c_str title) (v8 w) = (e1, Some ts)" and vp: "v8_profiler_stop A j ts e1 = (e2, Some vp)"
    and room: "brk w + nodes (vp_root vp) + 3 \<le> mem_limit" "gbrk w + nodes (vp_root vp) \<le> mem_limit" "nodes (vp_root vp) \<le> 2 ^ 28"
    and ok: "heap_ok w"
    unfolding stoppable_def by blast
  let ?t = "vp_root vp"
  define w1 where "w1 = w\<lparr>brk := Suc (brk w), blocks := (blocks w)(brk w \<mapsto> Chars (title @ [NUL]))\<rparr>"
  have w1: "cprofilers w1 p = Some pr" "isolates w1 i \<noteq> None" "read_cstr (brk w) w1 = Some (c_str title)"
    "v8_new_utf8 A i (c_str title) (v8 w1) = (e1, Some ts)" "brk w1 + nodes ?t + 2 \<le> mem_limit"
    "gbrk w1 + nodes ?t \<le> mem_limit" and sel: "gbrk w1 = gbrk w" "brk w1 = Suc (brk w)"
    "blocks w1 = (blocks w)(brk w \<mapsto> Chars (title @ [NUL]))" "cnodes w1 = cnodes w"
    using pr ts room by (simp_all add: w1_def)
  from stop_body [OF w1(1) pr(2,3) w1(2-4) vp w1(5,6) room(3)] obtain lo ttl bl h g where body:
    "bindR (C_CPUProfilerStopProfiling A p (brk w) w1) (\<lambda>profile w. go_profile profile w) =
       Ok (stopped_profile vp (lo + nodes ?t) (gbrk w1))
         (w1\<lparr>v8 := e2, brk := Suc (lo + nodes ?t), blocks := bl, cnodes := h,
            cprofiles := (cprofiles w1)(lo + nodes ?t \<mapsto> c_profile vp ttl lo),
            gbrk := gbrk w1 + nodes ?t, gnodes := g\<rparr>)"
    and lo: "brk w1 \<le> lo" and h: "c_tree h lo ?t" "\<forall>a. a < lo \<or> lo + nodes ?t \<le> a \<longrightarrow> h a = cnodes w1 a"
    and bl: "ttl = None \<and> bl = blocks w1 \<or> ttl = Some (brk w1) \<and> bl = (blocks w1)(brk w1 \<mapsto> Chars (vp_title vp @ [NUL]))"
    and g: "go_tree g None (gbrk w1) ?t" .
  have free: "blocks w (brk w) = None" using ok by (simp add: heap_ok_def fresh_ok_def)
  have live: "bl (brk w) \<noteq> None" using bl by (auto simp: sel)
  have bl': "ttl = None \<and> bl(brk w := None) = blocks w \<or>
      ttl = Some (Suc (brk w)) \<and> bl(brk w := None) = (blocks w)(Suc (brk w) \<mapsto> Chars (vp_title vp @ [NUL]))"
    using bl free by (auto simp: sel fun_upd_twist fun_upd_idem)
  note call = withCString_Ok [where w = w and s = title and
      body = "\<lambda>tstr w. bindR (C_CPUProfilerStopProfiling A p tstr w) (\<lambda>profile w. go_profile profile w)",
      OF _ body [unfolded w1_def]]
  have "StopProfiling A c title w = Ok (stopped_profile vp (lo + nodes ?t) (gbrk w))
       (w\<lparr>v8 := e2, brk := Suc (lo + nodes ?t), blocks := bl(brk w := None), cnodes := h,
          cprofiles := (cprofiles w)(lo + nodes ?t \<mapsto> c_profile vp ttl lo),
          gbrk := gbrk w + nodes ?t, gnodes := g\<rparr>)"
    using call room live c by (simp add: StopProfiling_def profiler_guard_def with_isolate_def)
  then show thesis by (rule that) (use lo h g bl' sel in auto)
qed

lemma CPUProfile_Delete_stopped:
  assumes "stoppable A c title vp w" "StopProfiling A c title w = Ok pf w'"
  shows "\<exists>w''. CPUProfile_Delete A pf w' = Ok (pf\<lparr>pf_p := None\<rparr>) w'' \<and>
     cnodes w'' = cnodes w \<and> cprofiles w'' = cprofiles w \<and> blocks w'' = blocks w"
proof -
  let ?t = "vp_root vp"
  from assms(1) obtain lo ttl bl h g e where
    stop: "StopProfiling A c title w = Ok (stopped_profile vp (lo + nodes ?t) (gbrk w))
       (w\<lparr>v8 := e, brk := Suc (lo + nodes ?t), blocks := bl, cnodes := h,
          cprofiles := (cprofiles w)(lo + nodes ?t \<mapsto> c_profile vp ttl lo),
          gbrk := gbrk w + nodes ?t, gnodes := g\<rparr>)"
    and lo: "brk w < lo" and h: "c_tree h lo ?t" "\<forall>a. a < lo \<or> lo + nodes ?t \<le> a \<longrightarrow> h a = cnodes w a"
    and ttl: "ttl = None \<and> bl = blocks w \<or> ttl = Some (Suc (brk w)) \<and> bl = (blocks w)(Suc (brk w) \<mapsto> Chars (vp_title vp @ [NUL]))"
    and "go_tree g None (gbrk w) ?t" by (rule StopProfiling_Ok)
  have ok: "heap_ok w" using assms(1) by (simp add: stoppable_def)
  have fresh: "cprofiles w a = None" "cnodes w a = None" "blocks w a = None" if "brk w \<le> a" for a
    using ok that by (simp_all add: heap_ok_def fresh_ok_def)
  from stop assms(2) have pf: "pf = stopped_profile vp (lo + nodes ?t) (gbrk w)"
    and w': "cprofiles w' = (cprofiles w)(lo + nodes ?t \<mapsto> c_profile vp ttl lo)" "cnodes w' = h" "blocks w' = bl"
      "brk w' = Suc (lo + nodes ?t)" by auto
  let ?bl = "case ttl of None \<Rightarrow> bl | Some a \<Rightarrow> bl(a := None)"
  have "C_CPUProfileDelete A (lo + nodes ?t) w' = Ok () (w'\<lparr>v8 := v8_profile_delete A (vp_ptr vp) (v8 w'),
     blocks := ?bl, cnodes := without {lo..<lo + nodes ?t} h, cprofiles := (cprofiles w')(lo + nodes ?t := None)\<rparr>)"
    using C_CPUProfileDelete_Ok [of w' "lo + nodes ?t" "c_profile vp ttl lo" "vp_ptr vp" lo ?t A] w' h(1) ttl
    by (auto simp: c_profile_def)
  moreover have "(cprofiles w')(lo + nodes ?t := None) = cprofiles w"
    using fresh [of "lo + nodes ?t"] lo by (auto simp: w' fun_eq_iff)
  moreover have "without {lo..<lo + nodes ?t} h = cnodes w"
  proof
    fix a show "without {lo..<lo + nodes ?t} h a = cnodes w a"
      using h(2) fresh [of a] lo by (cases "a < lo \<or> lo + nodes ?t \<le> a") (auto simp: restrict_map_def)
  qed
  moreover have "?bl = blocks w" using ttl fresh [of "Suc (brk w)"] by (auto simp: fun_eq_iff)
  ultimately show ?thesis by (simp add: CPUProfile_Delete_def pf stopped_profile_def)
qed

lemma milliseconds_eq:
  assumes "0 \<le> t" "t * 1000000 < 2 ^ 63"
  shows "milliseconds t = t * 1000000"
proof -
  have "t < 2 ^ 63" using assms by linarith
  then have "c_long t = t" using assms(1) by (intro c_long_id) auto
  then show ?thesis using assms by (simp add: milliseconds_def c_long_id)
qed

end
