(* ===== verification/Balance.thy ===== *)
theory Balance
  imports Promises Scripts Profiler
begin

text \<open>
  The C heap of the binding is balanced. \<open>clean bl w\<close> says that the state satisfies the
  invariant and that its allocated blocks are exactly \<open>bl\<close>. Every operation of the Go API,
  started in such a state, leaves the same blocks when it returns and when it panics: a string
  made for a call, an error text, a returned string, the words of a big integer and the data of
  a code cache are freed exactly once on every path. The exceptions are StopProfiling, which
  hands the title of the profile to \<open>Delete\<close>, and Delete itself, which frees it.
\<close>

section \<open>Clean states\<close>

definition clean :: "(addr \<Rightarrow> block option) \<Rightarrow> ('e, 'j, 'cb) world \<Rightarrow> bool" where
  "clean bl w \<longleftrightarrow> world_ok w \<and> blocks w = bl"

named_theorems clean_intros \<open>operations that leave the C blocks as they found them\<close>

text \<open>The closures of the client are clean, too.\<close>

definition bodies_clean :: "('e, 'j, 'cb) bodies \<Rightarrow> bool" where
  "bodies_clean B \<longleftrightarrow> (\<forall>cb info bl w. clean bl w \<longrightarrow> keeps (clean bl) (B cb info w))"

lemma bodies_clean_ok:
  fixes B :: "('e, 'j, 'cb) bodies"
  assumes "bodies_clean B"
  shows "bodies_ok B"
proof -
  have "keeps world_ok (B cb info w)" if "world_ok w" for cb info and w :: "('e, 'j, 'cb) world"
  proof -
    have "keeps (clean (blocks w)) (B cb info w)" using assms that by (simp add: bodies_clean_def clean_def)
    then show ?thesis by (rule holds_mono) (simp_all add: clean_def)
  qed
  then show ?thesis by (simp add: bodies_ok_def)
qed

lemma clean_same:
  assumes "clean bl w" "keeps world_ok m" "holds (\<lambda>_ w'. blocks w' = blocks w) (\<lambda>w'. blocks w' = blocks w) m"
  shows "keeps (clean bl) m"
  using assms by (cases m) (auto simp: clean_def)

lemma clean_world: "clean bl w \<Longrightarrow> world_ok w"
  by (simp add: clean_def)

section \<open>Building blocks\<close>

lemma clean_ask [clean_intros]: "clean bl w \<Longrightarrow> keeps (clean bl) (ask f w)"
  by (simp add: ask_def case_prod_beta Let_def clean_def)

lemma clean_tell [clean_intros]: "clean bl w \<Longrightarrow> keeps (clean bl) (tell f w)"
  by (simp add: tell_def clean_def)

lemma clean_checked [clean_intros]: "keeps (clean bl) m \<Longrightarrow> keeps (clean bl) (checked m)"
  unfolding checked_def by (erule keeps_bindR) (auto split: option.splits)

lemma clean_new_value [clean_intros]: "clean bl w \<Longrightarrow> keeps (clean bl) (new_value i c j w)"
  by (rule clean_same [OF _ world_new_value [OF clean_world]])
     (auto simp: new_value_def c_new_def tracked_value_def track_def Let_def c_deref_def split: option.splits)

lemma clean_go_new [clean_intros]: "clean bl w \<Longrightarrow> keeps (clean bl) (go_new w)"
  by (auto simp: go_new_def clean_def intro: world_gbrk)

lemma clean_c_new [clean_intros]: "clean bl w \<Longrightarrow> keeps (clean bl) (c_new w)"
  by (auto simp: c_new_def clean_def intro: world_brk)

lemma clean_scopes [clean_intros]:
  "(\<And>i. holds Q R (k1 i w)) \<Longrightarrow> holds Q R (isolate_scope p k1 w)"
  "(\<And>i c. holds Q R (k2 i c w)) \<Longrightarrow> holds Q R (internal_scope p k2 w)"
  "(\<And>i c j. holds Q R (k3 i c j w)) \<Longrightarrow> holds Q R (local_context p k3 w)"
  "(\<And>i c j v. holds Q R (k4 i c j v w)) \<Longrightarrow> holds Q R (local_value p k4 w)"
  "(\<And>i j. holds Q R (k5 i j w)) \<Longrightarrow> holds Q R (local_template p k5 w)"
  by (auto simp: isolate_scope_def internal_scope_def local_context_def local_value_def local_template_def
      split: option.splits)

lemma clean_structs [clean_intros]:
  assumes "R w"
  shows "(\<And>i. holds Q R (k1 i w)) \<Longrightarrow> holds Q R (with_isolate a k1 w)"
    "(\<And>c. holds Q R (k2 c w)) \<Longrightarrow> holds Q R (with_context a k2 w)"
    "(\<And>t. holds Q R (k3 t w)) \<Longrightarrow> holds Q R (with_template a k3 w)"
  using assms by (auto simp: with_isolate_def with_context_def with_template_def split: option.splits)

lemma clean_get_handle [clean_intros]: "clean bl w \<Longrightarrow> keeps (clean bl) (get_handle p w)"
  by (auto simp: get_handle_def split: option.splits)

lemma clean_utf8_arg [clean_intros]: "clean bl w \<Longrightarrow> keeps (clean bl) (utf8_arg A i p w)"
  unfolding utf8_arg_def by (intro holds_intros clean_intros | simp)+

lemma clean_GoString [clean_intros]: "clean bl w \<Longrightarrow> keeps (clean bl) (GoString p w)" "clean bl w \<Longrightarrow> keeps (clean bl) (GoStringN p n w)"
  by (auto simp: GoString_def GoStringN_def split: option.splits block.splits)

lemma clean_goContext [clean_intros]: "clean bl w \<Longrightarrow> keeps (clean bl) (goContext ref w)"
  by (auto simp: goContext_def split: option.splits)

lemma clean_new_values [clean_intros]: "clean bl w \<Longrightarrow> keeps (clean bl) (new_values i c js w)"
  by (induction js arbitrary: w) (auto intro!: keeps_bindR clean_new_value)

lemma clean_callback:
  assumes B: "bodies_clean B" and w: "clean bl w"
  shows "keeps (clean bl) (FunctionTemplateCallback B isop cr cbr this args w)"
proof -
  have body: "clean bl w \<Longrightarrow> keeps (clean bl) (B cb info w)" for cb info w using B by (simp add: bodies_clean_def)
  have go: "keeps (clean bl) (goFunctionCallback B cr cbr ps n w)" if "clean bl w" for ps n w
    unfolding goFunctionCallback_def by (intro holds_intros body that | assumption)+
  show ?thesis
    unfolding FunctionTemplateCallback_def using w
    by (intro holds_intros clean_goContext clean_new_values go) (auto split: option.splits)
qed

lemma clean_run_js: "bodies_clean B \<Longrightarrow> clean bl w \<Longrightarrow> keeps (clean bl) (run_js B i t w)"
proof (induction t arbitrary: w)
  case (Done e r)
  then show ?case by (simp add: clean_def)
next
  case (CallGo e cr cbr this args k)
  have "clean bl (w\<lparr>v8 := e\<rparr>)" using CallGo.prems(2) by (simp add: clean_def)
  from clean_callback [OF CallGo.prems(1) this] show ?case
    using CallGo.IH [OF rangeI rangeI CallGo.prems(1)] by (auto intro!: keeps_bindR)
qed

lemma clean_run [clean_intros]: "bodies_clean (closures A) \<Longrightarrow> clean bl w \<Longrightarrow> keeps (clean bl) (run A i t w)"
  unfolding run_def by (rule clean_run_js)

section \<open>Strings\<close>

text \<open>A string made for the call and freed when the function is left, by return or by panic.\<close>

lemma clean_fresh: "clean bl w \<Longrightarrow> bl (brk w) = None"
  using heap_okD_fresh [of w "brk w"] by (auto simp: clean_def world_ok_def)

lemma clean_CString:
  "clean bl w \<Longrightarrow> holds (\<lambda>p w'. bl p = None \<and> clean (bl(p \<mapsto> Chars (s @ [NUL]))) w') (\<lambda>_. False) (CString s w)"
proof (cases "brk w < mem_limit")
  case True
  assume c: "clean bl w"
  have "world_ok (w\<lparr>brk := Suc (brk w), blocks := (blocks w)(brk w \<mapsto> Chars (s @ [NUL]))\<rparr>)"
    using world_malloc [of w "Chars (s @ [NUL])"] c True by (simp add: malloc_def c_new_def clean_def)
  then show ?thesis using c True clean_fresh [OF c] by (simp add: CString_def malloc_def c_new_def clean_def)
qed (simp add: CString_def malloc_def c_new_def)

lemma clean_defer_free:
  assumes "keeps (clean (bl(p \<mapsto> b))) m" "bl p = None"
  shows "keeps (clean bl) (defer_free (Some p) m)"
proof -
  have cfree: "\<exists>w'. cfree (Some p) w = Ok () w' \<and> clean bl w'" if "clean (bl(p \<mapsto> b)) w" for w :: "('x, 'y, 'z) world"
  proof -
    have "keeps world_ok (cfree (Some p) w)" using that by (intro world_cfree) (simp add: clean_def)
    moreover have "bl(p := None) = bl" using assms(2) by (simp add: fun_upd_idem)
    ultimately show ?thesis using that by (auto simp: cfree_def clean_def)
  qed
  show ?thesis
  proof (cases m)
    case (Ok a w)
    with assms(1) cfree [of w] show ?thesis by auto
  next
    case (Fault f w)
    with assms(1) cfree [of w] show ?thesis by (cases "recoverable f") auto
  qed
qed

lemma clean_withCString [clean_intros]:
  fixes w :: "('e, 'j, 'cb) world"
  assumes w: "clean bl w" and body: "\<And>p bl w. clean bl w \<Longrightarrow> keeps (clean bl) (body p w)"
  shows "keeps (clean bl) (withCString s body w)"
  unfolding withCString_def
proof (rule holds_bindR)
  show "holds (\<lambda>p w'. bl p = None \<and> clean (bl(p \<mapsto> Chars (s @ [NUL]))) w') (clean bl) (CString s w)"
    by (rule holds_mono [OF clean_CString [OF w]]) auto
  fix p and w' :: "('e, 'j, 'cb) world"
  assume "bl p = None \<and> clean (bl(p \<mapsto> Chars (s @ [NUL]))) w'"
  then show "keeps (clean bl) (defer_free (Some p) (body p w'))"
    by (intro clean_defer_free [where b = "Chars (s @ [NUL])"] body) auto
qed

lemma clean_two_strings [clean_intros]:
  fixes w :: "('e, 'j, 'cb) world"
  assumes w: "clean bl w" and body: "\<And>p q bl w. clean bl w \<Longrightarrow> keeps (clean bl) (body p q w)"
  shows "keeps (clean bl) (bindR (CString s w) (\<lambda>p w. bindR (CString t w) (\<lambda>q w.
     defer_free (Some p) (defer_free (Some q) (body p q w)))))"
proof (rule holds_bindR)
  show "holds (\<lambda>p w'. bl p = None \<and> clean (bl(p \<mapsto> Chars (s @ [NUL]))) w') (clean bl) (CString s w)"
    by (rule holds_mono [OF clean_CString [OF w]]) auto
  fix p and w1 :: "('e, 'j, 'cb) world"
  let ?bl = "bl(p \<mapsto> Chars (s @ [NUL]))"
  assume p: "bl p = None \<and> clean ?bl w1"
  show "keeps (clean bl) (bindR (CString t w1) (\<lambda>q w. defer_free (Some p) (defer_free (Some q) (body p q w))))"
  proof (rule holds_bindR)
    show "holds (\<lambda>q w'. ?bl q = None \<and> clean (?bl(q \<mapsto> Chars (t @ [NUL]))) w') (clean bl) (CString t w1)"
      by (rule holds_mono [OF clean_CString [of ?bl w1 t]]) (use p in auto)
    fix q and w2 :: "('e, 'j, 'cb) world"
    assume q: "?bl q = None \<and> clean (?bl(q \<mapsto> Chars (t @ [NUL]))) w2"
    then have "keeps (clean ?bl) (defer_free (Some q) (body p q w2))"
      by (intro clean_defer_free [where b = "Chars (t @ [NUL])"] body) auto
    then show "keeps (clean bl) (defer_free (Some p) (defer_free (Some q) (body p q w2)))"
      using p by (intro clean_defer_free) auto
  qed
qed

section \<open>Errors\<close>

text \<open>
  The result of a C function that returns an \<open>RtnValue\<close>: a value and no new block, or the
  blocks of an exception and nothing else.
\<close>

definition owes :: "(addr \<Rightarrow> block option) \<Rightarrow> RtnError \<Rightarrow> ('e, 'j, 'cb) world \<Rightarrow> bool" where
  "owes bl e w \<longleftrightarrow> (\<exists>x w1. clean bl w1 \<and> ExceptionError x w1 = Ok e w)"

definition rtn_owes :: "(addr \<Rightarrow> block option) \<Rightarrow> RtnValue \<Rightarrow> ('e, 'j, 'cb) world \<Rightarrow> bool" where
  "rtn_owes bl rtn w \<longleftrightarrow> (if rtn_value rtn = None then owes bl (rtn_error rtn) w else clean bl w)"

abbreviation rtn_clean :: "(addr \<Rightarrow> block option) \<Rightarrow> (RtnValue, ('e, 'j, 'cb) world) res \<Rightarrow> bool" where
  "rtn_clean bl \<equiv> holds (rtn_owes bl) (clean bl)"

lemma clean_newJSError: "owes bl e w \<Longrightarrow> keeps (clean bl) (newJSError e w)"
proof -
  assume "owes bl e w"
  then obtain x w1 where w1: "clean bl w1" "ExceptionError x w1 = Ok e w" by (auto simp: owes_def)
  then have "newJSError e w = Ok (JSErr (js_error_of x)) (w1\<lparr>brk := brk w1 + strings_of x\<rparr>)"
    by (intro newJSError_ExceptionError) (auto simp: clean_def world_ok_def)
  moreover have "keeps world_ok (newJSError e w)"
    using world_ExceptionError [of w1 x] w1 by (intro world_newJSError) (simp add: clean_def)
  ultimately show ?thesis using w1(1) by (simp add: clean_def)
qed

lemma clean_ExceptionError: "clean bl w \<Longrightarrow> holds (owes bl) (clean bl) (ExceptionError x w)"
  by (cases "ExceptionError x w") (auto simp: owes_def dest: ExceptionError_Fault)

lemma clean_raised: "bodies_clean (closures A) \<Longrightarrow> clean bl w \<Longrightarrow> holds (owes bl) (clean bl) (raised A i w)"
  unfolding raised_def by (intro keeps_bindR clean_run clean_ExceptionError)

lemma rtn_clean_fail [clean_intros]: "bodies_clean (closures A) \<Longrightarrow> clean bl w \<Longrightarrow> rtn_clean bl (fail_value A i w)"
  unfolding fail_value_def by (rule holds_bindR [OF clean_raised]) (auto simp: rtn_owes_def)

lemma rtn_clean_give [clean_intros]: "clean bl w \<Longrightarrow> rtn_clean bl (give_value i c j w)"
  unfolding give_value_def by (rule holds_bindR [OF clean_new_value]) (auto simp: rtn_owes_def)

lemma rtn_clean_rtn_of [clean_intros]: "bodies_clean (closures A) \<Longrightarrow> clean bl w \<Longrightarrow> rtn_clean bl (rtn_of A i c r w)"
  unfolding rtn_of_def by (cases r) (auto intro: rtn_clean_fail rtn_clean_give)

lemma clean_valueResult [clean_intros]:
  assumes "rtn_clean bl m"
  shows "keeps (clean bl) (bindR m (\<lambda>rtn w. valueResult c rtn w))"
    "keeps (clean bl) (bindR m (\<lambda>rtn w. objectResult c rtn w))"
proof -
  have "keeps (clean bl) (valueResult c rtn w) \<and> keeps (clean bl) (objectResult c rtn w)"
    if "rtn_owes bl rtn w" for rtn w
    using that unfolding valueResult_def objectResult_def rtn_owes_def
    by (cases "rtn_value rtn") (auto intro!: keeps_bindR clean_newJSError)
  then show "keeps (clean bl) (bindR m (\<lambda>rtn w. valueResult c rtn w))"
    "keeps (clean bl) (bindR m (\<lambda>rtn w. objectResult c rtn w))"
    using assms by (auto intro: holds_bindR)
qed

section \<open>Results that own a block\<close>

text \<open>A pointer that is null, or a block of its own that is all that is new.\<close>

definition owns :: "(addr \<Rightarrow> block option) \<Rightarrow> addr option \<Rightarrow> ('e, 'j, 'cb) world \<Rightarrow> bool" where
  "owns bl p w \<longleftrightarrow> (case p of None \<Rightarrow> clean bl w | Some a \<Rightarrow> bl a = None \<and> (\<exists>b. clean (bl(a \<mapsto> b)) w))"

lemma owns_malloc: "clean bl w \<Longrightarrow> holds (\<lambda>a w'. owns bl (Some a) w') (\<lambda>_. False) (malloc b w)"
proof (cases "brk w < mem_limit")
  case True
  assume c: "clean bl w"
  have "world_ok (w\<lparr>brk := Suc (brk w), blocks := (blocks w)(brk w \<mapsto> b)\<rparr>)"
    using world_malloc [of w b] c True by (simp add: malloc_def c_new_def clean_def)
  then show ?thesis using c True clean_fresh [OF c] by (auto simp: malloc_def c_new_def clean_def owns_def)
qed (simp add: malloc_def c_new_def)

lemma owns_defer_free:
  assumes "owns bl p w" and "\<And>bl. clean bl w \<Longrightarrow> keeps (clean bl) (m w)"
  shows "keeps (clean bl) (defer_free p (m w))"
proof (cases p)
  case None
  with assms have "keeps (clean bl) (m w)" by (simp add: owns_def)
  with None show ?thesis by (cases "m w") (auto simp: cfree_def)
next
  case (Some a)
  with assms(1) obtain b where "bl a = None" "clean (bl(a \<mapsto> b)) w" by (auto simp: owns_def)
  with assms(2) Some show ?thesis by (auto intro: clean_defer_free)
qed

lemma owns_CopyUtf8: "clean bl w \<Longrightarrow> holds (owns bl) (\<lambda>_. False) (CopyUtf8 s w)"
  unfolding CopyUtf8_def CopyString_def
  by (auto simp: owns_def [of bl None] intro: holds_bindR [OF owns_malloc])

lemma holds_weaken: "holds Q (\<lambda>_. False) m \<Longrightarrow> holds Q R m"
  by (cases m) auto

section \<open>Values\<close>

lemma clean_primitive [clean_intros]: "clean bl w \<Longrightarrow> keeps (clean bl) (C_new_primitive f p w)"
  unfolding C_new_primitive_def by (intro holds_intros clean_intros | assumption)+

lemma clean_plain_value [clean_intros]: "keeps (clean bl) m \<Longrightarrow> keeps (clean bl) (plain_value m)"
  unfolding plain_value_def by (erule keeps_bindR) simp

lemma clean_or_panic [clean_intros]: "keeps (clean bl) m \<Longrightarrow> keeps (clean bl) (or_panic m)"
  unfolding or_panic_def by (erule keeps_bindR) (auto split: sum.splits)

lemma clean_NewValue_BigInt [clean_intros]:
  "bodies_clean (closures A) \<Longrightarrow> clean bl w \<Longrightarrow> keeps (clean bl) (NewValue_BigInt A p v w)"
  unfolding NewValue_BigInt_def C_primitive_defs C_NewValueBigIntFromWords_def
  by (intro holds_intros clean_intros | assumption)+

lemma clean_NewValue [clean_intros]:
  "bodies_clean (closures A) \<Longrightarrow> clean bl w \<Longrightarrow> keeps (clean bl) (NewValue A p v w)"
  unfolding NewValue_def C_primitive_defs C_NewValueString_def
  by (intro holds_intros clean_intros | assumption)+

lemma clean_ArrayIndex [clean_intros]:
  assumes A: "bodies_clean (closures A)" and w: "clean bl w"
  shows "keeps (clean bl) (ArrayIndex A v w)"
proof -
  have "holds (owns bl) (clean bl) (C_ValueToArrayIndex A (v_ptr v) w)"
    unfolding C_ValueToArrayIndex_def
    by (intro holds_intros clean_intros A w holds_bindR [OF holds_weaken [OF owns_malloc]] | simp add: owns_def | assumption)+
  then show ?thesis
    unfolding ArrayIndex_def
    by (rule holds_bindR) (erule owns_defer_free, (intro holds_intros | assumption)+)
qed

lemma clean_BigInt [clean_intros]:
  assumes A: "bodies_clean (closures A)" and w: "clean bl w"
  shows "keeps (clean bl) (BigInt A v w)"
proof -
  have "holds (\<lambda>r. owns bl (word_array r)) (clean bl) (C_ValueToBigInt A p w)" for p
    unfolding C_ValueToBigInt_def
    by (intro holds_intros clean_intros A w holds_bindR [OF holds_weaken [OF owns_malloc]] | simp add: owns_def | assumption)+
  note C = holds_bindR [OF this]
  show ?thesis
    unfolding BigInt_def
    by (intro holds_intros w C | erule owns_defer_free | assumption)+
qed

lemma clean_String [clean_intros]:
  assumes A: "bodies_clean (closures A)" and w: "clean bl w"
  shows "keeps (clean bl) (String A v w)"
proof -
  have "holds (\<lambda>r. owns bl (rs_data r)) (clean bl) (C_ValueToString A (v_ptr v) w)"
    unfolding C_ValueToString_def
    by (intro holds_intros clean_intros A w holds_bindR [OF holds_weaken [OF owns_malloc]] | simp add: owns_def | assumption)+
  note C = holds_bindR [OF this]
  show ?thesis
    unfolding String_def by (intro C clean_intros | erule owns_defer_free | assumption)+
qed

text \<open>An exception with no text at all owes nothing, like the empty error of an empty string.\<close>

lemma owes_no_error: "clean bl w \<Longrightarrow> owes bl no_error w"
  unfolding owes_def
  by (intro exI [of _ "\<lparr>ex_terminated = False, ex_exception = [], ex_message = None, ex_stack = None\<rparr>"] exI [of _ w])
     (simp add: ExceptionError_def CopyUtf8_def)

lemma clean_DetailString [clean_intros]:
  assumes A: "bodies_clean (closures A)" and w: "clean bl w"
  shows "keeps (clean bl) (DetailString A v w)"
proof -
  let ?Q = "\<lambda>r w. if rs_data r = None then owes bl (rs_error r) w else owns bl (rs_data r) w"
  have copy: "holds ?Q (clean bl) (bindR (CopyUtf8 s w) (\<lambda>a w. Ok \<lparr>rs_data = a, rs_length = n, rs_error = no_error\<rparr> w))"
    if "clean bl w" for s n w
    by (rule holds_bindR [OF holds_weaken [OF owns_CopyUtf8 [OF that]]])
       (auto simp: owns_def intro: owes_no_error)
  have fail: "holds ?Q (clean bl) (bindR (raised A i w) (\<lambda>e w. Ok \<lparr>rs_data = None, rs_length = 0, rs_error = e\<rparr> w))"
    if "clean bl w" for i w
    by (rule holds_bindR [OF clean_raised [OF A that]]) simp
  have "holds ?Q (clean bl) (C_ValueToDetailString A (v_ptr v) w)"
    unfolding C_ValueToDetailString_def
    by (intro clean_scopes holds_bindR [OF clean_run [OF A w]]) (split option.split, intro conjI allI impI fail copy)
  then show ?thesis
    unfolding DetailString_def
  proof (rule holds_bindR)
    fix rtn w
    assume "?Q rtn w"
    then show "keeps (clean bl) (if rs_data rtn = None then bindR (newJSError (rs_error rtn) w) (\<lambda>err w. Fault (PanicErr err) w)
        else defer_free (rs_data rtn) (GoStringN (rs_data rtn) (rs_length rtn) w))"
      by (auto intro!: keeps_bindR [OF clean_newJSError] owns_defer_free clean_intros simp del: defer_free.simps split: if_splits)
  qed
qed

lemma clean_conversions [clean_intros]:
  assumes "bodies_clean (closures A)" "clean bl w"
  shows "keeps (clean bl) (Boolean A v w)" "keeps (clean bl) (Int32 A v w)" "keeps (clean bl) (Integer A v w)"
    "keeps (clean bl) (Number A v w)" "keeps (clean bl) (Uint32 A v w)" "keeps (clean bl) (Value_Object A v w)"
    "keeps (clean bl) (SameValue A v u w)"
proof -
  have ob: "Value_Object A v w = or_panic (bindR (C_ValueToObject A (v_ptr v) w) (\<lambda>rtn w. objectResult (v_ctx v) rtn w))"
    by (simp add: Value_Object_def or_panic_def bindR_assoc)
  show "keeps (clean bl) (Value_Object A v w)"
    unfolding ob C_ValueToObject_def by (intro holds_intros clean_intros assms | assumption)+
  show "keeps (clean bl) (Boolean A v w)" "keeps (clean bl) (Int32 A v w)" "keeps (clean bl) (Integer A v w)"
    "keeps (clean bl) (Number A v w)" "keeps (clean bl) (Uint32 A v w)" "keeps (clean bl) (SameValue A v u w)"
    unfolding Boolean_def C_ValueToBoolean_def Int32_def C_ValueToInt32_def Integer_def C_ValueToInteger_def
      Number_def C_ValueToNumber_def Uint32_def C_ValueToUint32_def SameValue_def C_ValueSameValue_def
    by (intro holds_intros clean_intros assms | assumption)+
qed

lemma clean_value_is [clean_intros]: "clean bl w \<Longrightarrow> keeps (clean bl) (value_is A pr v w)"
  unfolding value_is_def C_ValueIs_def by (intro holds_intros clean_intros | assumption)+

lemma clean_casts [clean_intros]:
  assumes "clean bl w"
  shows "keeps (clean bl) (IsObject A v w)" "keeps (clean bl) (IsExternal A v w)" "keeps (clean bl) (AsFunction A v w)"
  unfolding AsFunction_def IsObject_def IsExternal_def IsFunction_def
  by (intro holds_intros clean_intros assms | assumption)+

lemma clean_Value_Release [clean_intros]: "clean bl w \<Longrightarrow> keeps (clean bl) (Value_Release v w)"
  unfolding Value_Release_def
  by (rule clean_same [OF _ world_C_ValueRelease [OF clean_world]])
     (auto simp: C_ValueRelease_def c_deref_def split: option.splits)

section \<open>Functions and objects\<close>

lemma clean_get_handles [clean_intros]: "clean bl w \<Longrightarrow> keeps (clean bl) (get_handles ps w)"
  by (induction ps arbitrary: w) (auto intro!: keeps_bindR clean_get_handle)

lemma clean_buildCallArguments [clean_intros]: "clean bl w \<Longrightarrow> keeps (clean bl) (buildCallArguments n ps w)"
  unfolding buildCallArguments_def by (intro holds_intros clean_intros | simp)+

lemma clean_calls [clean_intros]:
  assumes "bodies_clean (closures A)" "clean bl w"
  shows "keeps (clean bl) (Function_Call A fn v args w)" "keeps (clean bl) (Function_NewInstance A fn args w)"
    "keeps (clean bl) (SourceMapURL A fn w)"
  unfolding Function_Call_def C_FunctionCall_def Function_NewInstance_def C_FunctionNewInstance_def
    SourceMapURL_def C_FunctionSourceMapUrl_def
  by (intro holds_intros clean_intros assms | assumption)+

lemma rtn_clean_ObjectGet [clean_intros]:
  "bodies_clean (closures A) \<Longrightarrow> clean bl w \<Longrightarrow> rtn_clean bl (C_ObjectGet A p key w)"
  unfolding C_ObjectGet_def by (intro holds_intros clean_intros | assumption)+

lemma clean_object_reads [clean_intros]:
  assumes "bodies_clean (closures A)" "clean bl w"
  shows "keeps (clean bl) (Object_Get A ob key w)"
    "keeps (clean bl) (Object_GetIdx A ob idx w)" "keeps (clean bl) (Object_Has A ob key w)"
    "keeps (clean bl) (Object_HasIdx A ob idx w)" "keeps (clean bl) (Object_Delete A ob key w)"
    "keeps (clean bl) (Object_DeleteIdx A ob idx w)"
  unfolding Object_Get_def Object_GetIdx_def C_ObjectGetIdx_def
    Object_Has_def C_ObjectHas_def Object_HasIdx_def C_ObjectHasIdx_def Object_Delete_def C_ObjectDelete_def
    Object_DeleteIdx_def C_ObjectDeleteIdx_def
  by (intro holds_intros clean_intros assms | assumption)+

lemma clean_MethodCall [clean_intros]:
  assumes A: "bodies_clean (closures A)" and w: "clean bl w"
  shows "keeps (clean bl) (MethodCall A ob key args w)"
proof -
  have "keeps (clean bl) (bindR (C_ObjectGet A p ckey w) (\<lambda>getRtn w. bindR (valueResult c getRtn w) (k p)))"
    if "clean bl w" "\<And>r w. clean bl w \<Longrightarrow> keeps (clean bl) (k p r w)" for bl w p ckey c k
  proof -
    have "keeps (clean bl) (bindR (bindR (C_ObjectGet A p ckey w) (\<lambda>getRtn w. valueResult c getRtn w)) (k p))"
      using that by (intro holds_intros clean_intros A)
    then show ?thesis by (simp add: bindR_assoc)
  qed
  note get = this
  show ?thesis
    unfolding MethodCall_def Let_def
    by (intro get holds_intros clean_intros w A | assumption)+
qed

lemma clean_object_iso [clean_intros]: "clean bl w \<Longrightarrow> keeps (clean bl) (object_iso ob w)"
  unfolding object_iso_def by (intro holds_intros clean_intros | assumption)+

lemma clean_value_ptr [clean_intros]: "clean bl w \<Longrightarrow> keeps (clean bl) (value_ptr v w)"
  unfolding value_ptr_def by (intro holds_intros | assumption)+

lemma clean_coerceValue [clean_intros]:
  "bodies_clean (closures A) \<Longrightarrow> clean bl w \<Longrightarrow> keeps (clean bl) (coerceValue A i val w)"
  unfolding coerceValue_def by (intro holds_intros clean_intros | assumption)+

lemma clean_index_panic [clean_intros]: "clean bl w \<Longrightarrow> keeps (clean bl) (index_panic A ob idx w)"
  unfolding index_panic_def Object_InternalFieldCount_def C_ObjectInternalFieldCount_def
  by (intro holds_intros clean_intros | assumption)+

lemma clean_object_writes [clean_intros]:
  assumes "bodies_clean (closures A)" "clean bl w"
  shows "keeps (clean bl) (Object_Set A ob key val w)" "keeps (clean bl) (Object_SetIdx A ob idx val w)"
    "keeps (clean bl) (SetInternalField A ob idx val w)" "keeps (clean bl) (GetInternalField A ob idx w)"
    "keeps (clean bl) (Object_InternalFieldCount A ob w)"
  unfolding Object_Set_def C_ObjectSet_def Object_SetIdx_def C_ObjectSetIdx_def SetInternalField_def
    C_ObjectSetInternalField_def GetInternalField_def C_ObjectGetInternalField_def
    Object_InternalFieldCount_def C_ObjectInternalFieldCount_def
  by (intro holds_intros clean_intros assms | assumption)+

section \<open>Templates\<close>

lemma clean_records [clean_intros]:
  assumes "clean bl w"
  shows "keeps (clean bl) (new_m_template i j w)" "keeps (clean bl) (new_template t w)"
    "keeps (clean bl) (new_cprofiler c w)" "keeps (clean bl) (new_unbound_script p j w)"
    "keeps (clean bl) (Isolate_registerCallback a cb w)" "keeps (clean bl) (template_finalizer x w)"
  by (intro clean_same [OF assms] world_intros clean_world [OF assms]; auto simp: new_m_template_def new_template_def
      new_cprofiler_def new_unbound_script_def tracked_unbound_script_def Isolate_registerCallback_def with_isolate_def
      template_finalizer_def with_template_def C_TemplateFreeWrapper_def c_new_def go_new_def Let_def case_prod_beta
      split: option.splits)+

lemma clean_new_templates [clean_intros]:
  assumes "clean bl w"
  shows "keeps (clean bl) (NewObjectTemplate A i w)" "keeps (clean bl) (NewFunctionTemplate A i cb w)"
  unfolding NewObjectTemplate_def C_NewObjectTemplate_def NewFunctionTemplate_def C_NewFunctionTemplate_def
  by (intro holds_intros clean_intros assms | assumption)+

lemma clean_C_TemplateSet [clean_intros]:
  assumes "clean bl w"
  shows "keeps (clean bl) (C_TemplateSetValue A p name val at w)" "keeps (clean bl) (C_TemplateSetTemplate A p name val at w)"
  unfolding C_TemplateSetValue_def C_TemplateSetTemplate_def
  by (intro holds_intros clean_intros assms | assumption)+

lemma clean_template_Set [clean_intros]:
  assumes "bodies_clean (closures A)" "clean bl w"
  shows "keeps (clean bl) (template_Set A t name val attributes w)"
  unfolding template_Set_def Let_def
  by (rule clean_withCString [OF assms(2)])
     (cases val; simp add: is_primitive_def; (intro holds_intros clean_intros assms | assumption)+)

lemma clean_instances [clean_intros]:
  assumes "bodies_clean (closures A)" "clean bl w"
  shows "keeps (clean bl) (ObjectTemplate_NewInstance A t c w)" "keeps (clean bl) (SetInternalFieldCount A t n w)"
    "keeps (clean bl) (ObjectTemplate_InternalFieldCount A t w)"
  unfolding ObjectTemplate_NewInstance_def C_ObjectTemplateNewInstance_def SetInternalFieldCount_def
    C_ObjectTemplateSetInternalFieldCount_def ObjectTemplate_InternalFieldCount_def
    C_ObjectTemplateInternalFieldCount_def
  by (intro holds_intros clean_intros assms | assumption)+

text \<open>A result that panics on an error.\<close>

lemma clean_or_panic_value:
  assumes "rtn_clean bl m" "\<And>v w. clean bl w \<Longrightarrow> keeps (clean bl) (k v w)"
  shows "keeps (clean bl) (bindR m (\<lambda>rtn w. bindR (or_panic (valueResult c rtn w)) k))"
proof -
  have "keeps (clean bl) (bindR (or_panic (bindR m (\<lambda>rtn w. valueResult c rtn w))) k)"
    using assms by (intro holds_intros clean_intros)
  then show ?thesis by (simp add: or_panic_def bindR_assoc)
qed

lemma clean_or_panic_object:
  assumes "rtn_clean bl m" "\<And>v w. clean bl w \<Longrightarrow> keeps (clean bl) (k v w)"
  shows "keeps (clean bl) (bindR m (\<lambda>rtn w. bindR (or_panic (objectResult c rtn w)) k))"
proof -
  have "keeps (clean bl) (bindR (or_panic (bindR m (\<lambda>rtn w. objectResult c rtn w))) k)"
    using assms by (intro holds_intros clean_intros)
  then show ?thesis by (simp add: or_panic_def bindR_assoc)
qed

lemma clean_GetFunction [clean_intros]:
  assumes "bodies_clean (closures A)" "clean bl w"
  shows "keeps (clean bl) (GetFunction A t ctx w)"
  unfolding GetFunction_def C_FunctionTemplateGetFunction_def
  by (intro clean_or_panic_value clean_structs holds_intros clean_intros assms | assumption)+

lemma clean_info_Release [clean_intros]: "clean bl w \<Longrightarrow> keeps (clean bl) (info_Release i w)"
proof -
  have "clean bl w \<Longrightarrow> keeps (clean bl) (release_all vs w)" for vs and w :: "('e, 'j, 'cb) world"
    by (induction vs arbitrary: w) (auto intro!: keeps_bindR clean_Value_Release)
  then show "clean bl w \<Longrightarrow> keeps (clean bl) (info_Release i w)"
    unfolding info_Release_def by (intro holds_intros clean_intros)
qed

section \<open>Promises and JSON\<close>

lemma clean_NewPromiseResolver [clean_intros]:
  assumes "bodies_clean (closures A)" "clean bl w"
  shows "keeps (clean bl) (NewPromiseResolver A ctx w)"
proof -
  have eq: "bindR m (\<lambda>rtn w. bindR (objectResult c rtn w) k) = bindR (bindR m (\<lambda>rtn w. objectResult c rtn w)) k"
    for m c k by (simp add: bindR_assoc)
  show ?thesis
    unfolding NewPromiseResolver_def C_NewPromiseResolver_def eq
    by (intro holds_intros clean_intros assms | assumption)+
qed

lemma clean_promises [clean_intros]:
  assumes "bodies_clean (closures A)" "clean bl w"
  shows "keeps (clean bl) (GetPromise A r w)" "keeps (clean bl) (Resolve A r val w)" "keeps (clean bl) (Reject A r val w)"
    "keeps (clean bl) (Promise_State A p w)" "keeps (clean bl) (Promise_Result A p w)"
  unfolding GetPromise_def C_PromiseResolverGetPromise_def Resolve_def C_PromiseResolverResolve_def
    Reject_def C_PromiseResolverReject_def Promise_State_def C_PromiseState_def Promise_Result_def C_PromiseResult_def
  by (intro holds_intros clean_intros assms | assumption)+

lemma clean_C_promise_calls [clean_intros]:
  assumes "bodies_clean (closures A)" "clean bl w"
  shows "rtn_clean bl (C_PromiseThen A p r w)" "rtn_clean bl (C_PromiseThen2 A p r s w)"
    "rtn_clean bl (C_PromiseCatch A p r w)"
  unfolding C_PromiseThen_def C_PromiseThen2_def C_PromiseCatch_def
  by (intro holds_intros clean_intros assms | assumption)+

lemma clean_chaining [clean_intros]:
  assumes "bodies_clean (closures A)" "clean bl w"
  shows "keeps (clean bl) (Then A p cs w)" "keeps (clean bl) (Promise_Catch A p cb w)"
  unfolding Then_def Promise_Catch_def promise_of_def
  by (intro clean_or_panic_object holds_intros clean_intros assms | assumption)+

lemma clean_JSONParse [clean_intros]:
  assumes "bodies_clean (closures A)" "clean bl w"
  shows "keeps (clean bl) (JSONParse A ctx str w)"
proof -
  have "rtn_clean bl (bindR (raised A i w) (\<lambda>_ w. Fault Segv w))" if "clean bl w" for i bl w
    by (rule holds_bindR [OF clean_raised [OF assms(1) that]]) simp
  note fail = this
  show ?thesis
    unfolding JSONParse_def C_JSONParse_def
    by (intro fail clean_valueResult clean_structs clean_scopes holds_intros clean_intros assms | assumption)+
qed

lemma clean_JSONStringify [clean_intros]:
  assumes A: "bodies_clean (closures A)" and w: "clean bl w"
  shows "keeps (clean bl) (JSONStringify A ctx val w)" "keeps (clean bl) (MarshalJSON A val w)"
proof -
  have C: "holds (owns bl) (clean bl) (C_JSONStringify A p v w)" if "clean bl w" for p v bl w
    unfolding C_JSONStringify_def
    by (intro holds_weaken [OF owns_CopyUtf8] holds_intros clean_intros A that | simp add: owns_def | assumption)+
  have "keeps (clean bl) (bindR (C_JSONStringify A p v w) (\<lambda>str w. defer_free str (bindR (GoString str w) (\<lambda>s w. Ok (Inr s) w))))"
    if "clean bl w" for p v bl w
    by (rule holds_bindR [OF C [OF that]]) (erule owns_defer_free, (intro holds_intros clean_intros | assumption)+)
  note D = this
  show "keeps (clean bl) (JSONStringify A ctx val w)" for ctx
    unfolding JSONStringify_def by (intro D holds_intros clean_structs w | assumption)+
  then show "keeps (clean bl) (MarshalJSON A val w)"
    unfolding MarshalJSON_def by (intro holds_intros | assumption)+
qed

section \<open>Isolates\<close>

lemma clean_C_init [clean_intros]:
  "clean bl w \<Longrightarrow> keeps (clean bl) (C_SetFlags A p w)" "clean bl w \<Longrightarrow> keeps (clean bl) (C_Init A w)"
  by (auto simp: C_SetFlags_def C_Init_def clean_def split: option.splits)

lemma clean_SetFlags [clean_intros]: "clean bl w \<Longrightarrow> keeps (clean bl) (SetFlags A flags w)"
proof -
  assume w: "clean bl w"
  have "bindR (C_SetFlags A p w) (\<lambda>_ w. cfree (Some p) w) = defer_free (Some p) (C_SetFlags A p w)" for p w
    by (auto simp: C_SetFlags_def cfree_def split: option.splits)
  then have "SetFlags A flags w = withCString (join_flags flags) (\<lambda>p w. C_SetFlags A p w) w"
    by (simp add: SetFlags_def withCString_def)
  then show ?thesis using w by (simp only:) (intro clean_intros)
qed

lemma clean_NewIsolate [clean_intros]: "clean bl w \<Longrightarrow> keeps (clean bl) (NewIsolate A w)"
proof -
  assume w: "clean bl w"
  have new: "keeps (clean bl) (bindR (C_NewIsolate A w) (\<lambda>i w. new_Isolate_struct i w))"
    if "clean bl w" for w :: "('a, 'b, 'c) world"
    by (rule clean_same [OF that new_struct_spec [OF clean_world [OF that]]])
       (auto simp: C_NewIsolate_def new_Isolate_struct_def c_new_def go_new_def Let_def case_prod_beta)
  have init: "keeps (clean bl) (initializeIfNecessary A w)"
    unfolding initializeIfNecessary_def using w
    by (intro holds_intros clean_intros | simp add: clean_def)+
  have "clean bl (write_iso a (i_null_update f) w)" "clean bl (write_iso a (i_undefined_update f) w)"
    if "clean bl w" for a f and w :: "('a, 'b, 'c) world"
    using that world_write_iso [of w "i_null_update f" a] world_write_iso [of w "i_undefined_update f" a]
    by (simp_all add: clean_def write_iso_def)
  note put = this
  have eq: "NewIsolate A w = bindR (initializeIfNecessary A w) (\<lambda>_ w.
     bindR (bindR (C_NewIsolate A w) (\<lambda>i w. new_Isolate_struct i w)) (\<lambda>a w. set_constants A a w))"
    by (simp add: NewIsolate_def bindR_assoc)
  show ?thesis
    unfolding eq set_constants_def newValueNull_def newValueUndefined_def C_NewValueNull_def C_NewValueUndefined_def
    by (intro holds_intros clean_intros new init put | assumption)+
qed

text \<open>Freeing a context touches no block.\<close>

lemma blocks_C_ContextFree:
  "holds (\<lambda>_ w'. blocks w' = blocks w) (\<lambda>w'. blocks w' = blocks w) (C_ContextFree ctx w)"
proof (cases "C_ContextFree ctx w")
  case (Ok u w')
  show ?thesis
  proof (cases ctx)
    case None
    with Ok show ?thesis by (simp add: C_ContextFree_def)
  next
    case (Some c)
    with Ok have "C_ContextFree (Some c) w = Ok u w'" by simp
    from C_ContextFree_Ok [OF this] obtain mc where "w' = ctx_freed c mc w" .
    with Ok show ?thesis by simp
  qed
qed (auto dest: C_ContextFree_Fault)

lemma clean_Isolate_Dispose [clean_intros]: "clean bl w \<Longrightarrow> keeps (clean bl) (Isolate_Dispose A a w)"
proof (rule clean_same [OF _ world_Isolate_Dispose [OF clean_world]])
  have "keeps (\<lambda>w'. blocks w' = blocks w) (C_IsolateDispose A p w)" for p
    unfolding C_IsolateDispose_def
    by (intro holds_intros blocks_C_ContextFree [of w] | simp)+
  then show "keeps (\<lambda>w'. blocks w' = blocks w) (Isolate_Dispose A a w)"
    unfolding Isolate_Dispose_def with_isolate_def by (intro holds_intros | simp)+
qed

lemma clean_isolates [clean_intros]:
  assumes "clean bl w"
  shows "keeps (clean bl) (TerminateExecution A a w)"
    "keeps (clean bl) (IsExecutionTerminating A a w)" "keeps (clean bl) (GetHeapStatistics A a w)"
  unfolding TerminateExecution_def IsExecutionTerminating_def GetHeapStatistics_def C_IsolationGetHeapStatistics_def
  using assms by (intro holds_intros clean_intros | simp add: clean_def)+

lemma clean_ThrowException [clean_intros]: "clean bl w \<Longrightarrow> keeps (clean bl) (ThrowException A a v w)"
  unfolding ThrowException_def C_IsolateThrowException_def
  by (intro holds_intros clean_intros | simp add: clean_def)+

section \<open>Contexts\<close>

lemma clean_NewContext [clean_intros]: "clean bl w \<Longrightarrow> keeps (clean bl) (NewContext A opt w)"
proof -
  assume w: "clean bl w"
  have "keeps (\<lambda>w'. blocks w' = blocks w) (open_context A i t w)" for i t and w :: "('a, 'b, 'c) world"
    by (auto simp: open_context_def C_NewContext_def isolate_scope_def ask_def with_isolate_def with_template_def
        go_new_def c_new_def Let_def case_prod_beta split: option.splits)
  then have "keeps (clean bl) (open_context A i t w)" if "clean bl w" for i t and w :: "('a, 'b, 'c) world"
    using clean_same [OF that] world_open_context [OF clean_world [OF that]] by blast
  note op = this
  show ?thesis unfolding NewContext_def by (intro holds_intros op clean_intros w | assumption)+
qed

lemma clean_contexts [clean_intros]:
  assumes "bodies_clean (closures A)" "clean bl w"
  shows "keeps (clean bl) (RunScript A a source origin w)" "keeps (clean bl) (Global A a w)"
    "keeps (clean bl) (PerformMicrotaskCheckpoint A a w)" "keeps (clean bl) (RetainedValueCount a w)"
  unfolding RunScript_def C_RunScript_def Global_def C_ContextGlobal_def PerformMicrotaskCheckpoint_def
    RetainedValueCount_def C_ContextRetainedValueCount_def
  by (intro clean_two_strings holds_intros clean_intros assms | assumption)+

lemma clean_Context_Close [clean_intros]: "clean bl w \<Longrightarrow> keeps (clean bl) (Context_Close a w)"
proof (rule clean_same [OF _ world_Context_Close [OF clean_world]])
  have free: "keeps (\<lambda>w'. blocks w' = blocks w) (C_ContextFree p (w\<lparr>reg := r\<rparr>))" for p r
    using blocks_C_ContextFree [of "w\<lparr>reg := r\<rparr>"] by simp
  show "keeps (\<lambda>w'. blocks w' = blocks w) (Context_Close a w)"
    unfolding Context_Close_def with_context_def by (intro holds_intros free | simp)+
qed

section \<open>Unbound scripts\<close>

lemma clean_CompileUnboundScript [clean_intros]:
  assumes A: "bodies_clean (closures A)" and w: "clean bl w"
  shows "keeps (clean bl) (CompileUnboundScript A a source origin opts w)"
proof -
  let ?Q = "\<lambda>bl rtn w. if ru_ptr rtn = None then owes bl (ru_error rtn) w else clean bl w"
  have fail: "holds (?Q bl) (clean bl) (bindR (raised A i w) (\<lambda>e w. Ok \<lparr>ru_ptr = None, ru_rejected = 0, ru_error = e\<rparr> w))"
    if "clean bl w" for i bl w
    by (rule holds_bindR [OF clean_raised [OF A that]]) simp
  have give: "holds (?Q bl) (clean bl) (bindR (new_unbound_script c j w) (\<lambda>us w.
      Ok \<lparr>ru_ptr = Some us, ru_rejected = n, ru_error = no_error\<rparr> w))" if "clean bl w" for bl w c j n
    by (rule holds_bindR [OF clean_records(4) [OF that]]) simp
  have C: "holds (?Q bl) (clean bl) (C_IsolateCompileUnboundScript A p s t data option w)" if "clean bl w" for bl w p s t data option
    unfolding C_IsolateCompileUnboundScript_def
    by (intro fail give clean_scopes holds_intros clean_intros that | assumption)+
  have R: "keeps (clean bl) (bindR (C_IsolateCompileUnboundScript A p s t data option w) (\<lambda>rtn w.
      if ru_ptr rtn = None then bindR (newJSError (ru_error rtn) w) (\<lambda>e w. Ok (f e) w) else Ok (g rtn) w))"
    if "clean bl w" for bl w p s t data option f g
    by (rule holds_bindR [OF C [OF that]]) (auto intro!: keeps_bindR clean_newJSError)
  show ?thesis
    unfolding CompileUnboundScript_def
    by (intro clean_two_strings R clean_structs holds_intros w | assumption)+
qed

lemma clean_UnboundScript_Run [clean_intros]:
  assumes "bodies_clean (closures A)" "clean bl w"
  shows "keeps (clean bl) (UnboundScript_Run A u ctx w)"
  unfolding UnboundScript_Run_def C_UnboundScriptRun_def Context_Isolate_def
  by (intro holds_intros clean_intros assms | assumption)+

lemma clean_CreateCodeCache [clean_intros]:
  assumes w: "clean bl w"
  shows "keeps (clean bl) (CreateCodeCache A u w)"
proof -
  have C: "holds (\<lambda>cd. owns bl (Some (sd_data cd))) (clean bl) (C_UnboundScriptCreateCodeCache A p us w)" for p us
    unfolding C_UnboundScriptCreateCodeCache_def
    by (intro holds_bindR [OF holds_weaken [OF owns_malloc [OF w]]] clean_scopes holds_intros | simp add: w)+
  have eq: "bindR (GoStringN (Some a) n w) (\<lambda>bs w. bindR (cfree (Some a) w) (\<lambda>_ w. Ok (f bs) w))
     = defer_free (Some a) (bindR (GoStringN (Some a) n w) (\<lambda>bs w. Ok (f bs) w))" for a n f w
    by (auto simp: GoStringN_def cfree_def split: option.splits block.splits)
  show ?thesis
    unfolding CreateCodeCache_def C_ScriptCompilerCachedDataDelete_def eq
    by (intro clean_structs w holds_bindR [OF C] | erule owns_defer_free
        | (intro holds_intros clean_intros, assumption))+
qed

section \<open>The profiler\<close>

lemma clean_profiler [clean_intros]:
  assumes "clean bl w"
  shows "keeps (clean bl) (NewCPUProfiler A a w)" "keeps (clean bl) (CPUProfiler_Dispose A c w)"
    "keeps (clean bl) (StartProfiling A c t w)"
proof -
  have drop: "clean bl (w\<lparr>cprofilers := (cprofilers w)(p := None)\<rparr>)" if "clean bl w" for p and w :: "('a, 'b, 'c) world"
    using that world_drop(2) [of w p] by (simp add: clean_def)
  show "keeps (clean bl) (NewCPUProfiler A a w)" "keeps (clean bl) (CPUProfiler_Dispose A c w)"
    "keeps (clean bl) (StartProfiling A c t w)"
    unfolding NewCPUProfiler_def C_NewCPUProfiler_def CPUProfiler_Dispose_def C_CPUProfilerDispose_def
      StartProfiling_def C_CPUProfilerStartProfiling_def profiler_guard_def
    by (intro holds_intros clean_intros assms drop | assumption)+
qed

lemma clean_Value_Format [clean_intros]:
  "bodies_clean (closures A) \<Longrightarrow> clean bl w \<Longrightarrow> keeps (clean bl) (Value_Format A q f verb v w)"
  unfolding Value_Format_def by (intro holds_intros clean_intros | assumption)+

lemma clean_more_casts [clean_intros]:
  assumes "clean bl w"
  shows "keeps (clean bl) (AsObject A v w)" "keeps (clean bl) (AsPromise A v w)"
  unfolding AsObject_def AsPromise_def IsPromise_def
  by (intro holds_intros clean_intros assms | assumption)+

end
