(* ===== verification/Handles.thy ===== *)
theory Handles
  imports Balance
begin

text \<open>
  What keeps a pointer usable. A client of the package holds pointers into the C++ heap (inside
  Go structs) and Go pointers to structs that hold such pointers; each kind of pointer needs
  others to be alive, a value its context and its isolate, a context its isolate, and so on. A
  set of pointers is well typed in a state if each of them is alive and everything it needs is
  in the set too. The theory has the heap typing, a postcondition calculus that also excludes
  accesses to freed memory, and the typing of the primitive operations.
\<close>

section \<open>Heap typings\<close>

datatype pointer =
    V8_isolate addr
  | M_ctx addr
  | M_value addr
  | M_template addr
  | M_script addr
  | C_profiler addr
  | Go_isolate addr
  | Go_context addr
  | Go_template addr
  | Nil

definition ptr :: "(addr \<Rightarrow> pointer) \<Rightarrow> addr option \<Rightarrow> pointer" where
  "ptr C p = (case p of None \<Rightarrow> Nil | Some a \<Rightarrow> C a)"

lemma ptr_simps [simp]: "ptr C None = Nil" "ptr C (Some a) = C a"
  by (simp_all add: ptr_def)

fun alive :: "('e, 'j, 'cb) world \<Rightarrow> pointer \<Rightarrow> bool" where
  "alive w (V8_isolate a) = (isolates w a \<noteq> None)"
| "alive w (M_ctx a) = (mctxs w a \<noteq> None)"
| "alive w (M_value a) = (mvals w a \<noteq> None)"
| "alive w (M_template a) = (mtmpls w a \<noteq> None)"
| "alive w (M_script a) = (mscripts w a \<noteq> None)"
| "alive w (C_profiler a) = (\<exists>pr. cprofilers w a = Some pr \<and> pr_ptr pr \<noteq> None)"
| "alive w (Go_isolate a) = (\<exists>g. gisos w a = Some g \<and> i_ptr g \<noteq> None)"
| "alive w (Go_context a) = (\<exists>c. gctxs w a = Some c \<and> c_ptr c \<noteq> None)"
| "alive w (Go_template a) = (\<exists>t. gtmpls w a = Some t \<and> t_ptr t \<noteq> None)"
| "alive w Nil = False"

text \<open>\<open>needs w x y\<close>: the object at \<open>x\<close> points to \<open>y\<close>, or is freed together with it.\<close>

fun needs :: "('e, 'j, 'cb) world \<Rightarrow> pointer \<Rightarrow> pointer \<Rightarrow> bool" where
  "needs w (V8_isolate a) y = (\<exists>v. isolates w a = Some v \<and> y = ptr M_ctx (slot0 v))"
| "needs w (M_ctx a) y = (\<exists>mc. mctxs w a = Some mc \<and> y = V8_isolate (mc_iso mc))"
| "needs w (M_value a) y = (\<exists>mv. mvals w a = Some mv \<and> (y = V8_isolate (mv_iso mv) \<or> y = ptr M_ctx (mv_ctx mv)))"
| "needs w (M_template a) y = (\<exists>t. mtmpls w a = Some t \<and> y = V8_isolate (mt_iso t))"
| "needs w (M_script a) y = (\<exists>c mc. mctxs w c = Some mc \<and> a \<in> set (mc_unboundScripts mc) \<and> y = M_ctx c)"
| "needs w (C_profiler a) y = (\<exists>pr. cprofilers w a = Some pr \<and> pr_iso pr \<noteq> None \<and> y = ptr V8_isolate (pr_iso pr))"
| "needs w (Go_isolate a) y = (\<exists>g. gisos w a = Some g \<and> y = ptr V8_isolate (i_ptr g))"
| "needs w (Go_context a) y = (\<exists>c. gctxs w a = Some c \<and> (y = ptr M_ctx (c_ptr c) \<or> y = Go_isolate (c_iso c)))"
| "needs w (Go_template a) y = (\<exists>t. gtmpls w a = Some t \<and>
     (y = ptr M_template (t_ptr t) \<or> (t_iso t \<noteq> None \<and> y = ptr Go_isolate (t_iso t))))"
| "needs w Nil y = False"

definition typed :: "pointer set \<Rightarrow> ('e, 'j, 'cb) world \<Rightarrow> bool" where
  "typed K w \<longleftrightarrow> (\<forall>x \<in> K. alive w x \<and> (\<forall>y. needs w x y \<longrightarrow> y \<in> K))"

text \<open>What a client may use: the pointers that belong to some well-typed set.\<close>

definition usable :: "('e, 'j, 'cb) world \<Rightarrow> pointer set" where
  "usable w = \<Union> {K. typed K w}"

lemma typed_usable: "typed (usable w) w"
  unfolding usable_def typed_def by blast

lemma typed_sub_usable: "typed K w \<Longrightarrow> K \<subseteq> usable w"
  unfolding usable_def by blast

lemma typed_Un: "typed K w \<Longrightarrow> typed L w \<Longrightarrow> typed (K \<union> L) w"
  unfolding typed_def by blast

lemma typed_empty [simp]: "typed {} w"
  by (simp add: typed_def)

lemma typed_alive: "typed K w \<Longrightarrow> x \<in> K \<Longrightarrow> alive w x"
  by (simp add: typed_def)

lemma typed_needs: "typed K w \<Longrightarrow> x \<in> K \<Longrightarrow> needs w x y \<Longrightarrow> y \<in> K"
  by (simp add: typed_def)

lemma Nil_unusable [simp]: "Nil \<notin> usable w"
  using typed_alive [OF typed_usable, of Nil w] by auto

text \<open>
  The invariant of states in which isolates are disposed of after their contexts: every live
  C++ context and value has a live isolate, and an open Go context a Go isolate that is not
  disposed of.
\<close>

definition hosted :: "('e, 'j, 'cb) world \<Rightarrow> bool" where
  "hosted w \<longleftrightarrow>
     (\<forall>c mc. mctxs w c = Some mc \<longrightarrow> isolates w (mc_iso mc) \<noteq> None) \<and>
     (\<forall>p mv. mvals w p = Some mv \<longrightarrow> isolates w (mv_iso mv) \<noteq> None) \<and>
     (\<forall>a c. gctxs w a = Some c \<longrightarrow> c_ptr c \<noteq> None \<longrightarrow> (\<exists>g. gisos w (c_iso c) = Some g \<and> i_ptr g \<noteq> None))"

text \<open>A sound state with the blocks \<open>bl\<close>, in which each of the sets in \<open>KS\<close> is well typed.\<close>

definition sound :: "(addr \<Rightarrow> block option) \<Rightarrow> pointer set set \<Rightarrow> ('e, 'j, 'cb) world \<Rightarrow> bool" where
  "sound bl KS w \<longleftrightarrow> clean bl w \<and> hosted w \<and> (\<forall>K \<in> KS. typed K w)"

text \<open>Everything but templates and profilers, which the disposal of their isolate leaves behind, is usable while it lives.\<close>

fun is_hosted :: "pointer \<Rightarrow> bool" where
  "is_hosted (V8_isolate _) = True"
| "is_hosted (M_ctx _) = True"
| "is_hosted (M_value _) = True"
| "is_hosted (Go_isolate _) = True"
| "is_hosted (Go_context _) = True"
| "is_hosted _ = False"

lemma hosted_typed:
  assumes "world_ok w" "hosted w"
  shows "typed {x. is_hosted x \<and> alive w x} w"
  unfolding typed_def
proof (intro ballI conjI allI impI)
  fix x y assume x: "x \<in> {x. is_hosted x \<and> alive w x}" and y: "needs w x y"
  have "is_hosted y \<and> alive w y"
  proof (cases x)
    case (V8_isolate i)
    with y obtain v where "isolates w i = Some v" "y = ptr M_ctx (slot0 v)" by auto
    then show ?thesis using internal_live [of w i v] assms(1) by (auto simp: world_ok_def)
  next
    case (M_value p)
    with y obtain mv where mv: "mvals w p = Some mv" "y = V8_isolate (mv_iso mv) \<or> y = ptr M_ctx (mv_ctx mv)" by auto
    then obtain c mc where "mv_ctx mv = Some c" "mctxs w c = Some mc"
      using assms(1) unfolding world_ok_def heap_ok_def values_ok_def by blast
    then show ?thesis using mv assms(2) by (auto simp: hosted_def)
  next
    case (Go_context a)
    with x y obtain c where "gctxs w a = Some c" "c_ptr c \<noteq> None" "y = ptr M_ctx (c_ptr c) \<or> y = Go_isolate (c_iso c)" by auto
    then show ?thesis using assms by (fastforce simp: hosted_def world_ok_def go_ok_def gctxs_ok_def)
  qed (use x y assms in \<open>auto simp: hosted_def dest: gisosD(3)\<close>)
  then show "y \<in> {x. is_hosted x \<and> alive w x}" by simp
qed simp

lemma hosted_usable: "sound bl KS w \<Longrightarrow> is_hosted x \<Longrightarrow> alive w x \<Longrightarrow> x \<in> usable w"
  using hosted_typed [of w] typed_sub_usable [of "{x. is_hosted x \<and> alive w x}" w]
  by (auto simp: sound_def clean_def)

section \<open>A calculus that excludes accesses to freed memory\<close>

fun safe :: "('a \<Rightarrow> 'w \<Rightarrow> bool) \<Rightarrow> ('w \<Rightarrow> bool) \<Rightarrow> ('a, 'w) res \<Rightarrow> bool" where
  "safe Q R (Ok a w) = Q a w"
| "safe Q R (Fault f w) = (f \<noteq> Segv \<and> (recoverable f \<longrightarrow> R w))"

abbreviation safely :: "('w \<Rightarrow> bool) \<Rightarrow> ('a, 'w) res \<Rightarrow> bool" where
  "safely P \<equiv> safe (\<lambda>_. P) P"

named_theorems safe_intros \<open>rules that establish that an operation is safe\<close>

lemma safe_holds: "safe Q R m \<Longrightarrow> holds Q R m"
  by (cases m) auto

lemma safe_bind:
  assumes "safe Q R m" and "\<And>a w. Q a w \<Longrightarrow> safe Q' R (k a w)"
  shows "safe Q' R (bindR m k)"
  using assms by (cases m) auto

lemma safely_bind:
  assumes "safely P m" and "\<And>a w. P w \<Longrightarrow> safe Q P (k a w)"
  shows "safe Q P (bindR m k)"
  using assms by (rule safe_bind)

lemma safely_Ok [safe_intros]: "P w \<Longrightarrow> safely P (Ok a w)"
  by simp

lemma safe_Fault [safe_intros]: "f \<noteq> Segv \<Longrightarrow> (recoverable f \<Longrightarrow> R w) \<Longrightarrow> safe Q R (Fault f w)"
  by simp

lemma safe_mono:
  assumes "safe Q R m" "\<And>a w. Q a w \<Longrightarrow> Q' a w" "\<And>w. R w \<Longrightarrow> R' w"
  shows "safe Q' R' m"
  using assms by (cases m) auto

lemma safe_cases [safe_intros]:
  "(b \<Longrightarrow> safe Q R x) \<Longrightarrow> (\<not> b \<Longrightarrow> safe Q R y) \<Longrightarrow> safe Q R (if b then x else y)"
  "(r = None \<Longrightarrow> safe Q R n) \<Longrightarrow> (\<And>y. r = Some y \<Longrightarrow> safe Q R (s y)) \<Longrightarrow> safe Q R (case r of None \<Rightarrow> n | Some y \<Rightarrow> s y)"
  "(\<And>y. e = Inl y \<Longrightarrow> safe Q R (l y)) \<Longrightarrow> (\<And>y. e = Inr y \<Longrightarrow> safe Q R (g y)) \<Longrightarrow>
     safe Q R (case e of Inl y \<Rightarrow> l y | Inr y \<Rightarrow> g y)"
  "(\<And>a b. p = (a, b) \<Longrightarrow> safe Q R (h a b)) \<Longrightarrow> safe Q R (case p of (a, b) \<Rightarrow> h a b)"
  "(\<And>a b. p = (a, b) \<Longrightarrow> safe Q R (h' a b w)) \<Longrightarrow> safe Q R ((case p of (a, b) \<Rightarrow> h' a b) w)"
  "safe Q R (j z) \<Longrightarrow> safe Q R (Let z j)"
  by (auto split: option.splits sum.splits prod.splits)

lemma safe_from_holds: "holds Q R m \<Longrightarrow> (\<And>w. m \<noteq> Fault Segv w) \<Longrightarrow> safe Q R m"
  by (cases m) auto

section \<open>What the typing depends on\<close>

lemma alive_frame [simp]:
  "alive (w\<lparr>v8 := e\<rparr>) = alive w" "alive (w\<lparr>brk := n\<rparr>) = alive w" "alive (w\<lparr>blocks := b\<rparr>) = alive w"
  "alive (w\<lparr>gbrk := n\<rparr>) = alive w" "alive (w\<lparr>reg := g\<rparr>) = alive w" "alive (w\<lparr>v8once := o1\<rparr>) = alive w"
  by (rule ext, rename_tac x, case_tac x; simp)+

lemma needs_frame [simp]:
  "needs (w\<lparr>v8 := e\<rparr>) = needs w" "needs (w\<lparr>brk := n\<rparr>) = needs w" "needs (w\<lparr>blocks := b\<rparr>) = needs w"
  "needs (w\<lparr>gbrk := n\<rparr>) = needs w" "needs (w\<lparr>reg := g\<rparr>) = needs w" "needs (w\<lparr>v8once := o1\<rparr>) = needs w"
  by (rule ext, rule ext, rename_tac x y, case_tac x; simp)+

lemma typed_frame [simp]:
  "typed K (w\<lparr>v8 := e\<rparr>) = typed K w" "typed K (w\<lparr>brk := n\<rparr>) = typed K w" "typed K (w\<lparr>blocks := b\<rparr>) = typed K w"
  "typed K (w\<lparr>gbrk := n\<rparr>) = typed K w" "typed K (w\<lparr>reg := g\<rparr>) = typed K w" "typed K (w\<lparr>v8once := o1\<rparr>) = typed K w"
  by (simp_all add: typed_def)

lemma usable_frame [simp]:
  "usable (w\<lparr>v8 := e\<rparr>) = usable w" "usable (w\<lparr>brk := n\<rparr>) = usable w" "usable (w\<lparr>blocks := b\<rparr>) = usable w"
  "usable (w\<lparr>gbrk := n\<rparr>) = usable w" "usable (w\<lparr>reg := g\<rparr>) = usable w" "usable (w\<lparr>v8once := o1\<rparr>) = usable w"
  by (simp_all add: usable_def)

lemma hosted_frame [simp]:
  "hosted (w\<lparr>v8 := e\<rparr>) = hosted w" "hosted (w\<lparr>brk := n\<rparr>) = hosted w" "hosted (w\<lparr>blocks := b\<rparr>) = hosted w"
  "hosted (w\<lparr>gbrk := n\<rparr>) = hosted w" "hosted (w\<lparr>reg := g\<rparr>) = hosted w" "hosted (w\<lparr>v8once := o1\<rparr>) = hosted w"
  by (simp_all add: hosted_def)

lemma sound_typed: "sound bl KS w \<Longrightarrow> K \<in> KS \<Longrightarrow> typed K w"
  by (simp add: sound_def)

definition owned :: "pointer set set \<Rightarrow> pointer set" where
  "owned KS = \<Union> KS"

lemma owned_insert [simp]: "owned (insert K KS) = K \<union> owned KS"
  by (simp add: owned_def)

lemma sound_Union: "sound bl KS w \<Longrightarrow> typed (owned KS) w"
  unfolding sound_def typed_def owned_def by blast

lemma sound_alive: "sound bl KS w \<Longrightarrow> x \<in> owned KS \<Longrightarrow> alive w x"
  by (rule typed_alive [OF sound_Union])

lemma sound_needs: "sound bl KS w \<Longrightarrow> x \<in> owned KS \<Longrightarrow> needs w x y \<Longrightarrow> y \<in> owned KS"
  by (rule typed_needs [OF sound_Union])

lemma sound_usable: "sound bl KS w \<Longrightarrow> owned KS \<subseteq> usable w"
  by (rule typed_sub_usable [OF sound_Union])

lemma owned_usable: "sound bl KS w \<Longrightarrow> x \<in> owned KS \<Longrightarrow> x \<in> usable w"
  using sound_usable by blast

lemma sound_extend: "sound bl KS w \<Longrightarrow> sound bl (insert (usable w) KS) w"
  by (simp add: sound_def typed_usable)

lemma sound_weaken: "sound bl (insert K KS) w \<Longrightarrow> sound bl KS w"
  by (simp add: sound_def)

lemma sound_world: "sound bl KS w \<Longrightarrow> world_ok w" "sound bl KS w \<Longrightarrow> blocks w = bl"
  by (simp_all add: sound_def clean_def)

text \<open>
  The shape of all typing lemmas: the operation is safe, keeps the state sound, and returns only
  pointers that are usable.
\<close>

abbreviation yields ::
    "('a \<Rightarrow> pointer set) \<Rightarrow> (addr \<Rightarrow> block option) \<Rightarrow> pointer set set \<Rightarrow> ('a, ('e, 'j, 'cb) world) res \<Rightarrow> bool" where
  "yields F bl KS \<equiv> safe (\<lambda>r w. sound bl KS w \<and> F r \<subseteq> usable w) (sound bl KS)"

lemma yields_extend:
  assumes "sound bl KS w" and "sound bl (insert (usable w) KS) w \<Longrightarrow> yields F bl (insert (usable w) KS) m"
  shows "yields F bl KS m"
  by (rule safe_mono [OF assms(2) [OF sound_extend [OF assms(1)]]]) (auto intro: sound_weaken)

lemma safely_extend:
  assumes "sound bl KS w" and "sound bl (insert (usable w) KS) w \<Longrightarrow> safely (sound bl (insert (usable w) KS)) m"
  shows "safely (sound bl KS) m"
  by (rule safe_mono [OF assms(2) [OF sound_extend [OF assms(1)]]]) (auto intro: sound_weaken)

text \<open>
  A step that leaves every live object alive, needing what it needed, keeps all typings; a new
  object is usable if what it needs is.
\<close>

definition preserves :: "('e, 'j, 'cb) world \<Rightarrow> ('e, 'j, 'cb) world \<Rightarrow> bool" where
  "preserves w w' \<longleftrightarrow> (\<forall>x. alive w x \<longrightarrow> alive w' x \<and> (\<forall>y. needs w' x y \<longrightarrow> needs w x y))"

lemma preservesI:
  assumes "\<And>x. alive w x \<Longrightarrow> alive w' x" "\<And>x y. alive w x \<Longrightarrow> needs w' x y \<Longrightarrow> needs w x y"
  shows "preserves w w'"
  using assms by (simp add: preserves_def)

lemma preserves_typed: "preserves w w' \<Longrightarrow> typed K w \<Longrightarrow> typed K w'"
  unfolding preserves_def typed_def by blast

lemma preserves_usable: "preserves w w' \<Longrightarrow> usable w \<subseteq> usable w'"
  unfolding usable_def using preserves_typed by blast

lemma preserves_sound: "preserves w w' \<Longrightarrow> sound bl KS w \<Longrightarrow> clean bl' w' \<Longrightarrow> hosted w' \<Longrightarrow> sound bl' KS w'"
  using preserves_typed by (auto simp: sound_def)

lemma usable_new:
  assumes "preserves w w'" "alive w' z" "\<And>y. needs w' z y \<Longrightarrow> y \<in> usable w"
  shows "z \<in> usable w'"
proof -
  have "typed (insert z (usable w)) w'"
    using preserves_typed [OF assms(1) typed_usable] assms(2,3) unfolding typed_def by blast
  then show ?thesis using typed_sub_usable by blast
qed

end
