(* ===== verification/Safety.thy ===== *)
theory Safety
  imports Handles
begin

text \<open>
  Memory safety of the operations: in a sound state, an operation whose pointers are usable does
  not touch freed memory, leaves the state sound, and returns pointers that are usable. V8 may
  call back into Go at every point where it runs JavaScript; the closures are assumed to be
  clients that are safe themselves.
\<close>

section \<open>Primitive operations\<close>

lemma safe_ask [safe_intros]: "sound bl KS w \<Longrightarrow> safely (sound bl KS) (ask f w)"
  by (simp add: ask_def case_prod_beta Let_def sound_def clean_def)

lemma safe_tell [safe_intros]: "sound bl KS w \<Longrightarrow> safely (sound bl KS) (tell f w)"
  by (simp add: tell_def sound_def clean_def)

lemma safe_checked [safe_intros]: "safely P m \<Longrightarrow> safely P (checked m)"
  unfolding checked_def by (erule safely_bind) (auto split: option.splits)

lemma safe_go_new [safe_intros]: "sound bl KS w \<Longrightarrow> safely (sound bl KS) (go_new w)"
  by (auto simp: go_new_def sound_def clean_def world_gbrk)

lemma safe_c_new [safe_intros]: "sound bl KS w \<Longrightarrow> safely (sound bl KS) (c_new w)"
  by (auto simp: c_new_def sound_def clean_def world_brk)

text \<open>A new value in a context and an isolate that are usable.\<close>

lemma safe_new_value:
  assumes s: "sound bl KS w" and c: "M_ctx c \<in> owned KS" and i: "V8_isolate i \<in> owned KS"
  shows "safe (\<lambda>p w'. sound bl KS w' \<and> M_value p \<in> usable w' \<and> mvals w p = None \<and> (\<forall>q. mvals w q \<noteq> None \<longrightarrow> mvals w' q \<noteq> None))
     (\<lambda>_. False) (new_value i (Some c) j w)"
proof (cases "brk w < mem_limit")
  case True
  have ok: "heap_ok w" using s by (simp add: sound_def clean_def world_ok_def)
  from sound_alive [OF s c] obtain mc where mc: "mctxs w c = Some mc" by auto
  let ?v = "brk w"
  let ?w = "w\<lparr>brk := Suc ?v, mctxs := (mctxs w)(c \<mapsto> snd (track ?v mc)),
     mvals := (mvals w)(?v \<mapsto> \<lparr>mv_id = c_long (mc_nextValId mc + 1), mv_iso = i, mv_ctx = Some c, mv_ptr = j\<rparr>)\<rparr>"
  have new: "new_value i (Some c) j w = Ok ?v ?w"
    using new_value_eq [OF ok True mc, of i j] by (simp only: Let_def)
  have fresh: "mvals w ?v = None" using heap_okD_fresh [OF ok, of ?v] by simp
  have "clean bl ?w" using clean_new_value [of bl w i "Some c" j] s new by (simp add: sound_def)
  moreover have "isolates w i \<noteq> None" using sound_alive [OF s i] by simp
  then have hosted: "hosted ?w"
    using s mc by (auto simp: sound_def hosted_def track_def Let_def)
  moreover have "preserves w ?w"
  proof (rule preservesI)
    fix x y assume x: "alive w x"
    then show "alive ?w x" using fresh by (cases x) auto
    assume "needs ?w x y"
    then show "needs w x y" using x fresh mc by (cases x) (auto simp: track_def Let_def split: if_splits)
  qed
  ultimately have "sound bl KS ?w" using preserves_sound [OF _ s] by blast
  then have "M_value ?v \<in> usable ?w" by (rule hosted_usable) auto
  then show ?thesis using \<open>sound bl KS ?w\<close> new fresh by auto
qed (simp add: new_value_def c_new_def)

lemma safe_weaken: "safe Q (\<lambda>_. False) m \<Longrightarrow> safe Q R m"
  by (cases m) auto

text \<open>The values made for a call from JavaScript: new ones, all different.\<close>

definition fresh_values ::
    "(addr \<Rightarrow> block option) \<Rightarrow> pointer set set \<Rightarrow> ('e, 'j, 'cb) world \<Rightarrow> addr list \<Rightarrow> ('e, 'j, 'cb) world \<Rightarrow> bool" where
  "fresh_values bl KS w ps w' \<longleftrightarrow> sound bl KS w' \<and> M_value ` set ps \<subseteq> usable w' \<and> distinct ps \<and>
     (\<forall>p \<in> set ps. mvals w p = None) \<and> (\<forall>q. mvals w q \<noteq> None \<longrightarrow> mvals w' q \<noteq> None)"

lemma fresh_values_Cons:
  assumes p: "fresh_values bl KS w [p] w1" and ps: "fresh_values bl KS w1 ps w2"
  shows "fresh_values bl KS w (p # ps) w2"
proof -
  have "mvals w1 p \<noteq> None" using p typed_alive [OF typed_usable, of "M_value p" w1] by (simp add: fresh_values_def)
  moreover from this have "M_value p \<in> usable w2"
    using ps hosted_usable [of bl KS w2 "M_value p"] by (simp add: fresh_values_def)
  ultimately show ?thesis using p ps unfolding fresh_values_def by auto
qed

lemma safe_new_values:
  fixes w :: "('e, 'j, 'cb) world"
  assumes "sound bl KS w" "M_ctx c \<in> owned KS" "V8_isolate i \<in> owned KS"
  shows "safe (\<lambda>ps w'. fresh_values bl KS w ps w' \<and> length ps = length js) (\<lambda>_. False) (new_values i (Some c) js w)"
  using assms(1)
proof (induction js arbitrary: w)
  case (Cons j js)
  show ?case
    unfolding new_values.simps
  proof (rule safe_bind)
    show "safe (\<lambda>p. fresh_values bl KS w [p]) (\<lambda>_. False) (new_value i (Some c) j w)"
      by (rule safe_mono [OF safe_new_value [OF Cons.prems assms(2,3)]]) (auto simp: fresh_values_def)
    fix p and w1 :: "('e, 'j, 'cb) world"
    assume p: "fresh_values bl KS w [p] w1"
    then have "safe (\<lambda>ps w'. fresh_values bl KS w1 ps w' \<and> length ps = length js) (\<lambda>_. False) (new_values i (Some c) js w1)"
      by (intro Cons.IH) (simp add: fresh_values_def)
    then show "safe (\<lambda>ps w'. fresh_values bl KS w ps w' \<and> length ps = length (j # js)) (\<lambda>_. False)
        (bindR (new_values i (Some c) js w1) (\<lambda>as w. Ok (p # as) w))"
      by (rule safe_bind) (auto intro: fresh_values_Cons [OF p])
  qed
qed (simp add: fresh_values_def)

section \<open>Callbacks\<close>

text \<open>The pointers of a Go value, and of the info struct a closure is called with.\<close>

definition value_pointers :: "Value \<Rightarrow> pointer set" where
  "value_pointers v = insert (ptr M_value (v_ptr v)) (case v_ctx v of None \<Rightarrow> {} | Some a \<Rightarrow> {Go_context a})"

definition info_values :: "FunctionCallbackInfo \<Rightarrow> Value list" where
  "info_values info = fi_args info @ [obj_value (fi_this info)]"

text \<open>
  What is assumed of the closures: called in a sound state with values of their own, which they
  may release, they return without touching freed memory, leave what was well typed well typed,
  and return nil or a usable value.
\<close>

definition returned :: "Value option \<Rightarrow> pointer set" where
  "returned r = (case r of None \<Rightarrow> {} | Some v \<Rightarrow> (case v_ptr v of None \<Rightarrow> {} | Some p \<Rightarrow> {M_value p}))"

definition bodies_sound :: "('e, 'j, 'cb) bodies \<Rightarrow> bool" where
  "bodies_sound B \<longleftrightarrow> (\<forall>cb info bl KS w. sound bl KS w \<longrightarrow>
     (\<forall>v \<in> set (info_values info). value_pointers v \<subseteq> usable w \<and> ptr M_value (v_ptr v) \<notin> owned KS) \<longrightarrow>
     distinct (map v_ptr (info_values info)) \<longrightarrow> yields returned bl KS (B cb info w))"

lemma safe_goContext:
  assumes s: "sound bl KS w"
  shows "safe (\<lambda>p w'. w' = w \<and> (\<exists>a c q. getContext r (reg w) = Some a \<and> gctxs w a = Some c \<and> p = Some q \<and> c_ptr c = Some q \<and>
     mctxs w q \<noteq> None)) (sound bl KS) (goContext r w)"
proof (cases "getContext r (reg w)")
  case (Some a)
  then obtain c where c: "gctxs w a = Some c" "c_ptr c \<noteq> None"
    using sound_world(1) [OF s] unfolding world_ok_def go_ok_def greg_ok_def by blast
  then have "mctxs w (the (c_ptr c)) \<noteq> None"
    using sound_world(1) [OF s] by (auto simp: world_ok_def go_ok_def gctxs_ok_def)
  then show ?thesis using Some c by (auto simp: goContext_def)
qed (use s in \<open>simp add: goContext_def\<close>)

lemma safe_goFunctionCallback:
  assumes B: "bodies_sound B" and s: "sound bl KS w" and n: "n = length ps"
    and ps: "M_value ` set (t # ps) \<subseteq> usable w" "distinct (t # ps)" "\<forall>p \<in> set (t # ps). M_value p \<notin> owned KS"
  shows "safe (\<lambda>r w'. sound bl KS w' \<and> (\<forall>p. r = Some p \<longrightarrow> mvals w' p \<noteq> None)) (sound bl KS)
     (goFunctionCallback B cr cbr (t # ps) n w)"
proof (cases "getContext cr (reg w)")
  case None
  then show ?thesis using s n by (simp add: goFunctionCallback_def)
next
  case (Some a)
  define info where "info = \<lparr>fi_ctx = Some a, fi_args = map (\<lambda>v. \<lparr>v_ptr = Some v, v_ctx = Some a\<rparr>) ps,
     fi_this = Object \<lparr>v_ptr = Some t, v_ctx = Some a\<rparr>\<rparr>"
  from Some obtain c where "gctxs w a = Some c" "c_ptr c \<noteq> None"
    using sound_world(1) [OF s] unfolding world_ok_def go_ok_def greg_ok_def by blast
  then have "Go_context a \<in> usable w" by (intro hosted_usable [OF s]) auto
  then have own: "\<forall>v \<in> set (info_values info). value_pointers v \<subseteq> usable w \<and> ptr M_value (v_ptr v) \<notin> owned KS"
    using ps by (auto simp: info_values_def info_def value_pointers_def)
  have "inj Some" by (simp add: inj_def)
  then have "distinct (map v_ptr (info_values info))"
    using ps(2) by (auto simp: info_values_def info_def comp_def distinct_map inj_on_def)
  then have "yields returned bl KS (B cb info w)" for cb
    using B s own unfolding bodies_sound_def by blast
  then have "safe (\<lambda>r w'. sound bl KS w' \<and> (\<forall>p. r = Some p \<longrightarrow> mvals w' p \<noteq> None)) (sound bl KS)
      (bindR (B cb info w) (\<lambda>val w. case val of None \<Rightarrow> Ok None w | Some v \<Rightarrow> Ok (v_ptr v) w))" for cb
    by (rule safe_bind) (auto simp: returned_def dest: typed_alive [OF typed_usable] split: option.splits)
  then show ?thesis
    using s n Some by (auto simp: goFunctionCallback_def Let_def info_def split: option.splits)
qed

lemma safe_FunctionTemplateCallback:
  fixes w :: "('e, 'j, 'cb) world"
  assumes B: "bodies_sound B" and s: "sound bl KS w" and i: "V8_isolate i \<in> owned KS"
  shows "safely (sound bl KS) (FunctionTemplateCallback B i cr cbr this args w)"
  unfolding FunctionTemplateCallback_def
proof (rule safe_bind [OF safe_goContext [OF s]])
  fix p and w' :: "('e, 'j, 'cb) world"
  assume "w' = w \<and> (\<exists>a c q. getContext cr (reg w) = Some a \<and> gctxs w a = Some c \<and> p = Some q \<and> c_ptr c = Some q \<and> mctxs w q \<noteq> None)"
  then obtain q where q: "w' = w" "p = Some q" "mctxs w q \<noteq> None" by auto
  let ?KS = "insert (usable w) KS"
  have s': "sound bl ?KS w" by (rule sound_extend [OF s])
  have use: "M_ctx q \<in> owned ?KS" "V8_isolate i \<in> owned ?KS"
    using q(3) i hosted_usable [OF s, of "M_ctx q"] by auto
  show "safely (sound bl KS) (bindR (new_values i p (this # args) w') (\<lambda>thisAndArgs w.
     bindR (goFunctionCallback B cr cbr thisAndArgs (length args) w) (\<lambda>val w.
       case val of None \<Rightarrow> Ok None w
       | Some p \<Rightarrow> (case mvals w p of None \<Rightarrow> Fault Segv w | Some mv \<Rightarrow> Ok (Some (mv_ptr mv)) w))))"
    unfolding q(1,2)
  proof (rule safe_bind [OF safe_weaken [OF safe_new_values [OF s' use]]])
    fix ps and w1 :: "('e, 'j, 'cb) world"
    assume "fresh_values bl ?KS w ps w1 \<and> length ps = length (this # args)"
    then have ps: "fresh_values bl ?KS w ps w1" and len: "length ps = length (this # args)" by auto
    then obtain t as where t: "ps = t # as" "length as = length args" by (cases ps) auto
    have new: "\<forall>p \<in> set (t # as). M_value p \<notin> owned KS"
    proof
      fix p assume "p \<in> set (t # as)"
      then have "mvals w p = None" using ps t by (auto simp: fresh_values_def)
      then show "M_value p \<notin> owned KS" using sound_alive [OF s, of "M_value p"] by auto
    qed
    have "safe (\<lambda>r w'. sound bl KS w' \<and> (\<forall>p. r = Some p \<longrightarrow> mvals w' p \<noteq> None)) (sound bl KS)
        (goFunctionCallback B cr cbr ps (length args) w1)"
      unfolding t(1) by (rule safe_goFunctionCallback [OF B]) (use ps t new sound_weaken in \<open>auto simp: fresh_values_def\<close>)
    then show "safely (sound bl KS) (bindR (goFunctionCallback B cr cbr ps (length args) w1) (\<lambda>val w.
       case val of None \<Rightarrow> Ok None w
       | Some p \<Rightarrow> (case mvals w p of None \<Rightarrow> Fault Segv w | Some mv \<Rightarrow> Ok (Some (mv_ptr mv)) w)))"
      by (rule safe_bind) (auto split: option.splits)
  qed
qed

lemma safe_run_js:
  fixes w :: "('e, 'j, 'cb) world"
  assumes "bodies_sound B" "V8_isolate i \<in> owned KS"
  shows "sound bl KS w \<Longrightarrow> safe (\<lambda>r w'. sound bl KS w' \<and> r \<in> set_js t) (sound bl KS) (run_js B i t w)"
proof (induction t arbitrary: w)
  case (Done e r)
  then show ?case by (simp add: sound_def clean_def)
next
  case (CallGo e cr cbr this args k)
  have "sound bl KS (w\<lparr>v8 := e\<rparr>)" using CallGo.prems by (simp add: sound_def clean_def)
  then have "safely (sound bl KS) (FunctionTemplateCallback B i cr cbr this args (w\<lparr>v8 := e\<rparr>))"
    by (rule safe_FunctionTemplateCallback [OF assms(1) _ assms(2)])
  then show ?case
    unfolding run_js.simps
  proof (rule safe_bind)
    fix ret and w1 :: "('e, 'j, 'cb) world" assume w1: "sound bl KS w1"
    show "safe (\<lambda>r w'. sound bl KS w' \<and> r \<in> set_js (CallGo e cr cbr this args k)) (sound bl KS) (run_js B i (k (v8 w1) ret) w1)"
      by (rule safe_mono [OF CallGo.IH [OF rangeI rangeI w1]]) auto
  qed
qed

lemma safe_run_result:
  assumes "bodies_sound (closures A)" "V8_isolate i \<in> owned KS" "sound bl KS w"
  shows "safe (\<lambda>r w'. sound bl KS w' \<and> r \<in> set_js (t (v8 w))) (sound bl KS) (run A i t w)"
  unfolding run_def by (rule safe_run_js [OF assms])

lemma safe_run [safe_intros]:
  "bodies_sound (closures A) \<Longrightarrow> V8_isolate i \<in> owned KS \<Longrightarrow> sound bl KS w \<Longrightarrow> safely (sound bl KS) (run A i t w)"
  by (rule safe_mono [OF safe_run_result]) auto

section \<open>Scopes and structs\<close>

lemma safe_isolate_scope [safe_intros]:
  assumes "sound bl KS w" "ptr V8_isolate p \<in> owned KS" "\<And>i. V8_isolate i \<in> owned KS \<Longrightarrow> safe Q (sound bl KS) (k i w)"
  shows "safe Q (sound bl KS) (isolate_scope p k w)"
  using assms sound_alive [OF assms(1,2)] by (cases p) (auto simp: isolate_scope_def)

lemma safe_internal_scope [safe_intros]:
  assumes "sound bl KS w" "ptr V8_isolate p \<in> owned KS"
    and "\<And>i c. V8_isolate i \<in> owned KS \<Longrightarrow> M_ctx c \<in> owned KS \<Longrightarrow> safe Q (sound bl KS) (k i (Some c) w)"
  shows "safe Q (sound bl KS) (internal_scope p k w)"
proof -
  from sound_alive [OF assms(1,2)] obtain i v where i: "p = Some i" "isolates w i = Some v" by (cases p) auto
  moreover obtain c where "slot0 v = Some c"
    using internal_live [of w i v] i sound_world(1) [OF assms(1)] by (auto simp: world_ok_def)
  ultimately show ?thesis
    using assms(3) [of i c] assms(2) sound_needs [OF assms(1,2), of "M_ctx c"] by (simp add: internal_scope_def)
qed

lemma safe_local_context [safe_intros]:
  assumes "sound bl KS w" "ptr M_ctx p \<in> owned KS"
    and "\<And>i c h. V8_isolate i \<in> owned KS \<Longrightarrow> M_ctx c \<in> owned KS \<Longrightarrow> safe Q (sound bl KS) (k i c h w)"
  shows "safe Q (sound bl KS) (local_context p k w)"
proof -
  from sound_alive [OF assms(1,2)] obtain c mc where c: "p = Some c" "mctxs w c = Some mc" by (cases p) auto
  then have "V8_isolate (mc_iso mc) \<in> owned KS" using sound_needs [OF assms(1,2)] by simp
  then show ?thesis
    using c assms(2,3) sound_alive [OF assms(1), of "V8_isolate (mc_iso mc)"] by (auto simp: local_context_def)
qed

lemma safe_local_value [safe_intros]:
  assumes "sound bl KS w" "ptr M_value p \<in> owned KS"
    and "\<And>i c h v. V8_isolate i \<in> owned KS \<Longrightarrow> M_ctx c \<in> owned KS \<Longrightarrow> safe Q (sound bl KS) (k i c h v w)"
  shows "safe Q (sound bl KS) (local_value p k w)"
proof -
  from sound_alive [OF assms(1,2)] obtain q mv where q: "p = Some q" "mvals w q = Some mv" by (cases p) auto
  then have iso: "V8_isolate (mv_iso mv) \<in> owned KS" and ctx: "ptr M_ctx (mv_ctx mv) \<in> owned KS"
    using sound_needs [OF assms(1,2)] by simp_all
  from sound_alive [OF assms(1) ctx] obtain c mc where "mv_ctx mv = Some c" "mctxs w c = Some mc"
    by (cases "mv_ctx mv") auto
  then show ?thesis
    using q iso ctx assms(3) sound_alive [OF assms(1) iso] by (auto simp: local_value_def)
qed

lemma safe_local_template [safe_intros]:
  assumes "sound bl KS w" "ptr M_template p \<in> owned KS" "\<And>i h. V8_isolate i \<in> owned KS \<Longrightarrow> safe Q (sound bl KS) (k i h w)"
  shows "safe Q (sound bl KS) (local_template p k w)"
proof -
  from sound_alive [OF assms(1,2)] obtain q t where q: "p = Some q" "mtmpls w q = Some t" by (cases p) auto
  then have iso: "V8_isolate (mt_iso t) \<in> owned KS" using sound_needs [OF assms(1,2)] by simp
  then show ?thesis using q assms(3) sound_alive [OF assms(1) iso] by (auto simp: local_template_def)
qed

lemma safe_get_handle [safe_intros]:
  "sound bl KS w \<Longrightarrow> ptr M_value p \<in> owned KS \<Longrightarrow> safely (sound bl KS) (get_handle p w)"
  using sound_alive [of bl KS w "ptr M_value p"] by (cases p) (auto simp: get_handle_def)

lemma safe_with_isolate [safe_intros]:
  assumes "sound bl KS w" "Go_isolate a \<in> owned KS" "\<And>g. ptr V8_isolate (i_ptr g) \<in> owned KS \<Longrightarrow> safe Q (sound bl KS) (k g w)"
  shows "safe Q (sound bl KS) (with_isolate a k w)"
  using sound_alive [OF assms(1,2)] sound_needs [OF assms(1,2)] assms(3) by (auto simp: with_isolate_def)

lemma safe_with_context [safe_intros]:
  assumes "sound bl KS w" "Go_context a \<in> owned KS"
    and "\<And>c. ptr M_ctx (c_ptr c) \<in> owned KS \<Longrightarrow> Go_isolate (c_iso c) \<in> owned KS \<Longrightarrow> safe Q (sound bl KS) (k c w)"
  shows "safe Q (sound bl KS) (with_context a k w)"
  using sound_alive [OF assms(1,2)] sound_needs [OF assms(1,2)] assms(3) by (auto simp: with_context_def)

lemma safe_with_template [safe_intros]:
  assumes "sound bl KS w" "Go_template a \<in> owned KS"
    and "\<And>t. ptr M_template (t_ptr t) \<in> owned KS \<Longrightarrow> (\<And>i. t_iso t = Some i \<Longrightarrow> Go_isolate i \<in> owned KS) \<Longrightarrow> safe Q (sound bl KS) (k t w)"
  shows "safe Q (sound bl KS) (with_template a k w)"
  using sound_alive [OF assms(1,2)] sound_needs [OF assms(1,2)] assms(3) by (auto simp: with_template_def)

section \<open>Strings\<close>

text \<open>Blocks are not pointers a client holds: they are allocated and freed within one operation.\<close>

lemma sound_blocks:
  assumes "sound bl KS w" "clean bl' (w\<lparr>blocks := bl'\<rparr>)"
  shows "sound bl' KS (w\<lparr>blocks := bl'\<rparr>)"
  using assms by (simp add: sound_def)

lemma safe_malloc:
  assumes "sound bl KS w"
  shows "safe (\<lambda>p w'. bl p = None \<and> sound (bl(p \<mapsto> b)) KS w' \<and> usable w' = usable w) (\<lambda>_. False) (malloc b w)"
proof (cases "brk w < mem_limit")
  case True
  have c: "clean bl w" using assms by (simp add: sound_def)
  have "world_ok (w\<lparr>brk := Suc (brk w), blocks := (blocks w)(brk w \<mapsto> b)\<rparr>)"
    using world_malloc [of w b] c True by (simp add: malloc_def c_new_def clean_def)
  then show ?thesis
    using assms True clean_fresh [OF c] by (simp add: malloc_def c_new_def sound_def clean_def)
qed (simp add: malloc_def c_new_def)

lemma safe_cfree:
  assumes "sound (bl(p \<mapsto> b)) KS w" "bl p = None"
  shows "\<exists>w'. cfree (Some p) w = Ok () w' \<and> sound bl KS w' \<and> usable w' = usable w"
proof -
  have "keeps world_ok (cfree (Some p) w)" using assms by (intro world_cfree) (simp add: sound_def clean_def)
  moreover have "bl(p := None) = bl" using assms(2) by (simp add: fun_upd_idem)
  ultimately show ?thesis using assms(1) by (auto simp: cfree_def clean_def sound_def)
qed

lemma yields_defer_free:
  assumes "yields F (bl(p \<mapsto> b)) KS m" "bl p = None"
  shows "yields F bl KS (defer_free (Some p) m)"
proof (cases m)
  case (Ok a w)
  with assms safe_cfree [of bl p b KS w] show ?thesis by auto
next
  case (Fault f w)
  with assms safe_cfree [of bl p b KS w] show ?thesis by (cases "recoverable f") auto
qed

definition c_string :: "(addr \<Rightarrow> block option) \<Rightarrow> addr \<Rightarrow> bytes \<Rightarrow> bool" where
  "c_string bl p s \<longleftrightarrow> bl p = Some (Chars (s @ [NUL]))"

lemma yields_withCString [safe_intros]:
  fixes w :: "('e, 'j, 'cb) world"
  assumes w: "sound bl KS w"
    and body: "\<And>p bl' (w' :: ('e, 'j, 'cb) world). sound bl' KS w' \<Longrightarrow> c_string bl' p s \<Longrightarrow> yields F bl' KS (body p w')"
  shows "yields F bl KS (withCString s body w)"
  unfolding withCString_def CString_def
proof (rule safe_bind [OF safe_weaken [OF safe_malloc [OF w]]])
  fix p and w' :: "('e, 'j, 'cb) world"
  assume "bl p = None \<and> sound (bl(p \<mapsto> Chars (s @ [NUL]))) KS w' \<and> usable w' = usable w"
  then show "yields F bl KS (defer_free (Some p) (body p w'))"
    by (intro yields_defer_free [where b = "Chars (s @ [NUL])"] body) (auto simp: c_string_def)
qed

lemma safely_withCString [safe_intros]:
  fixes w :: "('e, 'j, 'cb) world"
  assumes w: "sound bl KS w"
    and body: "\<And>p bl' (w' :: ('e, 'j, 'cb) world). sound bl' KS w' \<Longrightarrow> c_string bl' p s \<Longrightarrow> safely (sound bl' KS) (body p w')"
  shows "safely (sound bl KS) (withCString s body w)"
  using yields_withCString [OF w, of s "\<lambda>_. {}" body] body by simp

lemma yields_two_strings [safe_intros]:
  fixes w :: "('e, 'j, 'cb) world"
  assumes w: "sound bl KS w"
    and body: "\<And>p q bl' (w' :: ('e, 'j, 'cb) world). sound bl' KS w' \<Longrightarrow> c_string bl' p s \<Longrightarrow>
       c_string bl' q t \<Longrightarrow> yields F bl' KS (body p q w')"
  shows "yields F bl KS (bindR (CString s w) (\<lambda>p w. bindR (CString t w) (\<lambda>q w.
     defer_free (Some p) (defer_free (Some q) (body p q w)))))"
  unfolding CString_def
proof (rule safe_bind [OF safe_weaken [OF safe_malloc [OF w]]])
  fix p and w1 :: "('e, 'j, 'cb) world"
  let ?bl = "bl(p \<mapsto> Chars (s @ [NUL]))"
  assume p: "bl p = None \<and> sound ?bl KS w1 \<and> usable w1 = usable w"
  show "yields F bl KS (bindR (malloc (Chars (t @ [NUL])) w1) (\<lambda>q w. defer_free (Some p) (defer_free (Some q) (body p q w))))"
  proof (rule safe_bind [OF safe_weaken [OF safe_malloc]])
    show "sound ?bl KS w1" using p by simp
    fix q and w2 :: "('e, 'j, 'cb) world"
    assume q: "?bl q = None \<and> sound (?bl(q \<mapsto> Chars (t @ [NUL]))) KS w2 \<and> usable w2 = usable w1"
    then have "yields F ?bl KS (defer_free (Some q) (body p q w2))"
      by (intro yields_defer_free [where b = "Chars (t @ [NUL])"] body) (auto simp: c_string_def)
    then show "yields F bl KS (defer_free (Some p) (defer_free (Some q) (body p q w2)))"
      using p by (intro yields_defer_free) auto
  qed
qed

lemma safe_utf8_arg [safe_intros]:
  "sound bl KS w \<Longrightarrow> c_string bl p s \<Longrightarrow> safely (sound bl KS) (utf8_arg A i p w)"
  unfolding utf8_arg_def by (auto simp: sound_world(2) c_string_def read_cstr_CString intro: safe_ask)

section \<open>Errors and values returned by C functions\<close>

definition raised_in :: "(addr \<Rightarrow> block option) \<Rightarrow> pointer set set \<Rightarrow> RtnError \<Rightarrow> ('e, 'j, 'cb) world \<Rightarrow> bool" where
  "raised_in bl KS e w \<longleftrightarrow> (\<exists>x w1. sound bl KS w1 \<and> ExceptionError x w1 = Ok e w)"

definition rtn_sound :: "(addr \<Rightarrow> block option) \<Rightarrow> pointer set set \<Rightarrow> RtnValue \<Rightarrow> ('e, 'j, 'cb) world \<Rightarrow> bool" where
  "rtn_sound bl KS rtn w = (case rtn_value rtn of None \<Rightarrow> raised_in bl KS (rtn_error rtn) w
     | Some p \<Rightarrow> sound bl KS w \<and> M_value p \<in> usable w)"

abbreviation gives_rtn :: "(addr \<Rightarrow> block option) \<Rightarrow> pointer set set \<Rightarrow> (RtnValue, ('e, 'j, 'cb) world) res \<Rightarrow> bool" where
  "gives_rtn bl KS \<equiv> safe (rtn_sound bl KS) (sound bl KS)"

lemma safe_newJSError: "raised_in bl KS e w \<Longrightarrow> safely (sound bl KS) (newJSError e w)"
proof -
  assume "raised_in bl KS e w"
  then obtain x w1 where w1: "sound bl KS w1" "ExceptionError x w1 = Ok e w" by (auto simp: raised_in_def)
  then have eq: "newJSError e w = Ok (JSErr (js_error_of x)) (w1\<lparr>brk := brk w1 + strings_of x\<rparr>)"
    by (intro newJSError_ExceptionError) (auto simp: sound_def clean_def world_ok_def)
  have "keeps (clean bl) (newJSError e w)"
    by (rule clean_newJSError) (use w1 in \<open>auto simp: owes_def sound_def\<close>)
  then show ?thesis using w1(1) eq by (simp add: sound_def)
qed

lemma safe_raised:
  fixes w :: "('e, 'j, 'cb) world"
  assumes "bodies_sound (closures A)" "V8_isolate i \<in> owned KS" "sound bl KS w"
  shows "safe (raised_in bl KS) (sound bl KS) (raised A i w)"
  unfolding raised_def
proof (rule safely_bind [OF safe_run [OF assms]])
  fix x and w' :: "('e, 'j, 'cb) world" assume "sound bl KS w'"
  then show "safe (raised_in bl KS) (sound bl KS) (ExceptionError x w')"
    by (cases "ExceptionError x w'") (auto simp: raised_in_def dest: ExceptionError_Fault)
qed

lemma gives_fail_value [safe_intros]:
  "bodies_sound (closures A) \<Longrightarrow> V8_isolate i \<in> owned KS \<Longrightarrow> sound bl KS w \<Longrightarrow> gives_rtn bl KS (fail_value A i w)"
  unfolding fail_value_def by (rule safe_bind [OF safe_raised]) (auto simp: rtn_sound_def)

lemma gives_give_value [safe_intros]:
  "M_ctx c \<in> owned KS \<Longrightarrow> V8_isolate i \<in> owned KS \<Longrightarrow> sound bl KS w \<Longrightarrow> gives_rtn bl KS (give_value i (Some c) j w)"
  unfolding give_value_def by (rule safe_bind [OF safe_weaken [OF safe_new_value]]) (auto simp: rtn_sound_def)

lemma gives_rtn_of [safe_intros]:
  "bodies_sound (closures A) \<Longrightarrow> M_ctx c \<in> owned KS \<Longrightarrow> V8_isolate i \<in> owned KS \<Longrightarrow> sound bl KS w \<Longrightarrow>
     gives_rtn bl KS (rtn_of A i (Some c) r w)"
  unfolding rtn_of_def by (intro safe_intros)

text \<open>The Go side of such a result.\<close>

definition held :: "pointer set set \<Rightarrow> addr option \<Rightarrow> bool" where
  "held KS ctx \<longleftrightarrow> (\<forall>a. ctx = Some a \<longrightarrow> Go_context a \<in> owned KS)"

lemma held_simps [simp]: "held KS None" "held KS (Some a) \<longleftrightarrow> Go_context a \<in> owned KS"
  by (auto simp: held_def)

fun inr_pointers :: "('a \<Rightarrow> pointer set) \<Rightarrow> goerror + 'a \<Rightarrow> pointer set" where
  "inr_pointers F (Inl _) = {}"
| "inr_pointers F (Inr x) = F x"

lemma yields_Inl [safe_intros]: "sound bl KS w \<Longrightarrow> yields (inr_pointers F) bl KS (Ok (Inl e) w)"
  by simp

lemma value_pointers_held:
  assumes "sound bl KS w" "M_value p \<in> usable w" "held KS ctx"
  shows "value_pointers \<lparr>v_ptr = Some p, v_ctx = ctx\<rparr> \<subseteq> usable w"
  using assms sound_usable [OF assms(1)] by (cases ctx) (auto simp: value_pointers_def)

lemma yields_valueResult [safe_intros]:
  assumes "gives_rtn bl KS m" "held KS ctx"
  shows "yields (inr_pointers value_pointers) bl KS (bindR m (\<lambda>rtn w. valueResult ctx rtn w))"
proof (rule safe_bind [OF assms(1)])
  fix rtn and w :: "('a, 'b, 'c) world" assume rtn: "rtn_sound bl KS rtn w"
  show "yields (inr_pointers value_pointers) bl KS (valueResult ctx rtn w)"
    using rtn assms(2) unfolding valueResult_def rtn_sound_def
    by (cases "rtn_value rtn") (auto intro!: safely_bind safe_newJSError dest: value_pointers_held)
qed

lemma yields_objectResult [safe_intros]:
  assumes "gives_rtn bl KS m" "held KS ctx"
  shows "yields (inr_pointers (value_pointers \<circ> obj_value)) bl KS (bindR m (\<lambda>rtn w. objectResult ctx rtn w))"
proof (rule safe_bind [OF assms(1)])
  fix rtn and w :: "('a, 'b, 'c) world" assume rtn: "rtn_sound bl KS rtn w"
  show "yields (inr_pointers (value_pointers \<circ> obj_value)) bl KS (objectResult ctx rtn w)"
    using rtn assms(2) unfolding objectResult_def rtn_sound_def
    by (cases "rtn_value rtn") (auto intro!: safely_bind safe_newJSError dest: value_pointers_held)
qed

end
