(* ===== verification/Safe_Values.thy ===== *)
theory Safe_Values
  imports Safety
begin

text \<open>
  Memory safety of value.go, object.go and function.go: creating values, conversions, type
  predicates, properties, calls.
\<close>

section \<open>Lengths that cross the border\<close>

lemma c_int_le: "0 \<le> c_int (int n) \<Longrightarrow> nat (c_int (int n)) \<le> n"
  using zmod_le_nonneg_dividend [of "int n + 2 ^ 31" "2 ^ 32"] by (simp add: c_int_def)

lemma c_int_not_less [simp]: "\<not> n < nat (c_int (int n))"
  using c_int_le [of n] by linarith

text \<open>
  V8 limits the length of a string, so that the bytes of one never exceed the range of a C int
  (\<open>String::kMaxLength\<close>); the same holds of the data of a code cache.
\<close>

definition v8_limits :: "('e, 'j, 'cb) env \<Rightarrow> bool" where
  "v8_limits A \<longleftrightarrow>
     (\<forall>i v e s. s \<in> set_js (v8_utf8_value A i v e) \<longrightarrow> length s < 2 ^ 31) \<and>
     (\<forall>h v e s. Some s \<in> set_js (v8_detail_string A h v e) \<longrightarrow> length s < 2 ^ 31) \<and>
     (\<forall>u e. length (fst (v8_code_cache A u e)) < 2 ^ 31)"

lemma safe_goval [safe_intros]:
  assumes "\<And>x. v = GString x \<Longrightarrow> safe Q R (f1 x)" "\<And>x. v = GInt32 x \<Longrightarrow> safe Q R (f2 x)"
    "\<And>x. v = GUint32 x \<Longrightarrow> safe Q R (f3 x)" "\<And>x. v = GInt64 x \<Longrightarrow> safe Q R (f4 x)"
    "\<And>x. v = GUint64 x \<Longrightarrow> safe Q R (f5 x)" "\<And>x. v = GBool x \<Longrightarrow> safe Q R (f6 x)"
    "\<And>x. v = GFloat64 x \<Longrightarrow> safe Q R (f7 x)" "\<And>x. v = GBigInt x \<Longrightarrow> safe Q R (f8 x)"
    "\<And>x. v = GValue x \<Longrightarrow> safe Q R (f9 x)" "\<And>t x. v = GValuer t x \<Longrightarrow> safe Q R (f10 t x)"
    "\<And>x. v = GObjectTemplate x \<Longrightarrow> safe Q R (f11 x)" "\<And>x. v = GFunctionTemplate x \<Longrightarrow> safe Q R (f12 x)"
    "\<And>x. v = GOther x \<Longrightarrow> safe Q R (f13 x)"
  shows "safe Q R (case_goval f1 f2 f3 f4 f5 f6 f7 f8 f9 f10 f11 f12 f13 v)"
  using assms by (cases v) auto

section \<open>Creating values\<close>

lemma yields_new_value:
  "M_ctx c \<in> owned KS \<Longrightarrow> V8_isolate i \<in> owned KS \<Longrightarrow> sound bl KS w \<Longrightarrow>
     yields (\<lambda>a. {M_value a}) bl KS (new_value i (Some c) j w)"
  by (rule safe_mono [OF safe_weaken [OF safe_new_value]]) auto

lemma yields_primitive [safe_intros]:
  "ptr V8_isolate p \<in> owned KS \<Longrightarrow> sound bl KS w \<Longrightarrow> yields (\<lambda>a. {M_value a}) bl KS (C_new_primitive f p w)"
  unfolding C_new_primitive_def by (intro safe_intros safely_bind yields_new_value | assumption)+

lemma yields_plain_value [safe_intros]:
  assumes "yields (\<lambda>a. {M_value a}) bl KS m"
  shows "yields (inr_pointers value_pointers) bl KS (plain_value m)"
  unfolding plain_value_def by (rule safe_bind [OF assms]) (auto simp: value_pointers_def)

lemma gives_NewValueString [safe_intros]:
  assumes A: "bodies_sound (closures A)" and p: "ptr V8_isolate p \<in> owned KS" and w: "sound bl KS w"
    and v: "c_string bl v s"
  shows "gives_rtn bl KS (C_NewValueString A p v (c_int (int (length s))) w)"
proof -
  have arg: "safely (sound bl KS) (bindR (GoStringN (Some v) (c_int (int (length s))) w) (\<lambda>s w. ask (v8_new_utf8 A i s) w))"
    if "\<not> c_int (int (length s)) < 0" for i
    using that v c_int_le [of "length s"] safe_ask [OF w] by (simp add: GoStringN_def sound_world(2) [OF w] c_string_def del: safe.simps)
  show ?thesis
    unfolding C_NewValueString_def using w v
    by (intro safe_internal_scope [OF w p] safely_bind safe_cases arg gives_rtn_of A safe_utf8_arg) assumption+
qed

text \<open>A \<open>*big.Int\<close> of fewer words than a C int can count.\<close>

fun countable :: "goval \<Rightarrow> bool" where
  "countable (GBigInt n) = (length (nat_words (nat \<bar>n\<bar>)) < 2 ^ 31)"
| "countable _ = True"

lemma gives_NewValueBigIntFromWords [safe_intros]:
  assumes A: "bodies_sound (closures A)" and p: "ptr V8_isolate p \<in> owned KS" and w: "sound bl KS w"
    and n: "0 \<le> n" "nat n \<le> length ws"
  shows "gives_rtn bl KS (C_NewValueBigIntFromWords A p s n ws w)"
  unfolding C_NewValueBigIntFromWords_def
proof (rule safe_internal_scope [OF w p])
  fix i c assume c: "V8_isolate i \<in> owned KS" "M_ctx c \<in> owned KS"
  from sound_alive [OF w c(2)] obtain mc where "mctxs w c = Some mc" by auto
  then show "gives_rtn bl KS (case c_deref (mctxs w) (Some c) of None \<Rightarrow> Fault Segv w
     | Some (_, mc) \<Rightarrow> if n < 0 \<or> length ws < nat n then Fault Segv w
        else bindR (ask (v8_bigint_words A (mc_ptr mc) s (take (nat n) ws)) w) (\<lambda>b w. rtn_of A i (Some c) b w))"
    using n by (auto intro!: safely_bind [OF safe_ask [OF w]] gives_rtn_of A c)
qed

lemma yields_NewValue_BigInt [safe_intros]:
  assumes "bodies_sound (closures A)" "ptr V8_isolate p \<in> owned KS" "sound bl KS w" "countable (GBigInt v)"
  shows "yields (inr_pointers value_pointers) bl KS (NewValue_BigInt A p v w)"
proof -
  have "c_int (int (length (nat_words (nat \<bar>v\<bar>)))) = int (length (nat_words (nat \<bar>v\<bar>)))"
    using assms(4) by (intro c_int_id) auto
  then show ?thesis
    unfolding NewValue_BigInt_def C_primitive_defs Let_def
    by (intro safe_intros assms(1-3)) simp_all
qed

lemma yields_NewValue [safe_intros]:
  fixes w :: "('e, 'j, 'cb) world"
  assumes A: "bodies_sound (closures A)" and w: "sound bl KS w" and v: "countable v"
    and a: "\<And>a. p = Some a \<Longrightarrow> Go_isolate a \<in> owned KS"
  shows "yields (inr_pointers value_pointers) bl KS (NewValue A p v w)"
proof (cases p)
  case (Some a)
  then have a: "Go_isolate a \<in> owned KS" by (rule a)
  show ?thesis
  proof (cases v)
    case (GString s)
    show ?thesis
      unfolding NewValue_def Some GString option.case goval.case
    proof (rule yields_withCString [OF w])
      fix q bl' and w' :: "('e, 'j, 'cb) world"
      assume "sound bl' KS w'" "c_string bl' q s"
      then show "yields (inr_pointers value_pointers) bl' KS (with_isolate a (\<lambda>i w.
          bindR (C_NewValueString A (i_ptr i) q (c_int (int (length s))) w) (\<lambda>rtn w. valueResult None rtn w)) w')"
        by (intro safe_with_isolate yields_valueResult gives_NewValueString A) (use a in auto)
    qed
  next
    case (GBigInt n)
    then show ?thesis
      unfolding NewValue_def Some GBigInt option.case goval.case
      by (intro safe_with_isolate [OF w a] yields_NewValue_BigInt [OF A _ w]) (use v GBigInt in auto)
  qed (simp_all only: NewValue_def C_primitive_defs Some option.case goval.case,
       (intro safe_with_isolate [OF w a] yields_plain_value yields_primitive yields_Inl w | assumption)+)
qed (use w in \<open>simp add: NewValue_def\<close>)

section \<open>Results that own a block\<close>

definition block_in ::
    "(addr \<Rightarrow> block option) \<Rightarrow> pointer set set \<Rightarrow> (block \<Rightarrow> bool) \<Rightarrow> addr option \<Rightarrow> ('e, 'j, 'cb) world \<Rightarrow> bool" where
  "block_in bl KS P p w \<longleftrightarrow> (case p of None \<Rightarrow> sound bl KS w
     | Some a \<Rightarrow> bl a = None \<and> (\<exists>b. P b \<and> sound (bl(a \<mapsto> b)) KS w))"

lemma block_in_malloc: "sound bl KS w \<Longrightarrow> P b \<Longrightarrow> safe (\<lambda>a. block_in bl KS P (Some a)) (\<lambda>_. False) (malloc b w)"
  by (rule safe_mono [OF safe_malloc]) (auto simp: block_in_def)

lemma safe_defer_block:
  assumes "block_in bl KS P p w"
    and "\<And>bl'. sound bl' KS w \<Longrightarrow> (\<And>a. p = Some a \<Longrightarrow> \<exists>b. P b \<and> bl' a = Some b) \<Longrightarrow> safely (sound bl' KS) m"
  shows "safely (sound bl KS) (defer_free p m)"
proof (cases p)
  case None
  with assms have "safely (sound bl KS) m" by (simp add: block_in_def)
  with None show ?thesis by (cases m) (auto simp: cfree_def)
next
  case (Some a)
  with assms(1) obtain b where b: "bl a = None" "P b" "sound (bl(a \<mapsto> b)) KS w" by (auto simp: block_in_def)
  then have "safely (sound (bl(a \<mapsto> b)) KS) m" using assms(2) [of "bl(a \<mapsto> b)"] Some by auto
  then show ?thesis using yields_defer_free [where F = "\<lambda>_. {}" and bl = bl and p = a and b = b and KS = KS and m = m] b(1) Some by simp
qed

lemma safe_ArrayIndex [safe_intros]:
  fixes w :: "('e, 'j, 'cb) world"
  assumes A: "bodies_sound (closures A)" and w: "sound bl KS w" and v: "value_pointers v \<subseteq> owned KS"
  shows "safely (sound bl KS) (ArrayIndex A v w)"
proof -
  have p: "ptr M_value (v_ptr v) \<in> owned KS" using v by (simp add: value_pointers_def)
  have "safe (block_in bl KS (\<lambda>b. \<exists>n. b = U32 n)) (sound bl KS) (C_ValueToArrayIndex A (v_ptr v) w)"
    unfolding C_ValueToArrayIndex_def
    by (intro safe_local_value [OF w p] safely_bind [OF safe_run [OF A _ w]] safe_cases safely_Ok
        safe_bind [OF safe_weaken [OF block_in_malloc]]) (auto simp: block_in_def)
  then show ?thesis
    unfolding ArrayIndex_def
  proof (rule safe_bind)
    fix r and w' :: "('e, 'j, 'cb) world" assume "block_in bl KS (\<lambda>b. \<exists>n. b = U32 n) r w'"
    then show "safely (sound bl KS) (defer_free r (case r of None \<Rightarrow> Ok (0, False) w'
        | Some a \<Rightarrow> (case blocks w' a of Some (U32 n) \<Rightarrow> Ok (n, True) w' | _ \<Rightarrow> Fault Segv w')))"
      by (rule safe_defer_block) (fastforce simp: sound_world(2) split: option.splits)
  qed
qed


lemma safe_BigInt [safe_intros]:
  fixes w :: "('e, 'j, 'cb) world"
  assumes A: "bodies_sound (closures A)" and w: "sound bl KS w" and v: "\<And>x. v = Some x \<Longrightarrow> value_pointers x \<subseteq> owned KS"
  shows "safely (sound bl KS) (BigInt A v w)"
proof (cases v)
  case (Some x)
  then have p: "ptr M_value (v_ptr x) \<in> owned KS" using v by (simp add: value_pointers_def)
  let ?Q = "\<lambda>r w. \<exists>ws. (word_array r \<noteq> None \<longrightarrow> word_count r = c_int (int (length ws))) \<and> block_in bl KS (\<lambda>b. b = U64s ws) (word_array r) w"
  have "safe ?Q (sound bl KS) (C_ValueToBigInt A (v_ptr x) w)"
    unfolding C_ValueToBigInt_def
  proof (intro safe_local_value [OF w p] safely_bind [OF safe_run [OF A _ w]] safe_cases)
    fix r s ws and w' :: "('e, 'j, 'cb) world" assume "sound bl KS w'"
    then show "safe ?Q (sound bl KS) (bindR (malloc (U64s ws) w') (\<lambda>a w. Ok \<lparr>word_array = Some a, word_count = c_int (int (length ws)), sign_bit = s\<rparr> w))"
      by (intro safe_bind [OF safe_weaken [OF block_in_malloc [where P = "\<lambda>b. b = U64s ws"]]]) auto
  qed (auto simp: block_in_def)
  then show ?thesis
    unfolding BigInt_def Some option.case
  proof (rule safe_bind)
    fix r and w' :: "('e, 'j, 'cb) world" assume "?Q r w'"
    then obtain ws where "word_array r \<noteq> None \<longrightarrow> word_count r = c_int (int (length ws))" "block_in bl KS (\<lambda>b. b = U64s ws) (word_array r) w'" by auto
    then show "safely (sound bl KS) (defer_free (word_array r) (case word_array r of None \<Rightarrow> Ok None w'
        | Some a \<Rightarrow> (case blocks w' a of
             Some (U64s ws) \<Rightarrow> if word_count r < 0 \<or> 2 ^ 30 < word_count r then Fault IndexOutOfRange w'
               else if length ws < nat (word_count r) then Fault Segv w'
               else (let b = int (words_nat (take (nat (word_count r)) ws)) in Ok (Some (if sign_bit r = 1 then - b else b)) w')
           | _ \<Rightarrow> Fault Segv w')))"
      by (intro safe_defer_block) (auto simp: sound_world(2) Let_def split: option.splits)
  qed
qed (use w in \<open>simp add: BigInt_def\<close>)

lemma safe_String [safe_intros]:
  fixes w :: "('e, 'j, 'cb) world"
  assumes A: "bodies_sound (closures A)" "v8_limits A" and w: "sound bl KS w" and v: "value_pointers v \<subseteq> owned KS"
  shows "safely (sound bl KS) (String A v w)"
proof -
  have p: "ptr M_value (v_ptr v) \<in> owned KS" using v by (simp add: value_pointers_def)
  let ?Q = "\<lambda>r w. \<exists>s. rs_length r = int (length s) \<and> block_in bl KS (\<lambda>b. b = Chars s) (rs_data r) w"
  have "safe ?Q (sound bl KS) (C_ValueToString A (v_ptr v) w)"
    unfolding C_ValueToString_def
  proof (intro safe_local_value [OF w p], rule safe_bind [OF safe_run_result [OF A(1) _ w]])
    fix i h j s and w' :: "('e, 'j, 'cb) world"
    assume s: "sound bl KS w' \<and> s \<in> set_js (v8_utf8_value A i j (v8 w))"
    then have "c_int (int (length s)) = int (length s)" using A(2) by (intro c_int_id) (auto simp: v8_limits_def)
    then show "safe ?Q (sound bl KS) (bindR (malloc (Chars s) w') (\<lambda>a w. Ok \<lparr>rs_data = Some a, rs_length = c_int (int (length s)), rs_error = no_error\<rparr> w))"
      using s by (intro safe_bind [OF safe_weaken [OF block_in_malloc [where P = "\<lambda>b. b = Chars s"]]]) auto
  qed
  then show ?thesis
    unfolding String_def
    by (rule safe_bind) (elim exE conjE, erule safe_defer_block, auto simp: GoStringN_def sound_world(2) split: option.splits)
qed

lemma block_in_CopyUtf8:
  "sound bl KS w \<Longrightarrow> safe (block_in bl KS (\<lambda>b. b = Chars (s @ [NUL]))) (\<lambda>_. False) (CopyUtf8 s w)"
  unfolding CopyUtf8_def CopyString_def
  by (auto simp: block_in_def [of bl KS _ None] intro: safe_bind [OF block_in_malloc])

lemma raised_in_no_error: "sound bl KS w \<Longrightarrow> raised_in bl KS no_error w"
  unfolding raised_in_def
  by (intro exI [of _ "\<lparr>ex_terminated = False, ex_exception = [], ex_message = None, ex_stack = None\<rparr>"] exI [of _ w])
     (simp add: ExceptionError_def CopyUtf8_def)

lemma safe_DetailString [safe_intros]:
  fixes w :: "('e, 'j, 'cb) world"
  assumes A: "bodies_sound (closures A)" "v8_limits A" and w: "sound bl KS w" and v: "value_pointers v \<subseteq> owned KS"
  shows "safely (sound bl KS) (DetailString A v w)"
proof -
  have p: "ptr M_value (v_ptr v) \<in> owned KS" using v by (simp add: value_pointers_def)
  let ?Q = "\<lambda>r w. if rs_data r = None then raised_in bl KS (rs_error r) w
     else \<exists>s. rs_length r = int (length s) \<and> block_in bl KS (\<lambda>b. b = Chars (s @ [NUL])) (rs_data r) w"
  have copy: "safe ?Q (sound bl KS) (bindR (CopyUtf8 s w) (\<lambda>a w. Ok \<lparr>rs_data = a, rs_length = c_int (int (length s)), rs_error = no_error\<rparr> w))"
    if "sound bl KS w" "length s < 2 ^ 31" for s and w :: "('e, 'j, 'cb) world"
    by (rule safe_bind [OF safe_weaken [OF block_in_CopyUtf8 [OF that(1)]]])
       (use that in \<open>auto simp: c_int_id block_in_def intro: raised_in_no_error\<close>)
  have fail: "safe ?Q (sound bl KS) (bindR (raised A i w) (\<lambda>e w. Ok \<lparr>rs_data = None, rs_length = 0, rs_error = e\<rparr> w))"
    if "sound bl KS w" "V8_isolate i \<in> owned KS" for i and w :: "('e, 'j, 'cb) world"
    by (rule safe_bind [OF safe_raised [OF A(1) that(2,1)]]) simp
  have "safe ?Q (sound bl KS) (C_ValueToDetailString A (v_ptr v) w)"
    unfolding C_ValueToDetailString_def
    by (intro safe_local_value [OF w p] safe_bind [OF safe_run_result [OF A(1) _ w]] safe_cases fail copy)
       (use A(2) in \<open>auto simp: v8_limits_def\<close>)
  then show ?thesis
    unfolding DetailString_def
  proof (rule safe_bind)
    fix r and w' :: "('e, 'j, 'cb) world" assume r: "?Q r w'"
    show "safely (sound bl KS) (if rs_data r = None then bindR (newJSError (rs_error r) w') (\<lambda>err w. Fault (PanicErr err) w)
        else defer_free (rs_data r) (GoStringN (rs_data r) (rs_length r) w'))"
    proof (cases "rs_data r")
      case None
      then show ?thesis using r by (auto intro!: safely_bind [OF safe_newJSError])
    next
      case (Some a)
      then obtain s where "rs_length r = int (length s)" "block_in bl KS (\<lambda>b. b = Chars (s @ [NUL])) (rs_data r) w'"
        using r by auto
      then show ?thesis
        using Some by (auto intro!: safe_defer_block simp: GoStringN_def sound_world(2) simp del: defer_free.simps)
    qed
  qed
qed

end
