(* ===== verification/Safe_Objects.thy ===== *)
theory Safe_Objects
  imports Safe_Values
begin

text \<open>
  Memory safety of the type predicates and casts of value.go, and of object.go and function.go.
\<close>

section \<open>Conversions, predicates and casts\<close>

lemma value_owned:
  "value_pointers v \<subseteq> owned KS \<longleftrightarrow> ptr M_value (v_ptr v) \<in> owned KS \<and> held KS (v_ctx v)"
  by (auto simp: value_pointers_def held_def split: option.splits)

lemma value_ownedD:
  "value_pointers v \<subseteq> owned KS \<Longrightarrow> ptr M_value (v_ptr v) \<in> owned KS"
  "value_pointers v \<subseteq> owned KS \<Longrightarrow> held KS (v_ctx v)"
  by (simp_all add: value_owned)

lemma yields_or_panic [safe_intros]: "yields (inr_pointers F) bl KS m \<Longrightarrow> yields F bl KS (or_panic m)"
  unfolding or_panic_def by (erule safe_bind) (auto split: sum.splits)

lemma yields_bind_Ok:
  fixes m :: "('a, ('e, 'j, 'cb) world) res"
  assumes "yields F bl KS m" "\<And>r (w :: ('e, 'j, 'cb) world). sound bl KS w \<Longrightarrow> F r \<subseteq> usable w \<Longrightarrow> G (f r) \<subseteq> usable w"
  shows "yields G bl KS (bindR m (\<lambda>r w. Ok (f r) w))"
proof (rule safe_bind [OF assms(1)])
  fix r and w :: "('e, 'j, 'cb) world" assume "sound bl KS w \<and> F r \<subseteq> usable w"
  then show "yields G bl KS (Ok (f r) w)" using assms(2) [of w r] by simp
qed

lemma safely_bind_Ok: "safely P m \<Longrightarrow> safely P (bindR m (\<lambda>r w. Ok (f r) w))"
  by (erule safely_bind) simp

lemma safe_conversions [safe_intros]:
  assumes A: "bodies_sound (closures A)" and w: "sound bl KS w" and v: "value_pointers v \<subseteq> owned KS"
  shows "safely (sound bl KS) (Boolean A v w)" "safely (sound bl KS) (Int32 A v w)" "safely (sound bl KS) (Integer A v w)"
    "safely (sound bl KS) (Number A v w)" "safely (sound bl KS) (Uint32 A v w)"
  unfolding Boolean_def C_ValueToBoolean_def Int32_def C_ValueToInt32_def Integer_def C_ValueToInteger_def
    Number_def C_ValueToNumber_def Uint32_def C_ValueToUint32_def
  by (intro safe_intros safely_bind_Ok A w value_ownedD [OF v] | assumption)+

lemma yields_Value_Object [safe_intros]:
  assumes A: "bodies_sound (closures A)" and w: "sound bl KS w" and v: "value_pointers v \<subseteq> owned KS"
  shows "yields (value_pointers \<circ> obj_value) bl KS (Value_Object A v w)"
proof -
  have eq: "Value_Object A v w = or_panic (bindR (C_ValueToObject A (v_ptr v) w) (\<lambda>rtn w. objectResult (v_ctx v) rtn w))"
    by (simp add: Value_Object_def or_panic_def bindR_assoc)
  show ?thesis
    unfolding eq C_ValueToObject_def
    by (intro yields_or_panic yields_objectResult safe_local_value [OF w] safely_bind [OF safe_run [OF A _ w]]
        gives_rtn_of [OF A] value_ownedD [OF v])
qed

lemma safe_SameValue [safe_intros]:
  assumes w: "sound bl KS w" and v: "value_pointers v \<subseteq> owned KS" "value_pointers u \<subseteq> owned KS"
  shows "safely (sound bl KS) (SameValue A v u w)"
proof -
  from sound_alive [OF w value_ownedD(1) [OF v(1)]] obtain q mv where q: "v_ptr v = Some q" "mvals w q = Some mv"
    by (cases "v_ptr v") auto
  then have "V8_isolate (mv_iso mv) \<in> owned KS" using sound_needs [OF w value_ownedD(1) [OF v(1)]] by simp
  then have "safely (sound bl KS) (isolate_scope (Some (mv_iso mv)) (\<lambda>i w.
      bindR (get_handle (v_ptr u) w) (\<lambda>v2 w. Ok (if v8_same_value A (mv_ptr mv) v2 (v8 w) then 1 else 0) w)) w)"
    by (intro safe_isolate_scope [OF w] safely_bind [OF safe_get_handle [OF w value_ownedD(1) [OF v(2)]]]) auto
  then show ?thesis
    unfolding SameValue_def C_ValueSameValue_def using q by (intro safely_bind_Ok) (simp only: c_deref_simps option.simps prod.case)
qed

lemma safe_value_is [safe_intros]:
  assumes w: "sound bl KS w" and v: "ptr M_value (v_ptr v) \<in> owned KS"
  shows "safely (sound bl KS) (value_is A pr v w)"
  unfolding value_is_def C_ValueIs_def by (intro safely_bind_Ok safe_local_value [OF w v] safely_Ok w)

lemma safe_IsObject [safe_intros]:
  assumes w: "sound bl KS w" and v: "ptr M_value (v_ptr v) \<in> owned KS"
  shows "safely (sound bl KS) (IsObject A v w)" "safely (sound bl KS) (IsExternal A v w)"
  unfolding IsObject_def IsExternal_def by (intro safe_cases safely_Ok safe_value_is assms)+

text \<open>A cast returns the value it was given.\<close>

lemma yields_casts [safe_intros]:
  assumes w: "sound bl KS w" and v: "value_pointers v \<subseteq> owned KS"
  shows "yields (inr_pointers (value_pointers \<circ> obj_value)) bl KS (AsObject A v w)"
    "yields (inr_pointers (value_pointers \<circ> obj_value \<circ> prom_object)) bl KS (AsPromise A v w)"
    "yields (inr_pointers (value_pointers \<circ> fn_value)) bl KS (AsFunction A v w)"
proof -
  have p: "ptr M_value (v_ptr v) \<in> owned KS" by (rule value_ownedD [OF v])
  have u: "value_pointers v \<subseteq> usable w" if "sound bl KS w" for w
    using v sound_usable [OF that] by auto
  show "yields (inr_pointers (value_pointers \<circ> obj_value)) bl KS (AsObject A v w)"
    "yields (inr_pointers (value_pointers \<circ> obj_value \<circ> prom_object)) bl KS (AsPromise A v w)"
    "yields (inr_pointers (value_pointers \<circ> fn_value)) bl KS (AsFunction A v w)"
    unfolding AsObject_def AsPromise_def AsFunction_def IsPromise_def IsFunction_def
    by (rule safely_bind, (intro safe_IsObject safe_value_is w p)[1], use u in auto)+
qed

section \<open>Calls\<close>

lemma safe_get_handles:
  "sound bl KS w \<Longrightarrow> \<forall>p \<in> set ps. ptr M_value p \<in> owned KS \<Longrightarrow> safely (sound bl KS) (get_handles ps w)"
proof (induction ps arbitrary: w)
  case (Cons p ps)
  show ?case
    unfolding get_handles.simps
    by (rule safely_bind [OF safe_get_handle]) (use Cons in \<open>auto intro!: safely_bind_Ok\<close>)
qed simp

text \<open>The arguments of a call, fewer than a C int can count.\<close>

lemma safe_buildCallArguments [safe_intros]:
  assumes "sound bl KS w" "length vs < 2 ^ 31" "\<forall>v \<in> set vs. value_pointers v \<subseteq> owned KS"
  shows "safely (sound bl KS) (buildCallArguments (c_int (int (length vs))) (map v_ptr vs) w)"
proof -
  have "c_int (int (length vs)) = int (length vs)" using assms(2) by (intro c_int_id) auto
  then show ?thesis
    using assms(1,3) by (auto simp: buildCallArguments_def value_owned simp del: get_handles.simps intro!: safe_get_handles)
qed

lemma yields_calls [safe_intros]:
  assumes A: "bodies_sound (closures A)" and w: "sound bl KS w" and fn: "value_pointers (fn_value fn) \<subseteq> owned KS"
    and args: "length args < 2 ^ 31" "\<forall>v \<in> set args. value_pointers v \<subseteq> owned KS"
  shows "value_pointers recv \<subseteq> owned KS \<Longrightarrow> yields (inr_pointers value_pointers) bl KS (Function_Call A fn recv args w)"
    and "yields (inr_pointers (value_pointers \<circ> obj_value)) bl KS (Function_NewInstance A fn args w)"
  unfolding Function_Call_def C_FunctionCall_def Function_NewInstance_def C_FunctionNewInstance_def
  by (intro yields_valueResult yields_objectResult safe_local_value [OF w] safely_bind safe_buildCallArguments args
      safe_run [OF A] gives_rtn_of [OF A] value_ownedD [OF fn] safe_get_handle value_ownedD(1) w | assumption)+

lemma yields_SourceMapURL [safe_intros]:
  assumes w: "sound bl KS w" and fn: "value_pointers (fn_value fn) \<subseteq> owned KS"
  shows "yields value_pointers bl KS (SourceMapURL A fn w)"
  unfolding SourceMapURL_def C_FunctionSourceMapUrl_def
  by (rule yields_bind_Ok [where F = "\<lambda>a. {M_value a}"],
      (intro safe_local_value [OF w] yields_new_value w value_ownedD [OF fn]; assumption?)[1])
     (auto dest: value_pointers_held [OF _ _ value_ownedD(2) [OF fn]])

section \<open>Properties\<close>

lemma gives_C_ObjectGet [safe_intros]:
  assumes "bodies_sound (closures A)" "sound bl KS w" "ptr M_value p \<in> owned KS"
  shows "c_string bl key s \<Longrightarrow> gives_rtn bl KS (C_ObjectGet A p key w)" "gives_rtn bl KS (C_ObjectGetIdx A p idx w)"
  unfolding C_ObjectGet_def C_ObjectGetIdx_def
  by (intro safe_intros safely_bind assms | assumption)+

lemma yields_gets [safe_intros]:
  assumes "bodies_sound (closures A)" "sound bl KS w" "value_pointers (obj_value ob) \<subseteq> owned KS"
  shows "yields (inr_pointers value_pointers) bl KS (Object_Get A ob key w)"
    "yields (inr_pointers value_pointers) bl KS (Object_GetIdx A ob idx w)"
  unfolding Object_Get_def Object_GetIdx_def
  by (intro safe_intros assms value_ownedD [OF assms(3)] | assumption)+

lemma safe_tests [safe_intros]:
  assumes "bodies_sound (closures A)" "sound bl KS w" "value_pointers (obj_value ob) \<subseteq> owned KS"
  shows "safely (sound bl KS) (Object_Has A ob key w)" "safely (sound bl KS) (Object_HasIdx A ob idx w)"
    "safely (sound bl KS) (Object_Delete A ob key w)" "safely (sound bl KS) (Object_DeleteIdx A ob idx w)"
    "safely (sound bl KS) (Object_InternalFieldCount A ob w)"
  unfolding Object_Has_def C_ObjectHas_def Object_HasIdx_def C_ObjectHasIdx_def Object_Delete_def C_ObjectDelete_def
    Object_DeleteIdx_def C_ObjectDeleteIdx_def Object_InternalFieldCount_def C_ObjectInternalFieldCount_def
  by (intro safe_intros safely_bind assms value_ownedD [OF assms(3)] | assumption)+

text \<open>A method call: between finding the function and calling it the object, its arguments and the function stay usable.\<close>

lemma yields_MethodCall [safe_intros]:
  fixes w :: "('e, 'j, 'cb) world"
  assumes A: "bodies_sound (closures A)" and w: "sound bl KS w" and ob: "value_pointers (obj_value ob) \<subseteq> owned KS"
    and args: "length args < 2 ^ 31" "\<forall>v \<in> set args. value_pointers v \<subseteq> owned KS"
  shows "yields (inr_pointers value_pointers) bl KS (MethodCall A ob name args w)"
  unfolding MethodCall_def Let_def bindR_assoc [symmetric]
proof (rule yields_withCString [OF w], rule safe_bind)
  fix key bl' and w' :: "('e, 'j, 'cb) world"
  assume w': "sound bl' KS w'" and key: "c_string bl' key name"
  show "yields (inr_pointers value_pointers) bl' KS (bindR (C_ObjectGet A (v_ptr (obj_value ob)) key w') (valueResult (v_ctx (obj_value ob))))"
    by (intro yields_valueResult gives_C_ObjectGet(1) [OF A w' _ key] value_ownedD [OF ob])
  fix pv and w1 :: "('e, 'j, 'cb) world"
  assume p: "sound bl' KS w1 \<and> inr_pointers value_pointers pv \<subseteq> usable w1"
  show "yields (inr_pointers value_pointers) bl' KS (case pv of Inl err \<Rightarrow> Ok (Inl err) w1
       | Inr p \<Rightarrow> bindR (AsFunction A p w1) (\<lambda>fn w. case fn of Inl err \<Rightarrow> Ok (Inl err) w | Inr fn \<Rightarrow> Function_Call A fn (obj_value ob) args w))"
  proof (cases pv)
    case (Inr v)
    let ?KS = "insert (usable w1) KS"
    have s1: "sound bl' ?KS w1" and v: "value_pointers v \<subseteq> owned ?KS" using p Inr sound_extend by auto
    have "yields (inr_pointers value_pointers) bl' ?KS (bindR (AsFunction A v w1) (\<lambda>fn w. case fn of Inl err \<Rightarrow> Ok (Inl err) w
        | Inr fn \<Rightarrow> Function_Call A fn (obj_value ob) args w))"
    proof (rule safe_bind [OF yields_casts(3) [OF s1 v]])
      fix fn and w2 :: "('e, 'j, 'cb) world"
      assume f: "sound bl' ?KS w2 \<and> inr_pointers (value_pointers \<circ> fn_value) fn \<subseteq> usable w2"
      let ?KS2 = "insert (usable w2) ?KS"
      have "yields (inr_pointers value_pointers) bl' ?KS2 (case fn of Inl err \<Rightarrow> Ok (Inl err) w2 | Inr fn \<Rightarrow> Function_Call A fn (obj_value ob) args w2)"
        by (intro safe_cases yields_Inl yields_calls(1) [OF A]) (use f sound_extend ob args in auto)
      then show "yields (inr_pointers value_pointers) bl' ?KS (case fn of Inl err \<Rightarrow> Ok (Inl err) w2 | Inr fn \<Rightarrow> Function_Call A fn (obj_value ob) args w2)"
        by (rule safe_mono) (auto dest: sound_weaken)
    qed
    then show ?thesis unfolding Inr sum.case by (rule safe_mono) (auto dest: sound_weaken)
  qed (use p in simp)
qed

text \<open>The pointers in an argument of type \<open>interface{}\<close>.\<close>

fun goval_pointers :: "goval \<Rightarrow> pointer set" where
  "goval_pointers (GValue v) = value_pointers v"
| "goval_pointers (GValuer _ v) = value_pointers v"
| "goval_pointers (GObjectTemplate t) = {Go_template t}"
| "goval_pointers (GFunctionTemplate t) = {Go_template t}"
| "goval_pointers _ = {}"

lemma safe_object_iso:
  assumes "sound bl KS w" "value_pointers (obj_value ob) \<subseteq> owned KS"
  shows "safe (\<lambda>a w'. sound bl KS w' \<and> Go_isolate a \<in> owned KS) (sound bl KS) (object_iso ob w)"
proof (cases "v_ctx (obj_value ob)")
  case (Some a)
  then have "Go_context a \<in> owned KS" using assms(2) by (simp add: value_owned)
  then show ?thesis
    unfolding object_iso_def Some option.case using assms(1) by (intro safe_with_context) auto
qed (use assms in \<open>simp add: object_iso_def\<close>)

lemma yields_coerceValue:
  assumes A: "bodies_sound (closures A)" and w: "sound bl KS w" and a: "Go_isolate a \<in> owned KS"
    and v: "countable v" "goval_pointers v \<subseteq> owned KS"
  shows "yields (inr_pointers (\<lambda>x. case x of None \<Rightarrow> {} | Some v \<Rightarrow> value_pointers v)) bl KS (coerceValue A a v w)"
proof (cases "is_primitive v")
  case True
  have "yields (inr_pointers value_pointers) bl KS (NewValue A (Some a) v w)"
    by (rule yields_NewValue [OF A w v(1)]) (use a in simp)
  then show ?thesis
    unfolding coerceValue_def using True by (auto elim!: yields_bind_Ok split: sum.splits)
next
  case False
  then show ?thesis
    using w v(2) sound_usable [OF w] by (cases v) (auto simp: coerceValue_def is_primitive_def)
qed

text \<open>The part the three setters share: coerce the value, then use its pointer.\<close>

lemma safe_setter:
  fixes w :: "('e, 'j, 'cb) world"
  assumes A: "bodies_sound (closures A)" and w: "sound bl KS w" and ob: "value_pointers (obj_value ob) \<subseteq> owned KS"
    and v: "countable val" "goval_pointers val \<subseteq> owned KS"
    and k: "\<And>KS' x (w' :: ('e, 'j, 'cb) world). sound bl KS' w' \<Longrightarrow> owned KS \<subseteq> owned KS' \<Longrightarrow>
       (\<And>v. x = Some v \<Longrightarrow> ptr M_value (v_ptr v) \<in> owned KS') \<Longrightarrow> safely (sound bl KS') (k x w')"
  shows "safely (sound bl KS) (bindR (object_iso ob w) (\<lambda>i w. bindR (coerceValue A i val w) (\<lambda>r w.
     case r of Inl err \<Rightarrow> Ok (Some err) w | Inr x \<Rightarrow> k x w)))"
proof (rule safe_bind [OF safe_object_iso [OF w ob]])
  fix a and w1 :: "('e, 'j, 'cb) world"
  assume a: "sound bl KS w1 \<and> Go_isolate a \<in> owned KS"
  show "safely (sound bl KS) (bindR (coerceValue A a val w1) (\<lambda>r w. case r of Inl err \<Rightarrow> Ok (Some err) w | Inr x \<Rightarrow> k x w))"
  proof (rule safe_bind [OF yields_coerceValue [OF A _ _ v]])
    fix r and w2 :: "('e, 'j, 'cb) world"
    assume r: "sound bl KS w2 \<and> inr_pointers (\<lambda>x. case x of None \<Rightarrow> {} | Some v \<Rightarrow> value_pointers v) r \<subseteq> usable w2"
    show "safely (sound bl KS) (case r of Inl err \<Rightarrow> Ok (Some err) w2 | Inr x \<Rightarrow> k x w2)"
    proof (cases r)
      case (Inr x)
      have "safely (sound bl (insert (usable w2) KS)) (k x w2)"
        by (rule k) (use r Inr sound_extend in \<open>auto simp: value_pointers_def\<close>)
      then show ?thesis unfolding Inr sum.case by (rule safe_mono) (auto dest: sound_weaken)
    qed (use r in simp)
  qed (use a in auto)
qed

lemma safe_C_sets [safe_intros]:
  assumes "bodies_sound (closures A)" "sound bl KS w" "ptr M_value p \<in> owned KS" "ptr M_value vp \<in> owned KS"
  shows "c_string bl key s \<Longrightarrow> safely (sound bl KS) (C_ObjectSet A p key vp w)"
    "safely (sound bl KS) (C_ObjectSetIdx A p idx vp w)" "safely (sound bl KS) (C_ObjectSetInternalField A p n vp w)"
  unfolding C_ObjectSet_def C_ObjectSetIdx_def C_ObjectSetInternalField_def
  by (intro safe_intros safely_bind assms | assumption)+

lemma safe_value_ptr:
  assumes "sound bl KS w" "\<And>v. x = Some v \<Longrightarrow> ptr M_value (v_ptr v) \<in> owned KS"
  shows "safe (\<lambda>p w'. sound bl KS w' \<and> ptr M_value p \<in> owned KS) (sound bl KS) (value_ptr x w)"
  using assms by (cases x) (auto simp: value_ptr_def)

lemma safe_index_panic: "sound bl KS w \<Longrightarrow> bodies_sound (closures A) \<Longrightarrow> value_pointers (obj_value ob) \<subseteq> owned KS \<Longrightarrow>
    safe Q (sound bl KS) (index_panic A ob idx w)"
  unfolding index_panic_def by (rule safely_bind [OF safe_tests(5)]) auto

lemma safe_sets [safe_intros]:
  assumes A: "bodies_sound (closures A)" and w: "sound bl KS w" and ob: "value_pointers (obj_value ob) \<subseteq> owned KS"
    and v: "countable val" "goval_pointers val \<subseteq> owned KS"
  shows "safely (sound bl KS) (Object_Set A ob key val w)" "safely (sound bl KS) (Object_SetIdx A ob idx val w)"
    "safely (sound bl KS) (SetInternalField A ob idx val w)"
proof -
  note p = subsetD [OF _ value_ownedD(1) [OF ob]]
  show "safely (sound bl KS) (Object_Set A ob key val w)"
    unfolding Object_Set_def
    by (rule safe_setter [OF A w ob v], rule safely_withCString, assumption, rule safe_bind [OF safe_value_ptr])
       (auto intro!: safely_bind_Ok safe_C_sets(1) [OF A] p)
  show "safely (sound bl KS) (Object_SetIdx A ob idx val w)"
    unfolding Object_SetIdx_def
    by (rule safe_setter [OF A w ob v], rule safe_bind [OF safe_value_ptr])
       (auto intro!: safely_bind_Ok safe_C_sets(2) [OF A] p)
  show "safely (sound bl KS) (SetInternalField A ob idx val w)"
    unfolding SetInternalField_def
    by (rule safe_setter [OF A w ob v], rule safe_bind [OF safe_value_ptr])
       (use ob in \<open>auto intro!: safely_bind [OF safe_C_sets(3) [OF A]] safe_cases(1) safe_index_panic A p\<close>)
qed

lemma yields_GetInternalField [safe_intros]:
  fixes w :: "('e, 'j, 'cb) world"
  assumes A: "bodies_sound (closures A)" and w: "sound bl KS w" and ob: "value_pointers (obj_value ob) \<subseteq> owned KS"
  shows "yields value_pointers bl KS (GetInternalField A ob idx w)"
  unfolding GetInternalField_def
proof (rule safe_bind)
  show "yields (\<lambda>r. case r of None \<Rightarrow> {} | Some p \<Rightarrow> {M_value p}) bl KS (C_ObjectGetInternalField A (v_ptr (obj_value ob)) (c_int (uint idx)) w)"
    unfolding C_ObjectGetInternalField_def
    by (intro safe_local_value [OF w] safe_cases(1) yields_bind_Ok [where F = "\<lambda>a. {M_value a}"] yields_new_value
        w value_ownedD [OF ob]) (use w in auto)
  fix r and w' :: "('e, 'j, 'cb) world"
  assume "sound bl KS w' \<and> (case r of None \<Rightarrow> {} | Some p \<Rightarrow> {M_value p}) \<subseteq> usable w'"
  then show "yields value_pointers bl KS (case r of None \<Rightarrow> index_panic A ob idx w' | Some p \<Rightarrow> Ok \<lparr>v_ptr = Some p, v_ctx = v_ctx (obj_value ob)\<rparr> w')"
    by (cases r) (auto intro!: safe_index_panic A ob dest: value_pointers_held [OF _ _ value_ownedD(2) [OF ob]])
qed

end
