(* ===== verification/Safe_Templates.thy ===== *)
theory Safe_Templates
  imports Safe_Objects
begin

text \<open>
  Memory safety of template.go, object_template.go and function_template.go.
\<close>

section \<open>New structs\<close>

lemma safe_new_template:
  assumes s: "sound bl KS w" and t: "t_ptr t = Some p" "M_template p \<in> usable w" "\<And>a. t_iso t = Some a \<Longrightarrow> Go_isolate a \<in> usable w"
  shows "yields (\<lambda>a. {Go_template a}) bl KS (new_template t w)"
proof (cases "gbrk w < mem_limit")
  case True
  let ?w = "w\<lparr>gbrk := Suc (gbrk w), gtmpls := (gtmpls w)(gbrk w \<mapsto> t)\<rparr>"
  have fresh: "gtmpls w (gbrk w) = None"
    using sound_world(1) [OF s] by (simp add: world_ok_def go_ok_def gheap_ok_def)
  have "keeps world_ok (new_template t w)" using sound_world(1) [OF s] by (rule world_new_template)
  then have "clean bl ?w" using True s by (simp add: new_template_def go_new_def sound_def clean_def)
  moreover have pres: "preserves w ?w"
  proof (rule preservesI)
    fix x y assume x: "alive w x"
    then show "alive ?w x" using fresh by (cases x) auto
    assume "needs ?w x y"
    then show "needs w x y" using x fresh by (cases x) (auto split: if_splits)
  qed
  moreover have "hosted ?w" using s by (simp add: sound_def hosted_def)
  ultimately have "sound bl KS ?w" using preserves_sound [OF _ s] by blast
  moreover have "Go_template (gbrk w) \<in> usable ?w" by (rule usable_new [OF pres]) (use t in auto)
  ultimately show ?thesis using True by (simp add: new_template_def go_new_def)
qed (simp add: new_template_def go_new_def)

lemma yields_new_m_template:
  assumes s: "sound bl KS w" and i: "V8_isolate i \<in> owned KS"
  shows "yields (\<lambda>t. {M_template t}) bl KS (new_m_template i j w)"
proof (cases "brk w < mem_limit")
  case True
  let ?w = "w\<lparr>brk := Suc (brk w), mtmpls := (mtmpls w)(brk w \<mapsto> \<lparr>mt_iso = i, mt_ptr = j\<rparr>)\<rparr>"
  have fresh: "mtmpls w (brk w) = None"
    using sound_world(1) [OF s] by (simp add: world_ok_def heap_ok_def fresh_ok_def)
  have "keeps world_ok (new_m_template i j w)" using sound_world(1) [OF s] by (rule world_new_m_template)
  then have "clean bl ?w" using True s by (simp add: new_m_template_def c_new_def sound_def clean_def)
  moreover have pres: "preserves w ?w"
  proof (rule preservesI)
    fix x y assume x: "alive w x"
    then show "alive ?w x" using fresh by (cases x) auto
    assume "needs ?w x y"
    then show "needs w x y" using x fresh by (cases x) (auto split: if_splits)
  qed
  moreover have "hosted ?w" using s by (simp add: sound_def hosted_def)
  ultimately have "sound bl KS ?w" using preserves_sound [OF _ s] by blast
  moreover have "V8_isolate i \<in> usable w" using i sound_usable [OF s] by blast
  then have "M_template (brk w) \<in> usable ?w" by (intro usable_new [OF pres]) auto
  ultimately show ?thesis using True by (simp add: new_m_template_def c_new_def)
qed (simp add: new_m_template_def c_new_def)

section \<open>Creating templates\<close>

text \<open>Registering a callback writes the table of the isolate and nothing the typing reads.\<close>

lemma safe_registerCallback [safe_intros]:
  fixes w :: "('e, 'j, 'cb) world"
  assumes s: "sound bl KS w" and a: "Go_isolate a \<in> owned KS"
  shows "safely (sound bl KS) (Isolate_registerCallback a cb w)"
proof -
  from sound_alive [OF s a] obtain g where g: "gisos w a = Some g" by auto
  have clean: "keeps (clean bl) (Isolate_registerCallback a cb w)"
    using s by (intro clean_intros) (simp add: sound_def)
  obtain ref g' where reg: "registerCallback cb g = (ref, g')" by fastforce
  then have ptr: "i_ptr g' = i_ptr g" by (auto simp: registerCallback_def Let_def)
  let ?w = "w\<lparr>gbrk := Suc (gbrk w), gisos := (gisos w)(a \<mapsto> g')\<rparr>"
  have eq: "Isolate_registerCallback a cb w = (if gbrk w < mem_limit then Ok ref ?w else Fault OutOfMemory w)"
    using g reg by (simp add: Isolate_registerCallback_def with_isolate_def go_new_def)
  have "preserves w ?w"
  proof (rule preservesI)
    fix x y assume x: "alive w x"
    then show "alive ?w x" using g ptr by (cases x) auto
    assume "needs ?w x y"
    then show "needs w x y" using x g ptr by (cases x) (auto split: if_splits)
  qed
  moreover have "hosted ?w" using s g ptr by (fastforce simp: sound_def hosted_def)
  ultimately have "sound bl KS ?w" if "gbrk w < mem_limit"
    using preserves_sound [OF _ s] clean that by (simp add: eq)
  then show ?thesis by (simp add: eq)
qed

lemma yields_template_struct:
  fixes m :: "(addr, ('e, 'j, 'cb) world) res"
  assumes "yields (\<lambda>t. {M_template t}) bl KS m" "Go_isolate a \<in> owned KS"
  shows "yields (\<lambda>t. {Go_template t}) bl KS (bindR m (\<lambda>t w. new_template \<lparr>t_ptr = Some t, t_iso = Some a\<rparr> w))"
proof (rule safe_bind [OF assms(1)])
  fix t and w :: "('e, 'j, 'cb) world" assume t: "sound bl KS w \<and> {M_template t} \<subseteq> usable w"
  then have "Go_isolate a \<in> usable w" using assms(2) sound_usable by blast
  then show "yields (\<lambda>t. {Go_template t}) bl KS (new_template \<lparr>t_ptr = Some t, t_iso = Some a\<rparr> w)"
    using t by (intro safe_new_template) auto
qed

lemma yields_new_templates [safe_intros]:
  assumes w: "sound bl KS w" and a: "\<And>a. p = Some a \<Longrightarrow> Go_isolate a \<in> owned KS"
  shows "yields (\<lambda>t. {Go_template t}) bl KS (NewObjectTemplate A p w)"
    "yields (\<lambda>t. {Go_template t}) bl KS (NewFunctionTemplate A p cb w)"
  unfolding NewObjectTemplate_def C_NewObjectTemplate_def NewFunctionTemplate_def C_NewFunctionTemplate_def
  by (intro safe_cases safe_with_isolate safe_Fault safely_bind [OF safe_registerCallback] yields_template_struct
      safe_isolate_scope safely_bind [OF safe_ask] yields_new_m_template w a | assumption | simp)+

section \<open>Using templates\<close>

lemma safe_C_TemplateSet:
  assumes "sound bl KS w" "ptr M_template p \<in> owned KS" "c_string bl name s"
  shows "ptr M_value val \<in> owned KS \<Longrightarrow> safely (sound bl KS) (C_TemplateSetValue A p name val attrs w)"
    "ptr M_template ob \<in> owned KS \<Longrightarrow> safely (sound bl KS) (C_TemplateSetTemplate A p name ob attrs w)"
proof -
  show "ptr M_value val \<in> owned KS \<Longrightarrow> safely (sound bl KS) (C_TemplateSetValue A p name val attrs w)"
    unfolding C_TemplateSetValue_def by (intro safe_intros safely_bind assms(1,2) | assumption | rule assms(3))+
  assume ob: "ptr M_template ob \<in> owned KS"
  have tell: "safely (sound bl KS) (case c_deref (mtmpls w) ob of None \<Rightarrow> Fault Segv w
      | Some (_, t) \<Rightarrow> tell (f (mt_ptr t)) w)" if "sound bl KS w" for f and w :: "('a, 'b, 'c) world"
    using sound_alive [OF that ob] safe_tell [OF that] by (cases ob) auto
  show "safely (sound bl KS) (C_TemplateSetTemplate A p name ob attrs w)"
    unfolding C_TemplateSetTemplate_def
    by (intro safe_local_template safely_bind [OF safe_checked [OF safe_utf8_arg [OF assms(1,3)]]] tell assms(1,2))
qed

lemma safe_template_Set [safe_intros]:
  fixes w :: "('e, 'j, 'cb) world"
  assumes A: "bodies_sound (closures A)" and w: "sound bl KS w" and t: "Go_template t \<in> owned KS"
    and v: "countable val" "goval_pointers val \<subseteq> owned KS"
  shows "safely (sound bl KS) (template_Set A t name val attrs w)"
  unfolding template_Set_def Let_def
proof (rule safely_withCString [OF w])
  fix p bl' and w' :: "('e, 'j, 'cb) world"
  assume w': "sound bl' KS w'" and p: "c_string bl' p name"
  let ?n = "uint (join_attributes attrs)"
  let ?set = "\<lambda>vp. with_template t (\<lambda>tm w. bindR (C_TemplateSetValue A (t_ptr tm) p vp ?n w) (\<lambda>_ w. Ok None w))"
  let ?tmpl = "\<lambda>v. with_template v (\<lambda>ob. with_template t (\<lambda>tm w.
     bindR (C_TemplateSetTemplate A (t_ptr tm) p (t_ptr ob) ?n w) (\<lambda>_ w. Ok None w)))"
  have set: "safely (sound bl' KS') (?set vp w)" if "sound bl' KS' w" "ptr M_value vp \<in> owned KS'" "owned KS \<subseteq> owned KS'"
    for KS' vp and w :: "('e, 'j, 'cb) world"
    using that t by (intro safe_with_template safely_bind_Ok safe_C_TemplateSet(1) [OF _ _ p]) auto
  have tmpl: "safely (sound bl' KS) (?tmpl v w')" if "Go_template v \<in> owned KS" for v
    using that t w' by (intro safe_with_template safely_bind_Ok safe_C_TemplateSet(2) [OF _ _ p]) auto
  have prim: "safely (sound bl' KS) (with_template t (\<lambda>tm w. bindR (NewValue A (t_iso tm) val w) (\<lambda>r w.
      case r of Inl err \<Rightarrow> Ok (Some (GoErr (''v8go: unable to create new value: '' @ error_text err))) w
      | Inr newVal \<Rightarrow> ?set (v_ptr newVal) w)) w')"
  proof (rule safe_with_template [OF w' t], rule safe_bind [OF yields_NewValue [OF A w' v(1)]])
    fix r and w2 :: "('e, 'j, 'cb) world"
    assume r: "sound bl' KS w2 \<and> inr_pointers value_pointers r \<subseteq> usable w2"
    then have "safely (sound bl' (insert (usable w2) KS)) (?set (v_ptr x) w2)" if "r = Inr x" for x
      using that sound_extend by (intro set) (auto simp: value_pointers_def)
    then show "safely (sound bl' KS) (case r of Inl err \<Rightarrow> Ok (Some (GoErr (''v8go: unable to create new value: '' @ error_text err))) w2
      | Inr newVal \<Rightarrow> ?set (v_ptr newVal) w2)"
      using r by (cases r) (auto intro: safe_mono safely_Ok dest: sound_weaken simp del: safe.simps)
  qed
  have plain: "safely (sound bl' KS) (bindR (IsObject A v w') (\<lambda>ob w. bindR (if ob then Ok True w else IsExternal A v w) (\<lambda>bad w.
      if bad then Ok (Some unsupported_property) w else ?set (v_ptr v) w)))" if "value_pointers v \<subseteq> owned KS" for v
    using value_ownedD(1) [OF that] w'
    by (intro safely_bind [OF safe_IsObject(1)] safely_bind safe_cases(1) safely_Ok safe_IsObject(2) set) auto
  show "safely (sound bl' KS) ((if is_primitive val then with_template t (\<lambda>tm w. bindR (NewValue A (t_iso tm) val w) (\<lambda>r w.
        case r of Inl err \<Rightarrow> Ok (Some (GoErr (''v8go: unable to create new value: '' @ error_text err))) w
        | Inr newVal \<Rightarrow> ?set (v_ptr newVal) w))
      else (case val of GObjectTemplate v \<Rightarrow> ?tmpl v | GFunctionTemplate v \<Rightarrow> ?tmpl v
        | GValue v \<Rightarrow> (\<lambda>w. bindR (IsObject A v w) (\<lambda>ob w. bindR (if ob then Ok True w else IsExternal A v w) (\<lambda>bad w.
            if bad then Ok (Some unsupported_property) w else ?set (v_ptr v) w)))
        | _ \<Rightarrow> Ok (Some (unsupported_property_type val)))) w')"
    using prim tmpl plain w' v(2) by (cases val) (simp_all add: is_primitive_def del: safe.simps add: safely_Ok)
qed

section \<open>Instances, functions, fields\<close>

lemma safe_ctx_deref:
  assumes "sound bl KS w" "ptr M_ctx p \<in> owned KS" "\<And>c mc. M_ctx c \<in> owned KS \<Longrightarrow> safe Q (sound bl KS) (k c mc)"
  shows "safe Q (sound bl KS) (case c_deref (mctxs w) p of None \<Rightarrow> Fault Segv w | Some (c, mc) \<Rightarrow> k c mc)"
  using sound_alive [OF assms(1,2)] assms(2,3) by (cases p) auto

lemma yields_instances [safe_intros]:
  assumes A: "bodies_sound (closures A)" and w: "sound bl KS w" and t: "Go_template t \<in> owned KS"
  shows "(\<And>a. ctx = Some a \<Longrightarrow> Go_context a \<in> owned KS) \<Longrightarrow>
      yields (inr_pointers (value_pointers \<circ> obj_value)) bl KS (ObjectTemplate_NewInstance A t ctx w)"
    "Go_context a \<in> owned KS \<Longrightarrow> yields (value_pointers \<circ> fn_value) bl KS (GetFunction A t a w)"
proof -
  assume "\<And>a. ctx = Some a \<Longrightarrow> Go_context a \<in> owned KS"
  then show "yields (inr_pointers (value_pointers \<circ> obj_value)) bl KS (ObjectTemplate_NewInstance A t ctx w)"
    unfolding ObjectTemplate_NewInstance_def C_ObjectTemplateNewInstance_def
    by (intro safe_cases yields_Inl safe_with_template safe_with_context yields_objectResult safe_local_template safe_ctx_deref
        safely_bind [OF safe_run] gives_rtn_of w t A) auto
next
  assume a: "Go_context a \<in> owned KS"
  have eq: "bindR m (\<lambda>rtn w. bindR (or_panic (valueResult (Some a) rtn w)) k) =
      bindR (or_panic (bindR m (valueResult (Some a)))) k" for m k
    by (cases m) (simp_all add: or_panic_def)
  show "yields (value_pointers \<circ> fn_value) bl KS (GetFunction A t a w)"
    unfolding GetFunction_def C_FunctionTemplateGetFunction_def eq
    by (intro safe_with_template safe_with_context yields_bind_Ok [where F = value_pointers] yields_or_panic yields_valueResult
        safe_local_template safe_ctx_deref safely_bind [OF safe_ask] gives_rtn_of w t A a) (use a in auto)
qed

lemma safe_field_counts [safe_intros]:
  assumes "sound bl KS w" "Go_template t \<in> owned KS"
  shows "safely (sound bl KS) (SetInternalFieldCount A t n w)" "safely (sound bl KS) (ObjectTemplate_InternalFieldCount A t w)"
  unfolding SetInternalFieldCount_def C_ObjectTemplateSetInternalFieldCount_def
    ObjectTemplate_InternalFieldCount_def C_ObjectTemplateInternalFieldCount_def
  by (intro safe_intros safely_bind_Ok assms | assumption)+

end
