(* ===== verification/Safe_Scripts.thy ===== *)
theory Safe_Scripts
  imports Safe_Templates
begin

text \<open>
  Memory safety of promise.go, json.go and unbound_script.go, and of the part of context.go that
  runs scripts.
\<close>

section \<open>Promises\<close>

lemma yields_value_of:
  assumes "yields (\<lambda>a. {M_value a}) bl KS m" "held KS ctx"
    and "\<And>a. G (f a) = value_pointers \<lparr>v_ptr = Some a, v_ctx = ctx\<rparr>"
  shows "yields G bl KS (bindR m (\<lambda>a w. Ok (f a) w))"
  by (rule yields_bind_Ok [OF assms(1)]) (auto simp: assms(3) dest: value_pointers_held [OF _ _ assms(2)])

definition resolver_pointers :: "PromiseResolver \<Rightarrow> pointer set" where
  "resolver_pointers r = value_pointers (pres_value r) \<union>
     (case prom r of None \<Rightarrow> {} | Some p \<Rightarrow> value_pointers (prom_value p))"

lemma yields_NewPromiseResolver [safe_intros]:
  assumes A: "bodies_sound (closures A)" and w: "sound bl KS w" and a: "\<And>a. ctx = Some a \<Longrightarrow> Go_context a \<in> owned KS"
  shows "yields (inr_pointers resolver_pointers) bl KS (NewPromiseResolver A ctx w)"
proof (cases ctx)
  case (Some a)
  then have a: "Go_context a \<in> owned KS" by (rule a)
  have "yields (inr_pointers (value_pointers \<circ> obj_value)) bl KS
      (bindR (C_NewPromiseResolver A p w) (\<lambda>rtn w. objectResult (Some a) rtn w))" if "ptr M_ctx p \<in> owned KS" for p
    unfolding C_NewPromiseResolver_def
    by (intro yields_objectResult safe_local_context safely_bind [OF safe_ask] gives_rtn_of w A that) (use a in auto)
  then have "yields (inr_pointers resolver_pointers) bl KS (bindR (bindR (C_NewPromiseResolver A p w) (\<lambda>rtn w. objectResult (Some a) rtn w)) (\<lambda>obj w.
      case obj of Inl err \<Rightarrow> Ok (Inl err) w | Inr ob \<Rightarrow> Ok (Inr \<lparr>pres_object = ob, prom = None\<rparr>) w))" if "ptr M_ctx p \<in> owned KS" for p
    by (rule safe_bind) (use that in \<open>auto simp: resolver_pointers_def split: sum.splits\<close>)
  then show ?thesis
    unfolding NewPromiseResolver_def Some option.case bindR_assoc by (intro safe_with_context w a)
qed (use w in \<open>simp add: NewPromiseResolver_def\<close>)

lemma yields_GetPromise [safe_intros]:
  assumes w: "sound bl KS w" and r: "resolver_pointers r \<subseteq> owned KS"
  shows "yields (\<lambda>(r, p). resolver_pointers r \<union> value_pointers (prom_value p)) bl KS (GetPromise A r w)"
proof (cases "prom r")
  case None
  have v: "value_pointers (pres_value r) \<subseteq> owned KS" using r by (simp add: resolver_pointers_def)
  have "yields (\<lambda>a. {M_value a}) bl KS (C_PromiseResolverGetPromise A (v_ptr (pres_value r)) w)"
    unfolding C_PromiseResolverGetPromise_def by (intro safe_local_value w yields_new_value value_ownedD [OF v])
  then show ?thesis
    unfolding GetPromise_def None option.case
    by (rule safe_bind) (use v in \<open>auto simp: resolver_pointers_def Let_def
        dest: value_pointers_held [OF _ _ value_ownedD(2) [OF v]] sound_usable\<close>)
next
  case (Some p)
  then show ?thesis
    using w r sound_usable [OF w] by (auto simp: GetPromise_def resolver_pointers_def)
qed

lemma safe_settle [safe_intros]:
  assumes A: "bodies_sound (closures A)" and w: "sound bl KS w" and r: "resolver_pointers r \<subseteq> owned KS"
    and v: "value_pointers v \<subseteq> owned KS"
  shows "safely (sound bl KS) (Resolve A r v w)" "safely (sound bl KS) (Reject A r v w)"
proof -
  have p: "ptr M_value (v_ptr (pres_value r)) \<in> owned KS" using r by (simp add: resolver_pointers_def value_pointers_def)
  show "safely (sound bl KS) (Resolve A r v w)" "safely (sound bl KS) (Reject A r v w)"
    unfolding Resolve_def C_PromiseResolverResolve_def Reject_def C_PromiseResolverReject_def
    by (intro safely_bind_Ok safe_intros safely_bind A w p value_ownedD [OF v] | assumption)+
qed

lemma safe_Promise_State [safe_intros]:
  assumes "sound bl KS w" "value_pointers (prom_value p) \<subseteq> owned KS"
  shows "safely (sound bl KS) (Promise_State A p w)"
  unfolding Promise_State_def C_PromiseState_def
  by (intro safe_local_value safely_Ok assms value_ownedD [OF assms(2)])

lemma yields_Promise_Result [safe_intros]:
  assumes w: "sound bl KS w" and v: "value_pointers (prom_value p) \<subseteq> owned KS"
  shows "yields value_pointers bl KS (Promise_Result A p w)"
  unfolding Promise_Result_def C_PromiseResult_def
  by (rule yields_value_of [OF _ value_ownedD(2) [OF v]]) (intro safe_local_value w yields_new_value value_ownedD [OF v] | simp)+

lemma yields_promise_of:
  assumes "gives_rtn bl KS m" "value_pointers (prom_value p) \<subseteq> owned KS"
  shows "yields (value_pointers \<circ> prom_value) bl KS (bindR m (\<lambda>rtn w. promise_of p rtn w))"
proof -
  have eq: "bindR m (\<lambda>rtn w. promise_of p rtn w) =
      bindR (or_panic (bindR m (objectResult (v_ctx (prom_value p))))) (\<lambda>obj w. Ok (Promise obj) w)"
    by (cases m) (simp_all add: promise_of_def or_panic_def)
  show ?thesis
    unfolding eq by (intro yields_bind_Ok [where F = "value_pointers \<circ> obj_value"] yields_or_panic yields_objectResult assms(1)
        value_ownedD [OF assms(2)]) simp
qed

lemma gives_chains:
  assumes "bodies_sound (closures A)" "sound bl KS w" "ptr M_value p \<in> owned KS"
  shows "gives_rtn bl KS (C_PromiseThen A p f w)" "gives_rtn bl KS (C_PromiseThen2 A p f g w)" "gives_rtn bl KS (C_PromiseCatch A p f w)"
  unfolding C_PromiseThen_def C_PromiseThen2_def C_PromiseCatch_def
  by (intro safe_intros safely_bind assms | assumption)+

lemma yields_chain:
  fixes w :: "('e, 'j, 'cb) world"
  assumes w: "sound bl KS w" and v: "value_pointers (prom_value p) \<subseteq> owned KS"
    and k: "\<And>i (w' :: ('e, 'j, 'cb) world). sound bl KS w' \<Longrightarrow> Go_isolate i \<in> owned KS \<Longrightarrow> yields F bl KS (k i w')"
  shows "yields F bl KS (bindR (object_iso (prom_object p) w) k)"
  by (rule safe_bind [OF safe_object_iso [OF w v]]) (use k in auto)

lemma yields_chains [safe_intros]:
  assumes A: "bodies_sound (closures A)" and w: "sound bl KS w" and v: "value_pointers (prom_value p) \<subseteq> owned KS"
  shows "yields (value_pointers \<circ> prom_value) bl KS (Then A p cs w)"
    "yields (value_pointers \<circ> prom_value) bl KS (Promise_Catch A p cb w)"
proof -
  note rules = yields_chain [OF w v] safely_bind [OF safe_registerCallback] yields_promise_of gives_chains [OF A]
    value_ownedD(1) [OF v] v
  show "yields (value_pointers \<circ> prom_value) bl KS (Promise_Catch A p cb w)"
    unfolding Promise_Catch_def by (intro rules; assumption)
  consider (one) f where "cs = [f]" | (two) f g where "cs = [f, g]"
    | (other) "Then A p cs w = Fault (PanicText ''1 or 2 callbacks required'') w"
    by (cases cs; cases "tl cs"; cases "tl (tl cs)") (auto simp: Then_def)
  then show "yields (value_pointers \<circ> prom_value) bl KS (Then A p cs w)"
  proof cases
    case one
    show ?thesis unfolding one Then_def list.case by (intro rules; assumption)
  next
    case two
    show ?thesis unfolding two Then_def list.case by (intro rules; assumption)
  qed (use w in simp)
qed

section \<open>JSON\<close>

text \<open>\<open>JSONParse\<close> is safe if V8 can make a string of its argument; without it the process crashes.\<close>

definition makes_string :: "('e, 'j, 'cb) env \<Rightarrow> bytes \<Rightarrow> 'e \<Rightarrow> bool" where
  "makes_string A s e \<longleftrightarrow> (\<forall>i. snd (v8_new_utf8 A i (c_str s) e) \<noteq> None)"

lemma yields_JSONParse [safe_intros]:
  fixes w :: "('e, 'j, 'cb) world"
  assumes A: "bodies_sound (closures A)" and w: "sound bl KS w" and a: "\<And>a. ctx = Some a \<Longrightarrow> Go_context a \<in> owned KS"
    and s: "makes_string A s (v8 w)"
  shows "yields (inr_pointers value_pointers) bl KS (JSONParse A ctx s w)"
proof (cases ctx)
  case (Some a)
  then have a: "Go_context a \<in> owned KS" by (rule a)
  have parse: "gives_rtn bl' KS (C_JSONParse A p q w')"
    if w': "sound bl' KS w'" "c_string bl' q s" "v8 w' = v8 w" and p: "ptr M_ctx p \<in> owned KS" for bl' p q and w' :: "('e, 'j, 'cb) world"
  proof -
    have str: "\<exists>j e. utf8_arg A i q w' = Ok (Some j) (w'\<lparr>v8 := e\<rparr>)" for i
    proof -
      obtain e j where "v8_new_utf8 A i (c_str s) (v8 w) = (e, Some j)"
        using s unfolding makes_string_def by (metis not_Some_eq prod.exhaust_sel)
      then show ?thesis
        using that sound_world(2) [OF w'(1)] by (auto simp: utf8_arg_def c_string_def read_cstr_CString ask_def)
    qed
    have "gives_rtn bl' KS (bindR (utf8_arg A i q w') (\<lambda>v8Str w. case v8Str of None \<Rightarrow> bindR (raised A i w) (\<lambda>_ w. Fault Segv w)
       | Some s \<Rightarrow> bindR (ask (v8_json_parse A h s) w) (\<lambda>result w. rtn_of A i (Some c) result w)))"
      if "V8_isolate i \<in> owned KS" "M_ctx c \<in> owned KS" for i c h
    proof -
      obtain j e where "utf8_arg A i q w' = Ok (Some j) (w'\<lparr>v8 := e\<rparr>)" using str by blast
      moreover have "sound bl' KS (w'\<lparr>v8 := e\<rparr>)" using w'(1) by (simp add: sound_def clean_def)
      ultimately show ?thesis using that by (simp del: safe.simps) (intro safely_bind [OF safe_ask] gives_rtn_of A)
    qed
    then show ?thesis unfolding C_JSONParse_def by (intro safe_local_context [OF w'(1) p])
  qed
  show ?thesis
    unfolding JSONParse_def Some option.case withCString_def CString_def
  proof (rule safe_bind [OF safe_weaken])
    show "safe (\<lambda>p w'. bl p = None \<and> sound (bl(p \<mapsto> Chars (s @ [NUL]))) KS w' \<and> v8 w' = v8 w) (\<lambda>_. False) (malloc (Chars (s @ [NUL])) w)"
      using safe_malloc [OF w, of "Chars (s @ [NUL])"] by (auto simp: malloc_def c_new_def split: if_splits)
    fix p and w' :: "('e, 'j, 'cb) world"
    assume p: "bl p = None \<and> sound (bl(p \<mapsto> Chars (s @ [NUL]))) KS w' \<and> v8 w' = v8 w"
    then show "yields (inr_pointers value_pointers) bl KS (defer_free (Some p) (with_context a (\<lambda>c w.
        bindR (C_JSONParse A (c_ptr c) p w) (\<lambda>rtn w. valueResult (Some a) rtn w)) w'))"
      by (intro yields_defer_free [where b = "Chars (s @ [NUL])"] safe_with_context yields_valueResult parse) (use a in \<open>auto simp: c_string_def\<close>)
  qed
qed (use w in \<open>simp add: JSONParse_def\<close>)

lemma block_in_JSONStringify:
  fixes w :: "('e, 'j, 'cb) world"
  assumes A: "bodies_sound (closures A)" and w: "sound bl KS w" and v: "ptr M_value v \<in> owned KS"
    and p: "\<And>q. p = Some q \<Longrightarrow> M_ctx q \<in> owned KS"
  shows "safe (block_in bl KS (\<lambda>b. \<exists>s. b = Chars (s @ [NUL]))) (sound bl KS) (C_JSONStringify A p v w)"
proof -
  let ?Q = "block_in bl KS (\<lambda>b. \<exists>s. b = Chars (s @ [NUL]))"
  from sound_alive [OF w v] obtain q mv where q: "v = Some q" "mvals w q = Some mv" by (cases v) auto
  then have iso: "V8_isolate (mv_iso mv) \<in> owned KS" and ctx: "ptr M_ctx (mv_ctx mv) \<in> owned KS"
    using sound_needs [OF w v] by simp_all
  from sound_alive [OF w ctx] obtain d where d: "mv_ctx mv = Some d" by (cases "mv_ctx mv") auto
  let ?i = "case c_deref (mctxs w) p of None \<Rightarrow> Some (mv_iso mv) | Some (_, mc) \<Rightarrow> Some (mc_iso mc)"
  have live: "\<exists>mc. mctxs w x = Some mc \<and> V8_isolate (mc_iso mc) \<in> owned KS" if "p = Some x" for x
    using sound_alive [OF w p [OF that]] sound_needs [OF w p [OF that]] by auto
  have i: "ptr V8_isolate ?i \<in> owned KS"
    using iso live by (cases p) auto
  have c: "ptr M_ctx (if p \<noteq> None then p else if mv_ctx mv \<noteq> None then mv_ctx mv else n) \<in> owned KS" for n
    using p ctx d by (cases p) auto
  have copy: "safe ?Q (sound bl KS) (case r of None \<Rightarrow> Ok None w' | Some s \<Rightarrow> CopyUtf8 s w')" if "sound bl KS w'" for r and w' :: "('e, 'j, 'cb) world"
  proof (cases r)
    case (Some s)
    show ?thesis
      unfolding Some option.case
      by (rule safe_mono [OF block_in_CopyUtf8 [OF that]]) (auto simp: block_in_def split: option.splits)
  qed (use that in \<open>simp add: block_in_def\<close>)
  have "safe ?Q (sound bl KS) (internal_scope ?i (\<lambda>i int w.
      case c_deref (mctxs w) (if p \<noteq> None then p else if mv_ctx mv \<noteq> None then mv_ctx mv else int) of
        None \<Rightarrow> Fault Segv w
      | Some (_, mc) \<Rightarrow> bindR (run A i (v8_json_stringify A (mc_ptr mc) (mv_ptr mv)) w) (\<lambda>str w.
          case str of None \<Rightarrow> Ok None w | Some s \<Rightarrow> CopyUtf8 s w)) w)"
    by (intro safe_internal_scope [OF w i] safe_ctx_deref [OF w c] safely_bind [OF safe_run [OF A _ w]] copy)
  moreover have "\<not> (p \<noteq> None \<and> c_deref (mctxs w) p = None)" using live by (cases p) auto
  ultimately show ?thesis unfolding C_JSONStringify_def using q by (simp only: c_deref_simps option.simps prod.case if_False)
qed

lemma safe_JSONStringify [safe_intros]:
  fixes w :: "('e, 'j, 'cb) world"
  assumes A: "bodies_sound (closures A)" and w: "sound bl KS w"
    and v: "\<And>v. val = Some v \<Longrightarrow> value_pointers v \<subseteq> owned KS" and a: "\<And>a. ctx = Some a \<Longrightarrow> Go_context a \<in> owned KS"
  shows "safely (sound bl KS) (JSONStringify A ctx val w)"
proof (cases val)
  case (Some v)
  then have v: "value_pointers v \<subseteq> owned KS" by (rule v)
  have "safe (\<lambda>p w'. sound bl KS w' \<and> (\<forall>q. p = Some q \<longrightarrow> M_ctx q \<in> owned KS)) (sound bl KS)
      (case ctx of None \<Rightarrow> Ok None w | Some a \<Rightarrow> with_context a (\<lambda>c w. Ok (c_ptr c) w) w)"
    by (intro safe_cases safe_with_context [OF w a]) (use w in auto)
  then show ?thesis
    unfolding JSONStringify_def Some option.case
  proof (rule safe_bind)
    fix p and w1 :: "('e, 'j, 'cb) world"
    assume p: "sound bl KS w1 \<and> (\<forall>q. p = Some q \<longrightarrow> M_ctx q \<in> owned KS)"
    show "safely (sound bl KS) (bindR (C_JSONStringify A p (v_ptr v) w1) (\<lambda>str w. defer_free str (bindR (GoString str w) (\<lambda>s w. Ok (Inr s) w))))"
    proof (rule safe_bind [OF block_in_JSONStringify [OF A _ value_ownedD(1) [OF v]]])
      fix str and w2 :: "('e, 'j, 'cb) world"
      assume "block_in bl KS (\<lambda>b. \<exists>s. b = Chars (s @ [NUL])) str w2"
      then show "safely (sound bl KS) (defer_free str (bindR (GoString str w2) (\<lambda>s w. Ok (Inr s) w)))"
        by (rule safe_defer_block) (cases str; fastforce simp: GoString_def sound_world(2) read_cstr_def)
    qed (use p in auto)
  qed
qed (use w in \<open>simp add: JSONStringify_def\<close>)

lemma safe_MarshalJSON [safe_intros]:
  assumes "bodies_sound (closures A)" "sound bl KS w" "\<And>v. val = Some v \<Longrightarrow> value_pointers v \<subseteq> owned KS"
  shows "safely (sound bl KS) (MarshalJSON A val w)"
  unfolding MarshalJSON_def by (rule safely_bind [OF safe_JSONStringify]) (use assms in \<open>auto split: sum.splits\<close>)

section \<open>Running scripts\<close>

lemma gives_C_RunScript:
  assumes "bodies_sound (closures A)" "sound bl KS w" "ptr M_ctx p \<in> owned KS" "c_string bl source s" "c_string bl origin ogn"
  shows "gives_rtn bl KS (C_RunScript A p source origin w)"
  unfolding C_RunScript_def
  by (intro safe_local_context [OF assms(2,3)] safely_bind [OF safe_utf8_arg [OF assms(2,4)]] safely_bind [OF safe_utf8_arg [OF _ assms(5)]]
      safe_cases safely_bind [OF safe_ask] safely_bind [OF safe_run] gives_rtn_of gives_fail_value assms(1) | assumption)+

lemma yields_RunScript [safe_intros]:
  assumes "bodies_sound (closures A)" "sound bl KS w" "Go_context a \<in> owned KS"
  shows "yields (inr_pointers value_pointers) bl KS (RunScript A a source origin w)"
  unfolding RunScript_def
  by (rule yields_two_strings [OF assms(2)])
     (intro safe_with_context yields_valueResult gives_C_RunScript assms(1,3) | assumption | use assms(3) in simp)+

lemma yields_Global [safe_intros]:
  assumes "sound bl KS w" "Go_context a \<in> owned KS"
  shows "yields (value_pointers \<circ> obj_value) bl KS (Global A a w)"
  unfolding Global_def C_ContextGlobal_def
  by (intro safe_with_context [OF assms] yields_value_of [where ctx = "Some a"] safe_local_context yields_new_value assms(1) | assumption | use assms(2) in simp)+

lemma safe_PerformMicrotaskCheckpoint [safe_intros]:
  assumes "bodies_sound (closures A)" "sound bl KS w" "Go_context a \<in> owned KS"
  shows "safely (sound bl KS) (PerformMicrotaskCheckpoint A a w)"
  unfolding PerformMicrotaskCheckpoint_def by (intro safe_intros assms | assumption)+

lemma safe_RetainedValueCount [safe_intros]:
  assumes "sound bl KS w" "Go_context a \<in> owned KS"
  shows "safely (sound bl KS) (RetainedValueCount a w)"
  unfolding RetainedValueCount_def C_ContextRetainedValueCount_def
  by (intro safe_with_context [OF assms] safe_ctx_deref safely_Ok assms(1))

end
