(* ===== verification/Safe_Lifecycle.thy ===== *)
theory Safe_Lifecycle
  imports Safe_Scripts
begin

text \<open>
  Memory safety of the operations that create and free: isolates, contexts, unbound scripts,
  profilers; releasing values, closing contexts, disposing of isolates, the finalizer of
  templates. An operation that frees keeps every typing that does not contain what it frees.
\<close>

section \<open>Unbound scripts\<close>

definition script_pointers :: "UnboundScript \<Rightarrow> pointer set" where
  "script_pointers u = {ptr M_script (us_ptr u), Go_isolate (us_iso u)}"

lemma yields_new_unbound_script:
  assumes s: "sound bl KS w" and c: "M_ctx c \<in> owned KS"
  shows "yields (\<lambda>u. {M_script u}) bl KS (new_unbound_script c j w)"
proof (cases "brk w < mem_limit")
  case True
  from sound_alive [OF s c] obtain mc where mc: "mctxs w c = Some mc" by auto
  let ?u = "brk w"
  let ?w = "w\<lparr>brk := Suc ?u, mscripts := (mscripts w)(?u \<mapsto> \<lparr>mu_ptr = j\<rparr>),
     mctxs := (mctxs w)(c \<mapsto> mc\<lparr>mc_unboundScripts := mc_unboundScripts mc @ [?u]\<rparr>)\<rparr>"
  have new: "new_unbound_script c j w = Ok ?u ?w"
    using True mc by (simp add: new_unbound_script_def c_new_def tracked_unbound_script_def)
  have fresh: "mscripts w ?u = None"
    using sound_world(1) [OF s] by (simp add: world_ok_def heap_ok_def fresh_ok_def)
  have "keeps (clean bl) (new_unbound_script c j w)" using s by (intro clean_intros) (simp add: sound_def)
  then have "clean bl ?w" using new by simp
  moreover have pres: "preserves w ?w"
  proof (rule preservesI)
    fix x y assume x: "alive w x"
    then show "alive ?w x" by (cases x) auto
    assume "needs ?w x y"
    then show "needs w x y" using x fresh mc by (cases x) (auto split: if_splits)
  qed
  moreover have "hosted ?w" using s mc by (auto simp: sound_def hosted_def)
  ultimately have sound: "sound bl KS ?w" using preserves_sound [OF _ s] by blast
  have own: "d = c" if "mctxs w d = Some md" "?u \<in> set (mc_unboundScripts md)" for d md
    using sound_world(1) [OF s] that fresh by (fastforce simp: world_ok_def heap_ok_def scripts_ok_def)
  have "M_ctx c \<in> usable w" using c sound_usable [OF s] by blast
  then have "M_script ?u \<in> usable ?w"
    using own by (intro usable_new [OF pres]) (auto split: if_splits)
  then show ?thesis using sound new by simp
qed (simp add: new_unbound_script_def c_new_def)

lemma safe_C_CompileUnboundScript:
  fixes w :: "('e, 'j, 'cb) world"
  assumes A: "bodies_sound (closures A)" and w: "sound bl KS w" and p: "ptr V8_isolate p \<in> owned KS"
    and st: "c_string bl s x" "c_string bl t y"
  shows "safe (\<lambda>r w. if ru_ptr r = None then raised_in bl KS (ru_error r) w else sound bl KS w \<and> ptr M_script (ru_ptr r) \<in> usable w)
     (sound bl KS) (C_IsolateCompileUnboundScript A p s t data opt w)"
    (is "safe ?Q _ _")
proof -
  have fail: "safe ?Q (sound bl KS) (bindR (raised A i w) (\<lambda>e w. Ok \<lparr>ru_ptr = None, ru_rejected = 0, ru_error = e\<rparr> w))"
    if "sound bl KS w" "V8_isolate i \<in> owned KS" for i and w :: "('e, 'j, 'cb) world"
    by (rule safe_bind [OF safe_raised [OF A that(2,1)]]) simp
  have give: "safe ?Q (sound bl KS) (bindR (new_unbound_script c j w) (\<lambda>us w. Ok \<lparr>ru_ptr = Some us, ru_rejected = n, ru_error = no_error\<rparr> w))"
    if "sound bl KS w" "M_ctx c \<in> owned KS" for c j n and w :: "('e, 'j, 'cb) world"
    by (rule safe_bind [OF yields_new_unbound_script [OF that]]) simp
  show ?thesis
    unfolding C_IsolateCompileUnboundScript_def
    by (rule safe_internal_scope [OF w p], rule safe_ctx_deref [OF w], simp,
        rule safely_bind [OF safe_checked [OF safe_utf8_arg [OF w st(1)]]],
        rule safely_bind [OF safe_checked [OF safe_utf8_arg [OF _ st(2)]]], assumption,
        rule safely_bind [OF safe_ask], assumption)
       (intro safe_cases fail give; assumption)
qed

lemma yields_CompileUnboundScript [safe_intros]:
  fixes w :: "('e, 'j, 'cb) world"
  assumes A: "bodies_sound (closures A)" and w: "sound bl KS w" and a: "Go_isolate a \<in> owned KS"
  shows "yields (\<lambda>r. inr_pointers script_pointers (fst r)) bl KS (CompileUnboundScript A a source origin opts w)"
  unfolding CompileUnboundScript_def
proof (rule yields_two_strings [OF w], rule safely_bind)
  fix p q bl' and w' :: "('e, 'j, 'cb) world"
  assume w': "sound bl' KS w'" "c_string bl' p source" "c_string bl' q origin"
  show "safely (sound bl' KS) (case co_CachedData opts of
      Some cd \<Rightarrow> if co_Mode opts \<noteq> 0 then Fault (PanicText ''On CompileOptions, Mode and CachedData can't both be set'') w'
        else if cd_Bytes cd = [] then Fault IndexOutOfRange w'
        else Ok (Some (cd_Bytes cd), ScriptCompilerConsumeCodeCache) w'
    | None \<Rightarrow> Ok (None, co_Mode opts) w')"
    by (intro safe_cases safely_Ok safe_Fault w') simp_all
  fix x and w2 :: "('e, 'j, 'cb) world" assume w2: "sound bl' KS w2"
  have "yields (\<lambda>r. inr_pointers script_pointers (fst r)) bl' KS
      (bindR (C_IsolateCompileUnboundScript A i p q data opt w2) (\<lambda>rtn w.
         if ru_ptr rtn = None then bindR (newJSError (ru_error rtn) w) (\<lambda>e w. Ok (Inl e, co_CachedData opts) w)
         else Ok (Inr \<lparr>us_ptr = ru_ptr rtn, us_iso = a\<rparr>,
           map_option (\<lambda>cd. cd\<lparr>cd_Rejected := (ru_rejected rtn = 1)\<rparr>) (co_CachedData opts)) w))" if "ptr V8_isolate i \<in> owned KS" for i data opt
  proof (rule safe_bind [OF safe_C_CompileUnboundScript [OF A w2 that w'(2,3)]])
    fix rtn and w3 :: "('e, 'j, 'cb) world"
    assume r: "if ru_ptr rtn = None then raised_in bl' KS (ru_error rtn) w3 else sound bl' KS w3 \<and> ptr M_script (ru_ptr rtn) \<in> usable w3"
    show "yields (\<lambda>r. inr_pointers script_pointers (fst r)) bl' KS (if ru_ptr rtn = None then bindR (newJSError (ru_error rtn) w3) (\<lambda>e w. Ok (Inl e, co_CachedData opts) w)
         else Ok (Inr \<lparr>us_ptr = ru_ptr rtn, us_iso = a\<rparr>,
           map_option (\<lambda>cd. cd\<lparr>cd_Rejected := (ru_rejected rtn = 1)\<rparr>) (co_CachedData opts)) w3)"
      using r a by (auto intro!: safely_bind [OF safe_newJSError] simp: script_pointers_def intro: owned_usable)
  qed
  then show "yields (\<lambda>r. inr_pointers script_pointers (fst r)) bl' KS ((case x of (data, compileOption) \<Rightarrow> \<lambda>w. with_isolate a (\<lambda>i w.
      bindR (C_IsolateCompileUnboundScript A (i_ptr i) p q data compileOption w) (\<lambda>rtn w.
         if ru_ptr rtn = None then bindR (newJSError (ru_error rtn) w) (\<lambda>e w. Ok (Inl e, co_CachedData opts) w)
         else Ok (Inr \<lparr>us_ptr = ru_ptr rtn, us_iso = a\<rparr>,
           map_option (\<lambda>cd. cd\<lparr>cd_Rejected := (ru_rejected rtn = 1)\<rparr>) (co_CachedData opts)) w)) w) w2)"
    by (cases x) (auto intro!: safe_with_isolate [OF w2 a] simp del: safe.simps)
qed

lemma safe_script_deref:
  assumes "sound bl KS w" "ptr M_script p \<in> owned KS" "\<And>u mu. safe Q (sound bl KS) (k u mu)"
  shows "safe Q (sound bl KS) (case c_deref (mscripts w) p of None \<Rightarrow> Fault Segv w | Some (u, mu) \<Rightarrow> k u mu)"
  using sound_alive [OF assms(1,2)] assms(3) by (cases p) auto

lemma yields_UnboundScript_Run [safe_intros]:
  assumes A: "bodies_sound (closures A)" and w: "sound bl KS w" and u: "script_pointers u \<subseteq> owned KS" and a: "Go_context a \<in> owned KS"
  shows "yields (inr_pointers value_pointers) bl KS (UnboundScript_Run A u a w)"
proof -
  have s: "ptr M_script (us_ptr u) \<in> owned KS" using u by (simp add: script_pointers_def)
  have iso: "safely (sound bl KS) (Context_Isolate a w)"
    unfolding Context_Isolate_def by (intro safe_with_context [OF w a] safely_Ok w)
  show ?thesis
    unfolding UnboundScript_Run_def C_UnboundScriptRun_def
    by (rule safely_bind [OF iso])
       (intro safe_cases(1) safe_Fault safe_with_context yields_valueResult safe_local_context safe_script_deref
         safely_bind [OF safe_ask] safely_bind [OF safe_run] gives_rtn_of A a s | assumption | use a in simp)+
qed

lemma safe_CreateCodeCache [safe_intros]:
  fixes w :: "('e, 'j, 'cb) world"
  assumes A: "v8_limits A" and w: "sound bl KS w" and u: "script_pointers u \<subseteq> owned KS"
  shows "safely (sound bl KS) (CreateCodeCache A u w)"
proof -
  have s: "ptr M_script (us_ptr u) \<in> owned KS" and i: "Go_isolate (us_iso u) \<in> owned KS"
    using u by (simp_all add: script_pointers_def)
  let ?Q = "\<lambda>r w. \<exists>s. sd_length r = int (length s) \<and> block_in bl KS (\<lambda>b. b = Chars s) (Some (sd_data r)) w"
  have C: "safe ?Q (sound bl KS) (C_UnboundScriptCreateCodeCache A p (us_ptr u) w)" if "ptr V8_isolate p \<in> owned KS" for p
    unfolding C_UnboundScriptCreateCodeCache_def
  proof (rule safe_isolate_scope [OF w that], rule safe_script_deref [OF w s])
    fix i x and mu :: "'j m_unboundScript"
    obtain d rj where d: "v8_code_cache A (mu_ptr mu) (v8 w) = (d, rj)" by fastforce
    have "length (fst (v8_code_cache A (mu_ptr mu) (v8 w))) < 2 ^ 31" using A by (simp add: v8_limits_def)
    then have "c_int (int (length d)) = int (length d)" using d by (intro c_int_id) auto
    then show "safe ?Q (sound bl KS) (let (data, rejected) = v8_code_cache A (mu_ptr mu) (v8 w) in
         bindR (malloc (Chars data) w) (\<lambda>a w.
           Ok \<lparr>sd_data = a, sd_length = c_int (int (length data)), sd_rejected = (if rejected then 1 else 0)\<rparr> w))"
      unfolding d by (auto simp: Let_def intro!: safe_bind [OF safe_weaken [OF block_in_malloc [where P = "\<lambda>b. b = Chars d", OF w]]])
  qed
  show ?thesis
    unfolding CreateCodeCache_def C_ScriptCompilerCachedDataDelete_def
  proof (rule safe_with_isolate [OF w i], rule safe_bind [OF C], assumption)
    fix g r and w' :: "('e, 'j, 'cb) world"
    assume "?Q r w'"
    then obtain s where r: "sd_length r = int (length s)" "bl (sd_data r) = None" "sound (bl(sd_data r \<mapsto> Chars s)) KS w'"
      by (auto simp: block_in_def)
    then have "GoStringN (Some (sd_data r)) (sd_length r) w' = Ok s w'" by (simp add: GoStringN_def sound_world(2) [OF r(3)])
    moreover obtain w2 where "cfree (Some (sd_data r)) w' = Ok () w2" "sound bl KS w2" using safe_cfree [OF r(3,2)] by auto
    ultimately show "safely (sound bl KS) (bindR (GoStringN (Some (sd_data r)) (sd_length r) w') (\<lambda>bs w.
        bindR (cfree (Some (sd_data r)) w) (\<lambda>_ w. Ok \<lparr>cd_Bytes = bs, cd_Rejected = (sd_rejected r = 1)\<rparr> w)))"
      by simp
  qed
qed

section \<open>Isolates\<close>

lemma safe_C_SetFlags: "sound bl KS w \<Longrightarrow> c_string bl p s \<Longrightarrow> safely (sound bl KS) (C_SetFlags A p w)"
  by (simp add: C_SetFlags_def sound_world(2) c_string_def read_cstr_CString) (simp add: sound_def clean_def)

lemma safe_SetFlags [safe_intros]:
  fixes w :: "('e, 'j, 'cb) world"
  assumes w: "sound bl KS w"
  shows "safely (sound bl KS) (SetFlags A fs w)"
  unfolding SetFlags_def CString_def
proof (rule safe_bind [OF safe_weaken [OF safe_malloc [OF w]]])
  fix p and w1 :: "('e, 'j, 'cb) world"
  let ?bl = "bl(p \<mapsto> Chars (join_flags fs @ [NUL]))"
  assume p: "bl p = None \<and> sound ?bl KS w1 \<and> usable w1 = usable w"
  show "safely (sound bl KS) (bindR (C_SetFlags A p w1) (\<lambda>_ w. cfree (Some p) w))"
  proof (rule safe_bind)
    show "safe (\<lambda>_. sound ?bl KS) (sound bl KS) (C_SetFlags A p w1)"
      using p by (simp add: C_SetFlags_def sound_world(2) [of ?bl KS w1] read_cstr_def) (simp add: sound_def clean_def)
    fix w2 :: "('e, 'j, 'cb) world" assume "sound ?bl KS w2"
    then show "safely (sound bl KS) (cfree (Some p) w2)" using safe_cfree [of bl p _ KS w2] p by fastforce
  qed
qed

lemma safe_initializeIfNecessary [safe_intros]:
  assumes "sound bl KS w"
  shows "safely (sound bl KS) (initializeIfNecessary A w)"
proof -
  have "sound bl KS (w\<lparr>v8once := True\<rparr>)" using assms by (simp add: sound_def clean_def)
  then show ?thesis
    unfolding initializeIfNecessary_def using assms
    by (intro safe_cases(1) safely_Ok safely_withCString safely_bind [OF safe_C_SetFlags])
       (auto simp: C_Init_def sound_def clean_def)
qed

text \<open>A new isolate with its internal context and its Go struct.\<close>

lemma yields_new_isolate:
  assumes s: "sound bl KS w"
  shows "yields (\<lambda>a. {Go_isolate a}) bl KS (bindR (C_NewIsolate A w) (\<lambda>p w. new_Isolate_struct p w))"
proof (cases "Suc (brk w) < mem_limit \<and> gbrk w < mem_limit")
  case True
  obtain e h where eh: "v8_new_isolate A (brk w) (v8 w) = (e, h)" by fastforce
  let ?i = "brk w" and ?c = "Suc (brk w)" and ?a = "gbrk w"
  let ?w = "w\<lparr>brk := Suc ?c, v8 := e, isolates := (isolates w)(?i \<mapsto> \<lparr>slot0 = Some ?c\<rparr>),
     mctxs := (mctxs w)(?c \<mapsto> \<lparr>mc_iso = ?i, mc_vals = [], mc_unboundScripts = [], mc_ptr = h, mc_nextValId = v8_uninit A e\<rparr>),
     gbrk := Suc ?a, gisos := (gisos w)(?a \<mapsto> \<lparr>i_ptr = Some ?i, cbSeq = 0, cbs = (\<lambda>_. None), i_null = None, i_undefined = None\<rparr>)\<rparr>"
  have eq: "bindR (C_NewIsolate A w) (\<lambda>p w. new_Isolate_struct p w) = Ok ?a ?w"
    using True eh by (simp add: C_NewIsolate_def c_new_def Let_def new_Isolate_struct_def go_new_def)
  have ok: "world_ok w" by (rule sound_world(1) [OF s])
  have fresh: "isolates w ?i = None" "mctxs w ?c = None" "gisos w ?a = None"
    using ok by (simp_all add: world_ok_def heap_ok_def fresh_ok_def go_ok_def gheap_ok_def)
  have "clean bl ?w" using new_struct_spec [OF ok, of A] s by (simp add: eq clean_def sound_def)
  moreover have pres: "preserves w ?w"
  proof (rule preservesI)
    fix x y assume x: "alive w x"
    then show "alive ?w x" using fresh by (cases x) auto
    assume "needs ?w x y"
    then show "needs w x y" using x fresh by (cases x) (auto split: if_splits)
  qed
  moreover have "hosted ?w" using s fresh by (auto simp: sound_def hosted_def)
  ultimately have sound: "sound bl KS ?w" using preserves_sound [OF _ s] by blast
  then have "Go_isolate ?a \<in> usable ?w" by (rule hosted_usable) auto
  then show ?thesis using sound by (simp add: eq)
next
  case False
  then have "\<exists>w'. bindR (C_NewIsolate A w) (\<lambda>p w. new_Isolate_struct p w) = Fault OutOfMemory w'"
    by (auto simp: C_NewIsolate_def c_new_def Let_def new_Isolate_struct_def go_new_def split: prod.splits)
  then show ?thesis by auto
qed

lemma sound_write_iso:
  assumes s: "sound bl KS w" and f: "\<And>g. i_ptr (f g) = i_ptr g" "\<And>g. cbs (f g) = cbs g" "\<And>g. cbSeq (f g) = cbSeq g"
  shows "sound bl KS (write_iso a f w)"
proof (rule preserves_sound [OF _ s])
  show "preserves w (write_iso a f w)"
  proof (rule preservesI)
    fix x y assume x: "alive w x"
    then show "alive (write_iso a f w) x" using f by (cases x) (auto simp: write_iso_def)
    assume "needs (write_iso a f w) x y"
    then show "needs w x y" using x f by (cases x) (auto simp: write_iso_def split: if_splits)
  qed
  show "clean bl (write_iso a f w)" using s f world_write_iso [of w f a] by (simp add: sound_def clean_def) (simp add: write_iso_def)
  have host: "hosted w" using s by (simp add: sound_def)
  have "\<exists>g. gisos (write_iso a f w) (c_iso c) = Some g \<and> i_ptr g \<noteq> None" if c: "gctxs w b = Some c" "c_ptr c \<noteq> None" for b c
  proof -
    obtain g where g: "gisos w (c_iso c) = Some g" "i_ptr g \<noteq> None" using host c unfolding hosted_def by blast
    show ?thesis
    proof (cases "c_iso c = a")
      case True
      then show ?thesis using g f(1) [of g] by (intro exI [of _ "f g"]) (simp add: write_iso_def)
    qed (use g in \<open>simp add: write_iso_def\<close>)
  qed
  then show "hosted (write_iso a f w)" using host unfolding hosted_def by (simp add: write_iso_def)
qed

lemma yields_NewIsolate [safe_intros]:
  fixes w :: "('e, 'j, 'cb) world"
  assumes w: "sound bl KS w"
  shows "yields (\<lambda>a. {Go_isolate a}) bl KS (NewIsolate A w)"
proof -
  have eq: "NewIsolate A w = bindR (initializeIfNecessary A w) (\<lambda>_ w.
     bindR (bindR (C_NewIsolate A w) (\<lambda>i w. new_Isolate_struct i w)) (\<lambda>a w. set_constants A a w))"
    by (simp add: NewIsolate_def bindR_assoc)
  have null: "safely (sound bl KS) (newValueNull A p w)" "safely (sound bl KS) (newValueUndefined A p w)"
    if "sound bl KS w" "ptr V8_isolate p \<in> owned KS" for KS p and w :: "('e, 'j, 'cb) world"
    unfolding newValueNull_def C_NewValueNull_def newValueUndefined_def C_NewValueUndefined_def using that
    by (intro safely_bind_Ok safe_internal_scope safe_mono [OF yields_new_value]; auto)+
  have "yields (\<lambda>a. {Go_isolate a}) bl KS (set_constants A a w1)"
    if a: "sound bl KS w1" "Go_isolate a \<in> usable w1" for a and w1 :: "('e, 'j, 'cb) world"
  proof (rule yields_extend [OF a(1)])
    let ?KS = "insert (usable w1) KS"
    assume w1: "sound bl ?KS w1"
    have own: "Go_isolate a \<in> owned ?KS" using a(2) by simp
    have last: "yields (\<lambda>a. {Go_isolate a}) bl ?KS (Ok a (write_iso a (\<lambda>g. g\<lparr>i_undefined := Some u\<rparr>) w'))"
      if "sound bl ?KS w'" for u and w' :: "('e, 'j, 'cb) world"
    proof -
      have "sound bl ?KS (write_iso a (\<lambda>g. g\<lparr>i_undefined := Some u\<rparr>) w')" by (rule sound_write_iso [OF that]) simp_all
      then show ?thesis using owned_usable [OF _ own] by simp
    qed
    show "yields (\<lambda>a. {Go_isolate a}) bl ?KS (set_constants A a w1)"
      unfolding set_constants_def Let_def
      by (intro safe_with_isolate [OF w1 own] safely_bind [OF null(1) [OF w1]] safely_bind [OF null(2) [OF sound_write_iso]] last)
         simp_all
  qed
  then show ?thesis
    unfolding eq
    by (intro safely_bind [OF safe_initializeIfNecessary [OF w]] safe_bind [OF yields_new_isolate]) auto
qed

lemma safe_isolate_calls [safe_intros]:
  assumes "sound bl KS w" "Go_isolate a \<in> owned KS"
  shows "safely (sound bl KS) (TerminateExecution A a w)" "safely (sound bl KS) (IsExecutionTerminating A a w)"
    "safely (sound bl KS) (GetHeapStatistics A a w)"
proof -
  have "sound bl KS (w\<lparr>v8 := e\<rparr>)" for e using assms(1) by (simp add: sound_def clean_def)
  then show "safely (sound bl KS) (TerminateExecution A a w)"
    unfolding TerminateExecution_def by (intro safe_with_isolate safe_isolate_scope safely_Ok assms)
  show "safely (sound bl KS) (IsExecutionTerminating A a w)" "safely (sound bl KS) (GetHeapStatistics A a w)"
    unfolding IsExecutionTerminating_def GetHeapStatistics_def C_IsolationGetHeapStatistics_def Let_def
    by (intro safe_with_isolate safe_isolate_scope safely_bind_Ok safe_cases(1) safely_Ok assms | assumption)+
qed

lemma yields_ThrowException [safe_intros]:
  fixes w :: "('e, 'j, 'cb) world"
  assumes w: "sound bl KS w" and a: "Go_isolate a \<in> owned KS" and v: "\<And>v. val = Some v \<Longrightarrow> value_pointers v \<subseteq> owned KS"
  shows "yields value_pointers bl KS (ThrowException A a val w)"
proof -
  have throw: "yields (\<lambda>p. {M_value p}) bl KS (C_IsolateThrowException A p (v_ptr x) w)"
    if p: "ptr V8_isolate p \<in> owned KS" and x: "val = Some x" for p x
    unfolding C_IsolateThrowException_def
  proof (rule safe_isolate_scope [OF w p])
    fix i assume i: "V8_isolate i \<in> owned KS"
    have x: "ptr M_value (v_ptr x) \<in> owned KS" using v [OF x] by (simp add: value_pointers_def)
    from sound_alive [OF w x] obtain q mv where q: "v_ptr x = Some q" "mvals w q = Some mv" by (cases "v_ptr x") auto
    then have c: "ptr M_ctx (mv_ctx mv) \<in> owned KS" using sound_needs [OF w x] by simp
    from sound_alive [OF w c] obtain d where d: "mv_ctx mv = Some d" by (cases "mv_ctx mv") auto
    have "sound bl KS (w\<lparr>v8 := e\<rparr>)" for e using w by (simp add: sound_def clean_def)
    then show "yields (\<lambda>p. {M_value p}) bl KS (case c_deref (mvals w) (v_ptr x) of None \<Rightarrow> Fault Segv w
     | Some (_, mv) \<Rightarrow> (let (e, r) = v8_throw A i (mv_ptr mv) (v8 w) in new_value i (mv_ctx mv) r (w\<lparr>v8 := e\<rparr>)))"
      using q d c i by (simp add: Let_def case_prod_beta yields_new_value del: safe.simps insert_subset)
  qed
  show ?thesis
    unfolding ThrowException_def
    by (intro safe_with_isolate [OF w a] safe_cases safe_Fault yields_value_of [OF throw, where ctx = None] w) simp_all
qed

section \<open>Contexts\<close>

lemma yields_open_context:
  fixes w :: "('e, 'j, 'cb) world"
  assumes s: "sound bl KS w" and a: "Go_isolate a \<in> owned KS"
    and t: "gtmpls w t = Some tm" "t_ptr tm = None \<or> ptr M_template (t_ptr tm) \<in> owned KS"
  shows "yields (\<lambda>c. {Go_context c}) bl KS (open_context A a t w)"
proof -
  obtain ref g where ref: "next_ref (reg w) = (ref, g)" by fastforce
  from sound_alive [OF s a] obtain h i where h: "gisos w a = Some h" "i_ptr h = Some i" by auto
  then have "V8_isolate i \<in> owned KS" using sound_needs [OF s a] by simp
  from sound_alive [OF s this] have i: "isolates w i \<noteq> None" by simp
  have tm: "t_ptr tm = None \<or> c_deref (mtmpls w) (t_ptr tm) \<noteq> None"
    using t(2) sound_alive [OF s, of "ptr M_template (t_ptr tm)"] by (cases "t_ptr tm") auto
  note unfold = open_context_def go_new_def with_isolate_def with_template_def C_NewContext_def isolate_scope_def ask_def c_new_def
  show ?thesis
  proof (cases "gbrk w < mem_limit \<and> brk w < mem_limit")
    case False
    then have "\<exists>w'. open_context A a t w = Fault OutOfMemory w'"
      using h i t(1) tm ref by (auto simp: unfold case_prod_beta)
    then show ?thesis by auto
  next
    case True
  with tm obtain c w' where new: "open_context A a t w = Ok c w'"
    using True h i t(1) ref by (auto simp: unfold case_prod_beta)
  obtain e mc h' where h': "gisos w a = Some h'" "i_ptr h' = Some (mc_iso mc)" and mc: "mc_vals mc = []" "mc_unboundScripts mc = []"
    and c: "c = gbrk w"
    and w': "w' = ctx_opened c ref a (brk w) mc (w\<lparr>gbrk := Suc (gbrk w), reg := g, v8 := e, brk := Suc (brk w)\<rparr>)"
    by (rule open_context_opened [OF new _ ref]) (use True in auto)
  have ok: "world_ok w" by (rule sound_world(1) [OF s])
  have fresh: "mctxs w (brk w) = None" "gctxs w (gbrk w) = None"
    using ok by (simp_all add: world_ok_def heap_ok_def fresh_ok_def go_ok_def gheap_ok_def)
  have "keeps world_ok (open_context A a t w)" by (rule world_open_context [OF ok])
  then have "clean bl w'" using new s by (simp add: clean_def sound_def) (simp add: w' ctx_opened_def)
  moreover have "preserves w w'"
  proof (rule preservesI)
    fix x y assume x: "alive w x"
    then show "alive w' x" using fresh by (cases x) (auto simp: w' c ctx_opened_def)
    assume "needs w' x y"
    then show "needs w x y" using x fresh mc by (cases x) (auto simp: w' c ctx_opened_def split: if_splits)
  qed
  moreover have "hosted w'"
    using s h h' i by (auto simp: sound_def hosted_def w' ctx_opened_def)
  ultimately have sound: "sound bl KS w'" using preserves_sound [OF _ s] by blast
  then have "Go_context c \<in> usable w'" by (rule hosted_usable) (auto simp: w' ctx_opened_def)
  then show ?thesis using sound new by simp
  qed
qed

definition option_pointers :: "ContextOption list \<Rightarrow> pointer set" where
  "option_pointers opt =
     (case o_iso (context_options opt) of None \<Rightarrow> {} | Some a \<Rightarrow> {Go_isolate a}) \<union>
     (case o_gTmpl (context_options opt) of None \<Rightarrow> {} | Some t \<Rightarrow> {Go_template t})"

lemma safe_empty_template:
  assumes s: "sound bl KS w"
  shows "safe (\<lambda>t w'. sound bl KS w' \<and> gtmpls w' t = Some \<lparr>t_ptr = None, t_iso = None\<rparr>) (sound bl KS)
     (new_template \<lparr>t_ptr = None, t_iso = None\<rparr> w)"
proof (cases "gbrk w < mem_limit")
  case True
  let ?w = "w\<lparr>gbrk := Suc (gbrk w), gtmpls := (gtmpls w)(gbrk w \<mapsto> \<lparr>t_ptr = None, t_iso = None\<rparr>)\<rparr>"
  have fresh: "gtmpls w (gbrk w) = None"
    using sound_world(1) [OF s] by (simp add: world_ok_def go_ok_def gheap_ok_def)
  have "keeps world_ok (new_template \<lparr>t_ptr = None, t_iso = None\<rparr> w)" using sound_world(1) [OF s] by (rule world_new_template)
  then have "clean bl ?w" using True s by (simp add: new_template_def go_new_def sound_def clean_def)
  moreover have "preserves w ?w"
  proof (rule preservesI)
    fix x y assume x: "alive w x"
    then show "alive ?w x" using fresh by (cases x) auto
    assume "needs ?w x y"
    then show "needs w x y" using x fresh by (cases x) (auto split: if_splits)
  qed
  moreover have "hosted ?w" using s by (simp add: sound_def hosted_def)
  ultimately show ?thesis using preserves_sound [OF _ s] True by (simp add: new_template_def go_new_def)
qed (simp add: new_template_def go_new_def)

lemma yields_NewContext [safe_intros]:
  fixes w :: "('e, 'j, 'cb) world"
  assumes w: "sound bl KS w" and opt: "option_pointers opt \<subseteq> owned KS"
  shows "yields (\<lambda>c. {Go_context c}) bl KS (NewContext A opt w)"
proof -
  let ?o = "context_options opt"
  have iso: "yields (\<lambda>a. {Go_isolate a}) bl KS (case o_iso ?o of None \<Rightarrow> NewIsolate A w | Some i \<Rightarrow> Ok i w)"
    using yields_NewIsolate [OF w] w opt owned_usable [OF w]
    by (auto simp: option_pointers_def simp del: insert_subset split: option.splits)
  have tmpl: "safe (\<lambda>t w'. sound bl KS' w' \<and> (\<exists>tm. gtmpls w' t = Some tm \<and> (t_ptr tm = None \<or> ptr M_template (t_ptr tm) \<in> owned KS'))) (sound bl KS')
      (case o_gTmpl ?o of None \<Rightarrow> new_template \<lparr>t_ptr = None, t_iso = None\<rparr> w1 | Some t \<Rightarrow> Ok t w1)"
    if w1: "sound bl KS' w1" and sub: "owned KS \<subseteq> owned KS'" for KS' and w1 :: "('e, 'j, 'cb) world"
  proof (cases "o_gTmpl ?o")
    case None
    show ?thesis unfolding None option.case by (rule safe_mono [OF safe_empty_template [OF w1]]) auto
  next
    case (Some t)
    then have t: "Go_template t \<in> owned KS'" using opt sub by (auto simp: option_pointers_def)
    show ?thesis using sound_alive [OF w1 t] sound_needs [OF w1 t] w1 by (auto simp: Some)
  qed
  show ?thesis
    unfolding NewContext_def Let_def
  proof (rule safe_bind [OF iso])
    fix a and w1 :: "('e, 'j, 'cb) world"
    assume a: "sound bl KS w1 \<and> {Go_isolate a} \<subseteq> usable w1"
    show "yields (\<lambda>c. {Go_context c}) bl KS (bindR (case o_gTmpl ?o of None \<Rightarrow> new_template \<lparr>t_ptr = None, t_iso = None\<rparr> w1
        | Some t \<Rightarrow> Ok t w1) (\<lambda>t w. open_context A a t w))"
    proof (rule yields_extend [of bl KS w1])
      let ?KS = "insert (usable w1) KS"
      assume w1: "sound bl ?KS w1"
      show "yields (\<lambda>c. {Go_context c}) bl ?KS (bindR (case o_gTmpl ?o of None \<Rightarrow> new_template \<lparr>t_ptr = None, t_iso = None\<rparr> w1
          | Some t \<Rightarrow> Ok t w1) (\<lambda>t w. open_context A a t w))"
        by (rule safe_bind [OF tmpl [OF w1]]) (use a in \<open>auto intro!: yields_open_context simp del: safe.simps insert_subset\<close>)
    qed (use a in simp)
  qed
qed

section \<open>Profilers\<close>

definition profiler_pointers :: "CPUProfiler \<Rightarrow> pointer set" where
  "profiler_pointers c = {ptr C_profiler (gp_p c), Go_isolate (gp_iso c)}"

lemma yields_NewCPUProfiler [safe_intros]:
  fixes w :: "('e, 'j, 'cb) world"
  assumes w: "sound bl KS w" and a: "Go_isolate a \<in> owned KS"
  shows "yields profiler_pointers bl KS (NewCPUProfiler A a w)"
proof -
  have new: "yields (\<lambda>p. {C_profiler p}) bl KS (new_cprofiler \<lparr>pr_ptr = Some j, pr_iso = Some i\<rparr> w)"
    if s: "sound bl KS w" and i: "V8_isolate i \<in> owned KS" for i j and w :: "('e, 'j, 'cb) world"
  proof (cases "brk w < mem_limit")
    case True
    let ?w = "w\<lparr>brk := Suc (brk w), cprofilers := (cprofilers w)(brk w \<mapsto> \<lparr>pr_ptr = Some j, pr_iso = Some i\<rparr>)\<rparr>"
    have fresh: "cprofilers w (brk w) = None"
      using sound_world(1) [OF s] by (simp add: world_ok_def heap_ok_def fresh_ok_def)
    have "keeps world_ok (new_cprofiler \<lparr>pr_ptr = Some j, pr_iso = Some i\<rparr> w)"
      using sound_world(1) [OF s] by (rule world_new_structs)
    then have "clean bl ?w" using True s by (simp add: new_cprofiler_def c_new_def sound_def clean_def)
    moreover have pres: "preserves w ?w"
    proof (rule preservesI)
      fix x y assume x: "alive w x"
      then show "alive ?w x" using fresh by (cases x) auto
      assume "needs ?w x y"
      then show "needs w x y" using x fresh by (cases x) (auto split: if_splits)
    qed
    moreover have "hosted ?w" using s by (simp add: sound_def hosted_def)
    ultimately have "sound bl KS ?w" using preserves_sound [OF _ s] by blast
    moreover have "C_profiler (brk w) \<in> usable ?w"
      by (rule usable_new [OF pres]) (use owned_usable [OF s i] in auto)
    ultimately show ?thesis using True by (simp add: new_cprofiler_def c_new_def)
  qed (simp add: new_cprofiler_def c_new_def)
  show ?thesis
    unfolding NewCPUProfiler_def C_NewCPUProfiler_def
    by (intro safe_with_isolate [OF w a] yields_bind_Ok [where F = "\<lambda>p. {C_profiler p}"] safe_isolate_scope [OF w]
        safely_bind [OF safe_ask [OF w]] new) (use owned_usable a in \<open>auto simp: profiler_pointers_def\<close>)
qed

lemma safe_StartProfiling [safe_intros]:
  fixes w :: "('e, 'j, 'cb) world"
  assumes w: "sound bl KS w" and c: "profiler_pointers c \<subseteq> owned KS"
  shows "safely (sound bl KS) (StartProfiling A c t w)"
proof -
  have p: "ptr C_profiler (gp_p c) \<in> owned KS" and a: "Go_isolate (gp_iso c) \<in> owned KS"
    using c by (simp_all add: profiler_pointers_def)
  have start: "safely (sound bl' KS) (C_CPUProfilerStartProfiling A q s w')"
    if w': "sound bl' KS w'" and s: "c_string bl' s t" and q: "gp_p c = Some q" for bl' q s and w' :: "('e, 'j, 'cb) world"
  proof -
    have "C_profiler q \<in> owned KS" using p q by simp
    from sound_alive [OF w' this] sound_needs [OF w' this] obtain pr j where pr: "cprofilers w' q = Some pr" "pr_ptr pr = Some j"
      and i: "pr_iso pr \<noteq> None \<longrightarrow> ptr V8_isolate (pr_iso pr) \<in> owned KS" by auto
    show ?thesis
      unfolding C_CPUProfilerStartProfiling_def pr option.case
      by (intro safe_cases(1) safely_Ok w' safe_isolate_scope [OF w'] safely_bind [OF safe_checked [OF safe_utf8_arg [OF w' s]]] safe_tell)
         (use i in auto)
  qed
  obtain q where "gp_p c = Some q" using sound_alive [OF w p] by (cases "gp_p c") auto
  then show ?thesis
    unfolding StartProfiling_def profiler_guard_def
    by (simp only: option.case, intro safe_with_isolate [OF w a] safe_cases(1) safe_Fault w safely_withCString [OF w] start) simp_all
qed

end
