(* ===== verification/Safe_Disposal.thy ===== *)
theory Safe_Disposal
  imports Safe_Lifecycle
begin

text \<open>
  Memory safety of the operations that free. Each of them keeps a typing that does not contain
  what it frees; since a typing contains what its members need, it then contains nothing that
  is freed along with it.
\<close>

lemma typed_shrink:
  assumes "typed K w" "\<And>x. x \<in> K \<Longrightarrow> alive w x \<Longrightarrow> alive w' x"
    and "\<And>x y. x \<in> K \<Longrightarrow> alive w x \<Longrightarrow> needs w' x y \<Longrightarrow> needs w x y"
  shows "typed K w'"
  using assms unfolding typed_def by blast

lemma not_owned: "x \<notin> owned KS \<Longrightarrow> K \<in> KS \<Longrightarrow> x \<notin> K"
  by (auto simp: owned_def)

section \<open>Values\<close>

lemma safe_Value_Release:
  assumes s: "sound bl KS w" and v: "ptr M_value (v_ptr v) \<in> usable w" "ptr M_value (v_ptr v) \<notin> owned KS"
  shows "safe (\<lambda>_ w'. sound bl KS w' \<and> (\<forall>q. v_ptr v \<noteq> Some q \<longrightarrow> M_value q \<in> usable w \<longrightarrow> M_value q \<in> usable w'))
     (sound bl KS) (Value_Release v w)"
proof -
  from typed_alive [OF typed_usable v(1)] obtain p mv where p: "v_ptr v = Some p" "mvals w p = Some mv" by (cases "v_ptr v") auto
  have ok: "world_ok w" by (rule sound_world(1) [OF s])
  from p obtain c mc where c: "mv_ctx mv = Some c" "mctxs w c = Some mc"
    using ok unfolding world_ok_def heap_ok_def values_ok_def by blast
  have "isolates w (mv_iso mv) \<noteq> None" using s p by (auto simp: sound_def hosted_def)
  note eq = C_ValueRelease_eq [OF p(2) c this]
  let ?w = "w\<lparr>mctxs := (mctxs w)(c \<mapsto> untrack (mv_id mv) mc), mvals := (mvals w)(p := None)\<rparr>"
  have typed: "typed K ?w" if "typed K w" "M_value p \<notin> K" for K
  proof (rule typed_shrink [OF that(1)])
    fix x y assume x: "x \<in> K" "alive w x"
    then show "alive ?w x" using that(2) by (cases x) auto
    assume "needs ?w x y"
    then show "needs w x y" using x c by (cases x) (auto split: if_splits)
  qed
  have "clean bl ?w" using world_C_ValueRelease [OF ok, of "Some p"] s by (simp add: eq clean_def sound_def)
  moreover have "hosted ?w" using s c by (auto simp: sound_def hosted_def)
  ultimately have "sound bl KS ?w" using s typed v(2) p(1) not_owned [of "M_value p" KS] by (auto simp: sound_def)
  moreover have "M_value q \<in> usable ?w" if "q \<noteq> p" "M_value q \<in> usable w" for q
    by (rule hosted_usable [OF \<open>sound bl KS ?w\<close>]) (use that typed_alive [OF typed_usable, of "M_value q" w] in auto)
  ultimately show ?thesis using eq p(1) by (simp add: Value_Release_def)
qed

lemma safe_release_all:
  fixes w :: "('e, 'j, 'cb) world"
  assumes "sound bl KS w" "\<forall>v \<in> set vs. ptr M_value (v_ptr v) \<in> usable w \<and> ptr M_value (v_ptr v) \<notin> owned KS"
    and "distinct (map v_ptr vs)"
  shows "safe (\<lambda>_ w'. sound bl KS w' \<and> (\<forall>q. Some q \<notin> v_ptr ` set vs \<longrightarrow> M_value q \<in> usable w \<longrightarrow> M_value q \<in> usable w'))
     (sound bl KS) (release_all vs w)"
  using assms
proof (induction vs arbitrary: w)
  case (Cons v vs)
  show ?case
    unfolding release_all.simps
  proof (rule safe_bind [OF safe_Value_Release [OF Cons.prems(1)]])
    fix w1 :: "('e, 'j, 'cb) world"
    assume w1: "sound bl KS w1 \<and> (\<forall>q. v_ptr v \<noteq> Some q \<longrightarrow> M_value q \<in> usable w \<longrightarrow> M_value q \<in> usable w1)"
    have "\<forall>u \<in> set vs. ptr M_value (v_ptr u) \<in> usable w1 \<and> ptr M_value (v_ptr u) \<notin> owned KS"
    proof
      fix u assume u: "u \<in> set vs"
      with Cons.prems obtain q where "v_ptr u = Some q" "M_value q \<in> usable w" "M_value q \<notin> owned KS"
        by (cases "v_ptr u") fastforce+
      moreover have "v_ptr v \<noteq> v_ptr u" using Cons.prems(3) u by auto
      ultimately show "ptr M_value (v_ptr u) \<in> usable w1 \<and> ptr M_value (v_ptr u) \<notin> owned KS" using w1 by simp
    qed
    then have "safe (\<lambda>_ w'. sound bl KS w' \<and> (\<forall>q. Some q \<notin> v_ptr ` set vs \<longrightarrow> M_value q \<in> usable w1 \<longrightarrow> M_value q \<in> usable w'))
        (sound bl KS) (release_all vs w1)"
      using Cons w1 by auto
    then show "safe (\<lambda>_ w'. sound bl KS w' \<and> (\<forall>q. Some q \<notin> v_ptr ` set (v # vs) \<longrightarrow> M_value q \<in> usable w \<longrightarrow> M_value q \<in> usable w'))
        (sound bl KS) (release_all vs w1)"
      by (rule safe_mono) (use w1 in auto)
  qed (use Cons.prems in auto)
qed simp

lemma safe_info_Release:
  fixes w :: "('e, 'j, 'cb) world"
  assumes s: "sound bl KS w" and v: "\<forall>v \<in> set (info_values i). ptr M_value (v_ptr v) \<in> usable w \<and> ptr M_value (v_ptr v) \<notin> owned KS"
    and d: "distinct (map v_ptr (info_values i))"
  shows "safely (sound bl KS) (info_Release i w)"
proof -
  let ?t = "obj_value (fi_this i)"
  have "safe (\<lambda>_ w'. sound bl KS w' \<and> (\<forall>q. Some q \<notin> v_ptr ` set (fi_args i) \<longrightarrow> M_value q \<in> usable w \<longrightarrow> M_value q \<in> usable w'))
     (sound bl KS) (release_all (fi_args i) w)"
    by (rule safe_release_all [OF s]) (use v d in \<open>auto simp: info_values_def\<close>)
  then show ?thesis
    unfolding info_Release_def
  proof (rule safe_bind)
    fix w1 :: "('e, 'j, 'cb) world"
    assume w1: "sound bl KS w1 \<and> (\<forall>q. Some q \<notin> v_ptr ` set (fi_args i) \<longrightarrow> M_value q \<in> usable w \<longrightarrow> M_value q \<in> usable w1)"
    have t: "ptr M_value (v_ptr ?t) \<in> usable w" "ptr M_value (v_ptr ?t) \<notin> owned KS" "v_ptr ?t \<notin> v_ptr ` set (fi_args i)"
      using v d by (auto simp: info_values_def)
    then obtain q where "v_ptr ?t = Some q" by (cases "v_ptr ?t") auto
    with t w1 have "safe (\<lambda>_ w'. sound bl KS w' \<and> (\<forall>q. v_ptr ?t \<noteq> Some q \<longrightarrow> M_value q \<in> usable w1 \<longrightarrow> M_value q \<in> usable w'))
        (sound bl KS) (Value_Release ?t w1)"
      by (intro safe_Value_Release) auto
    then show "safely (sound bl KS) (Value_Release ?t w1)" by (rule safe_mono) auto
  qed
qed

section \<open>Contexts\<close>

lemma entries_of:
  "world_ok w \<Longrightarrow> mctxs w c = Some mc \<Longrightarrow>
     q \<in> snd ` set (mc_vals mc) \<longleftrightarrow> (\<exists>mv. mvals w q = Some mv \<and> mv_ctx mv = Some c)"
  using retained_entries [of w c mc] by (auto simp: world_ok_def retained_def)

lemma typed_ctx_closed:
  assumes ok: "world_ok w" and c: "gctxs w a = Some c" "c_ptr c = Some p" and mc: "mctxs w p = Some mc"
    and K: "typed K w" "M_ctx p \<notin> K"
  shows "typed K (ctx_closed a c p mc w)" (is "typed K ?w")
proof (rule typed_shrink [OF K(1)])
  fix x y assume x: "x \<in> K" "alive w x"
  note nd = typed_needs [OF K(1) x(1)]
  have other: "x \<noteq> Go_context a" using nd [of "M_ctx p"] K(2) c by auto
  show "alive ?w x"
  proof (cases x)
    case (M_value q)
    have "q \<notin> snd ` set (mc_vals mc)"
      unfolding entries_of [OF ok mc] using nd [of "M_ctx p"] K(2) M_value by auto
    then show ?thesis using x(2) M_value by (auto simp: ctx_closed_def ctx_freed_def restrict_map_def)
  next
    case (M_script q)
    then have "q \<notin> set (mc_unboundScripts mc)" using nd [of "M_ctx p"] K(2) mc by auto
    then show ?thesis using x(2) M_script by (auto simp: ctx_closed_def ctx_freed_def restrict_map_def)
  next
    case (Go_context b)
    then show ?thesis using x(2) other by (auto simp: ctx_closed_def ctx_freed_def)
  qed (use x K(2) in \<open>auto simp: ctx_closed_def ctx_freed_def\<close>)
  assume "needs ?w x y"
  then show "needs w x y" using x other by (cases x) (auto simp: ctx_closed_def ctx_freed_def restrict_map_def c(1) split: if_splits)
qed

lemma safe_Context_Close:
  assumes s: "sound bl KS w" and free: "\<And>c p. gctxs w a = Some c \<Longrightarrow> c_ptr c = Some p \<Longrightarrow> M_ctx p \<notin> owned KS"
  shows "safely (sound bl KS) (Context_Close a w)"
proof (cases "gctxs w a")
  case None
  then show ?thesis using s by (simp add: Context_Close_def with_context_def)
next
  case (Some c)
  have ok: "world_ok w" by (rule sound_world(1) [OF s])
  show ?thesis
  proof (cases "c_ptr c")
    case None
    then show ?thesis using Context_Close_closed [OF ok Some] s by simp
  next
    case p: (Some p)
    obtain mc where mc: "mctxs w p = Some mc" using gctxsD(3) [OF ok Some p] by auto
    have host: "hosted w" using s by (simp add: sound_def)
    then have "isolates_live w p" using mc by (auto simp: hosted_def isolates_live_def)
    note eq = Context_Close_eq [OF ok Some p mc this]
    let ?w = "ctx_closed a c p mc w"
    have "clean bl ?w" using world_ctx_closed [OF ok Some p mc] s by (simp add: clean_def sound_def) (simp add: ctx_closed_def)
    moreover have "hosted ?w"
      using host Some by (auto simp: hosted_def ctx_closed_def ctx_freed_def restrict_map_def split: if_splits)
    moreover have "\<forall>K \<in> KS. typed K ?w"
      using typed_ctx_closed [OF ok Some p mc] s free [OF Some p] not_owned by (auto simp: sound_def)
    ultimately have "sound bl KS ?w" by (simp add: sound_def)
    then show ?thesis by (simp add: eq)
  qed
qed

section \<open>Isolates\<close>

text \<open>
  An isolate may be disposed of when nothing else lives in it: its internal context is its only
  context, its values belong to that context, and no open Go context refers to it. Disposing
  of it again does nothing.
\<close>

definition vacant :: "addr \<Rightarrow> ('e, 'j, 'cb) world \<Rightarrow> bool" where
  "vacant a w \<longleftrightarrow> (\<forall>g p v. gisos w a = Some g \<longrightarrow> i_ptr g = Some p \<longrightarrow> isolates w p = Some v \<longrightarrow>
     (\<forall>c mc. mctxs w c = Some mc \<longrightarrow> mc_iso mc = p \<longrightarrow> slot0 v = Some c) \<and>
     (\<forall>q mv. mvals w q = Some mv \<longrightarrow> mv_iso mv = p \<longrightarrow> mv_ctx mv = slot0 v) \<and>
     (\<forall>b c. gctxs w b = Some c \<longrightarrow> c_ptr c \<noteq> None \<longrightarrow> c_iso c \<noteq> a))"

lemma typed_iso_disposed:
  assumes ok: "world_ok w" and g: "gisos w a = Some g" "i_ptr g = Some p" and c: "mctxs w c = Some mc" "mc_iso mc = p"
    and K: "typed K w" "V8_isolate p \<notin> K"
  shows "typed K (iso_disposed A a g p c mc w)" (is "typed K ?w")
proof (rule typed_shrink [OF K(1)])
  fix x y assume x: "x \<in> K" "alive w x"
  note nd = typed_needs [OF K(1)]
  have "M_ctx c \<notin> K" using nd [of "M_ctx c" "V8_isolate p"] K(2) c by auto
  then have other: "x \<noteq> Go_isolate a" "x \<noteq> V8_isolate p" "x \<noteq> M_ctx c" "\<not> needs w x (M_ctx c)"
    using nd [OF x(1), of "V8_isolate p"] nd [OF x(1), of "M_ctx c"] K(2) x g by auto
  show "alive ?w x"
  proof (cases x)
    case (M_value q)
    then have "q \<notin> snd ` set (mc_vals mc)" unfolding entries_of [OF ok c(1)] using other(4) by auto
    then show ?thesis using x(2) M_value by (auto simp: iso_disposed_def ctx_freed_def restrict_map_def)
  next
    case (M_script q)
    then have "q \<notin> set (mc_unboundScripts mc)" using other(4) c by auto
    then show ?thesis using x(2) M_script by (auto simp: iso_disposed_def ctx_freed_def restrict_map_def)
  qed (use x other in \<open>auto simp: iso_disposed_def ctx_freed_def\<close>)
  assume "needs ?w x y"
  then show "needs w x y" using x other by (cases x) (auto simp: iso_disposed_def ctx_freed_def restrict_map_def split: if_splits)
qed

lemma safe_Isolate_Dispose:
  assumes s: "sound bl KS w" and free: "\<And>g p. gisos w a = Some g \<Longrightarrow> i_ptr g = Some p \<Longrightarrow> V8_isolate p \<notin> owned KS"
    and vacant: "vacant a w"
  shows "safely (sound bl KS) (Isolate_Dispose A a w)"
proof (cases "\<exists>g p. gisos w a = Some g \<and> i_ptr g = Some p")
  case False
  then show ?thesis using s by (auto simp: Isolate_Dispose_def with_isolate_def split: option.splits)
next
  case True
  then obtain g p where g: "gisos w a = Some g" "i_ptr g = Some p" by auto
  have ok: "world_ok w" by (rule sound_world(1) [OF s])
  from gisosD(3) [OF ok g] obtain v where v: "isolates w p = Some v" by auto
  obtain c mc where c: "slot0 v = Some c" "mctxs w c = Some mc" "mc_iso mc = p" using internal_ctx [OF ok v] by metis
  have host: "hosted w" using s by (simp add: sound_def)
  then have "isolates_live w c" using c by (auto simp: hosted_def isolates_live_def)
  note eq = Isolate_Dispose_eq [OF ok g v c(1,2) this]
  let ?w = "iso_disposed A a g p c mc w"
  have "clean bl ?w" using world_iso_disposed [OF ok g v c(1,2)] s by (simp add: clean_def sound_def) (simp add: iso_disposed_def)
  moreover have "hosted ?w"
  proof -
    from vacant g v c(1) have only: "mctxs w b = Some m \<Longrightarrow> mc_iso m = p \<Longrightarrow> c = b"
      "mvals w q = Some mv \<Longrightarrow> mv_iso mv = p \<Longrightarrow> mv_ctx mv = Some c"
      "gctxs w d = Some gc \<Longrightarrow> c_ptr gc \<noteq> None \<Longrightarrow> c_iso gc \<noteq> a" for b m q mv d gc
      unfolding vacant_def by fastforce+
    then have "mvals w q = Some mv \<Longrightarrow> q \<notin> snd ` set (mc_vals mc) \<Longrightarrow> mv_iso mv \<noteq> p" for q mv
      unfolding entries_of [OF ok c(2)] by blast
    with only(1,3) host show ?thesis
      unfolding hosted_def iso_disposed_def ctx_freed_def by (auto simp: restrict_map_def split: if_splits)
  qed
  moreover have "\<forall>K \<in> KS. typed K ?w"
    using typed_iso_disposed [OF ok g c(2,3)] s free [OF g] not_owned by (auto simp: sound_def)
  ultimately have "sound bl KS ?w" by (simp add: sound_def)
  then show ?thesis by (simp add: eq)
qed

section \<open>Templates and profilers\<close>

text \<open>
  The finalizer of a template runs when no Go code has a reference to it, in particular no
  client; the isolate of the template may be gone by then.
\<close>

lemma safe_template_finalizer:
  assumes s: "sound bl KS w" and t: "gtmpls w t = Some tm" "t_ptr tm = Some p" "alive w (M_template p)" "M_template p \<notin> owned KS"
  shows "safely (sound bl KS) (template_finalizer t w)"
proof -
  from t obtain mt where mt: "mtmpls w p = Some mt" by auto
  let ?w = "w\<lparr>mtmpls := (mtmpls w)(p := None), gtmpls := (gtmpls w)(t \<mapsto> tm\<lparr>t_ptr := None\<rparr>)\<rparr>"
  have eq: "template_finalizer t w = Ok () ?w"
    using t mt by (simp add: template_finalizer_def with_template_def C_TemplateFreeWrapper_def c_deref_def)
  have typed: "typed K ?w" if K: "typed K w" "M_template p \<notin> K" for K
  proof (rule typed_shrink [OF K(1)])
    fix x y assume x: "x \<in> K" "alive w x"
    have other: "x \<noteq> Go_template t" using typed_needs [OF K(1) x(1), of "M_template p"] K(2) t by auto
    then show "alive ?w x" using x K(2) by (cases x) auto
    assume "needs ?w x y"
    then show "needs w x y" using x other by (cases x) (auto split: if_splits)
  qed
  have "clean bl ?w"
    using s world_template_finalizer [OF sound_world(1) [OF s], of t] by (simp add: eq clean_def sound_def)
  moreover have "hosted ?w" using s by (simp add: sound_def hosted_def)
  ultimately have "sound bl KS ?w" using s typed t(4) not_owned by (auto simp: sound_def)
  then show ?thesis by (simp add: eq)
qed

lemma safe_CPUProfiler_Dispose:
  fixes w :: "('e, 'j, 'cb) world"
  assumes s: "sound bl KS w"
    and c: "gp_p c \<noteq> None \<Longrightarrow> alive w (ptr C_profiler (gp_p c)) \<and> ptr C_profiler (gp_p c) \<notin> owned KS"
  shows "safely (sound bl KS) (CPUProfiler_Dispose A c w)"
proof (cases "gp_p c")
  case None
  then show ?thesis using s by (simp add: CPUProfiler_Dispose_def)
next
  case (Some p)
  with c obtain pr j where pr: "cprofilers w p = Some pr" "pr_ptr pr = Some j" and free: "C_profiler p \<notin> owned KS" by auto
  let ?w = "w\<lparr>v8 := v8_profiler_dispose A j (v8 w), cprofilers := (cprofilers w)(p := None)\<rparr>"
  have eq: "CPUProfiler_Dispose A c w = Ok (c\<lparr>gp_p := None\<rparr>) ?w"
    using pr Some by (simp add: CPUProfiler_Dispose_def C_CPUProfilerDispose_def tell_def)
  have typed: "typed K ?w" if K: "typed K w" "C_profiler p \<notin> K" for K
  proof (rule typed_shrink [OF K(1)])
    fix x y assume x: "x \<in> K" "alive w x"
    then show "alive ?w x" using K(2) by (cases x) auto
    assume "needs ?w x y"
    then show "needs w x y" using x by (cases x) (auto split: if_splits)
  qed
  have "world_ok ?w" using world_profiles(2) [OF sound_world(1) [OF s], of A c] by (simp add: eq)
  then have "sound bl KS ?w" using s typed free not_owned by (auto simp: sound_def clean_def hosted_def)
  then show ?thesis by (simp add: eq)
qed

end
