(* ===== verification/Api.thy ===== *)
theory Api
  imports Safe_Disposal
begin

text \<open>
  A client of the package: the calls it can make as data, what each of them does, and the
  states a process can be in, as a transition system. A call may return or panic and be
  recovered from; after a crash of the process there is no further state. The arguments of a
  call are arbitrary, so a client may use a closed context, a released value or a stale pointer.
  The two calls that may be in different goroutines at once, creating and closing contexts, are
  treated in their own theory.
\<close>

section \<open>Calls\<close>

datatype isolate_call =
    Call_SetFlags "bytes list" | Call_NewIsolate | Call_TerminateExecution addr
  | Call_IsExecutionTerminating addr | Call_CompileUnboundScript addr bytes bytes CompileOptions
  | Call_GetHeapStatistics addr | Call_Dispose addr | Call_ThrowException addr "Value option"

datatype context_call =
    Call_NewContext "ContextOption list" | Call_RetainedValueCount addr | Call_RunScript addr bytes bytes
  | Call_Global addr | Call_PerformMicrotaskCheckpoint addr | Call_Close addr
  | Call_JSONParse "addr option" bytes | Call_JSONStringify "addr option" "Value option"
  | Call_UnboundRun UnboundScript addr | Call_CreateCodeCache UnboundScript

datatype value_call =
    Call_NewValue "addr option" goval | Call_ArrayIndex Value | Call_BigInt "Value option"
  | Call_Boolean Value | Call_DetailString Value | Call_Int32 Value | Call_Integer Value
  | Call_Number Value | Call_Object Value | Call_String Value | Call_Uint32 Value
  | Call_SameValue Value Value

datatype cast_call =
    Call_Is v8pred Value | Call_AsObject Value | Call_AsPromise Value | Call_AsFunction Value
  | Call_MarshalJSON "Value option" | Call_Release Value

datatype object_call =
    Call_MethodCall Object bytes "Value list" | Call_Set Object bytes goval
  | Call_SetIdx Object "32 word" goval | Call_SetInternalField Object "32 word" goval
  | Call_InternalFieldCount Object | Call_Get Object bytes | Call_GetInternalField Object "32 word"
  | Call_GetIdx Object "32 word" | Call_Has Object bytes | Call_HasIdx Object "32 word"
  | Call_Delete Object bytes | Call_DeleteIdx Object "32 word"

datatype 'cb template_call =
    Call_NewObjectTemplate "addr option" | Call_ObjectTemplateNewInstance addr "addr option"
  | Call_SetInternalFieldCount addr "32 word" | Call_TemplateInternalFieldCount addr
  | Call_NewFunctionTemplate "addr option" "'cb option" | Call_GetFunction addr addr
  | Call_TemplateSet addr bytes goval "PropertyAttribute list" | Call_TemplateFinalizer addr
  | Call_InfoRelease FunctionCallbackInfo

datatype 'cb promise_call =
    Call_NewPromiseResolver "addr option" | Call_GetPromise PromiseResolver
  | Call_Resolve PromiseResolver Value | Call_Reject PromiseResolver Value | Call_State Promise
  | Call_Result Promise | Call_Then Promise "'cb list" | Call_Catch Promise 'cb
  | Call_Call Function Value "Value list" | Call_NewInstance Function "Value list"
  | Call_SourceMapUrl Function

datatype profiler_call =
    Call_NewCPUProfiler addr | Call_ProfilerDispose CPUProfiler | Call_StartProfiling CPUProfiler bytes
  | Call_StopProfiling CPUProfiler bytes | Call_ProfileDelete CPUProfile

datatype 'cb call =
    On_isolate isolate_call
  | On_context context_call
  | On_value value_call
  | On_cast cast_call
  | On_object object_call
  | On_template "'cb template_call"
  | On_promise "'cb promise_call"
  | On_profiler profiler_call

text \<open>
  Of the result of a call only the pointers matter to the client's later calls: \<open>answer f\<close>
  keeps those that \<open>f\<close> finds in it.
\<close>

definition answer :: "('a \<Rightarrow> pointer set) \<Rightarrow> ('a, ('e, 'j, 'cb) world) res \<Rightarrow> (pointer set, ('e, 'j, 'cb) world) res" where
  "answer f m = bindR m (\<lambda>r w. Ok (f r) w)"

definition no_pointers :: "'a \<Rightarrow> pointer set" where
  "no_pointers r = {}"

fun exec_isolate :: "('e, 'j, 'cb) env \<Rightarrow> isolate_call \<Rightarrow> (pointer set, 'e, 'j, 'cb) op" where
  "exec_isolate A (Call_SetFlags fs) w = answer no_pointers (SetFlags A fs w)"
| "exec_isolate A Call_NewIsolate w = answer (\<lambda>a. {Go_isolate a}) (NewIsolate A w)"
| "exec_isolate A (Call_TerminateExecution a) w = answer no_pointers (TerminateExecution A a w)"
| "exec_isolate A (Call_IsExecutionTerminating a) w = answer no_pointers (IsExecutionTerminating A a w)"
| "exec_isolate A (Call_CompileUnboundScript a s g opts) w = answer (\<lambda>r. inr_pointers script_pointers (fst r)) (CompileUnboundScript A a s g opts w)"
| "exec_isolate A (Call_GetHeapStatistics a) w = answer no_pointers (GetHeapStatistics A a w)"
| "exec_isolate A (Call_Dispose a) w = answer no_pointers (Isolate_Dispose A a w)"
| "exec_isolate A (Call_ThrowException a v) w = answer value_pointers (ThrowException A a v w)"

fun exec_context :: "('e, 'j, 'cb) env \<Rightarrow> context_call \<Rightarrow> (pointer set, 'e, 'j, 'cb) op" where
  "exec_context A (Call_NewContext opt) w = answer (\<lambda>a. {Go_context a}) (NewContext A opt w)"
| "exec_context A (Call_RetainedValueCount a) w = answer no_pointers (RetainedValueCount a w)"
| "exec_context A (Call_RunScript a s g) w = answer (inr_pointers value_pointers) (RunScript A a s g w)"
| "exec_context A (Call_Global a) w = answer (value_pointers \<circ> obj_value) (Global A a w)"
| "exec_context A (Call_PerformMicrotaskCheckpoint a) w = answer no_pointers (PerformMicrotaskCheckpoint A a w)"
| "exec_context A (Call_Close a) w = answer no_pointers (Context_Close a w)"
| "exec_context A (Call_JSONParse p s) w = answer (inr_pointers value_pointers) (JSONParse A p s w)"
| "exec_context A (Call_JSONStringify p u) w = answer no_pointers (JSONStringify A p u w)"
| "exec_context A (Call_UnboundRun us a) w = answer (inr_pointers value_pointers) (UnboundScript_Run A us a w)"
| "exec_context A (Call_CreateCodeCache us) w = answer no_pointers (CreateCodeCache A us w)"

fun exec_value :: "('e, 'j, 'cb) env \<Rightarrow> value_call \<Rightarrow> (pointer set, 'e, 'j, 'cb) op" where
  "exec_value A (Call_NewValue p x) w = answer (inr_pointers value_pointers) (NewValue A p x w)"
| "exec_value A (Call_ArrayIndex v) w = answer no_pointers (ArrayIndex A v w)"
| "exec_value A (Call_BigInt u) w = answer no_pointers (BigInt A u w)"
| "exec_value A (Call_Boolean v) w = answer no_pointers (Boolean A v w)"
| "exec_value A (Call_DetailString v) w = answer no_pointers (DetailString A v w)"
| "exec_value A (Call_Int32 v) w = answer no_pointers (Int32 A v w)"
| "exec_value A (Call_Integer v) w = answer no_pointers (Integer A v w)"
| "exec_value A (Call_Number v) w = answer no_pointers (Number A v w)"
| "exec_value A (Call_Object v) w = answer (value_pointers \<circ> obj_value) (Value_Object A v w)"
| "exec_value A (Call_String v) w = answer no_pointers (String A v w)"
| "exec_value A (Call_Uint32 v) w = answer no_pointers (Uint32 A v w)"
| "exec_value A (Call_SameValue v x) w = answer no_pointers (SameValue A v x w)"

fun exec_cast :: "('e, 'j, 'cb) env \<Rightarrow> cast_call \<Rightarrow> (pointer set, 'e, 'j, 'cb) op" where
  "exec_cast A (Call_Is pr v) w = answer no_pointers (value_is A pr v w)"
| "exec_cast A (Call_AsObject v) w = answer (inr_pointers (value_pointers \<circ> obj_value)) (AsObject A v w)"
| "exec_cast A (Call_AsPromise v) w = answer (inr_pointers (value_pointers \<circ> obj_value \<circ> prom_object)) (AsPromise A v w)"
| "exec_cast A (Call_AsFunction v) w = answer (inr_pointers (value_pointers \<circ> fn_value)) (AsFunction A v w)"
| "exec_cast A (Call_MarshalJSON u) w = answer no_pointers (MarshalJSON A u w)"
| "exec_cast A (Call_Release v) w = answer no_pointers (Value_Release v w)"

fun exec_object :: "('e, 'j, 'cb) env \<Rightarrow> object_call \<Rightarrow> (pointer set, 'e, 'j, 'cb) op" where
  "exec_object A (Call_MethodCall ob s vs) w = answer (inr_pointers value_pointers) (MethodCall A ob s vs w)"
| "exec_object A (Call_Set ob s x) w = answer no_pointers (Object_Set A ob s x w)"
| "exec_object A (Call_SetIdx ob n x) w = answer no_pointers (Object_SetIdx A ob n x w)"
| "exec_object A (Call_SetInternalField ob n x) w = answer no_pointers (SetInternalField A ob n x w)"
| "exec_object A (Call_InternalFieldCount ob) w = answer no_pointers (Object_InternalFieldCount A ob w)"
| "exec_object A (Call_Get ob s) w = answer (inr_pointers value_pointers) (Object_Get A ob s w)"
| "exec_object A (Call_GetInternalField ob n) w = answer value_pointers (GetInternalField A ob n w)"
| "exec_object A (Call_GetIdx ob n) w = answer (inr_pointers value_pointers) (Object_GetIdx A ob n w)"
| "exec_object A (Call_Has ob s) w = answer no_pointers (Object_Has A ob s w)"
| "exec_object A (Call_HasIdx ob n) w = answer no_pointers (Object_HasIdx A ob n w)"
| "exec_object A (Call_Delete ob s) w = answer no_pointers (Object_Delete A ob s w)"
| "exec_object A (Call_DeleteIdx ob n) w = answer no_pointers (Object_DeleteIdx A ob n w)"

fun exec_template :: "('e, 'j, 'cb) env \<Rightarrow> 'cb template_call \<Rightarrow> (pointer set, 'e, 'j, 'cb) op" where
  "exec_template A (Call_NewObjectTemplate p) w = answer (\<lambda>t. {Go_template t}) (NewObjectTemplate A p w)"
| "exec_template A (Call_ObjectTemplateNewInstance t p) w = answer (inr_pointers (value_pointers \<circ> obj_value)) (ObjectTemplate_NewInstance A t p w)"
| "exec_template A (Call_SetInternalFieldCount t n) w = answer no_pointers (SetInternalFieldCount A t n w)"
| "exec_template A (Call_TemplateInternalFieldCount t) w = answer no_pointers (ObjectTemplate_InternalFieldCount A t w)"
| "exec_template A (Call_NewFunctionTemplate p cb) w = answer (\<lambda>t. {Go_template t}) (NewFunctionTemplate A p cb w)"
| "exec_template A (Call_GetFunction t a) w = answer (value_pointers \<circ> fn_value) (GetFunction A t a w)"
| "exec_template A (Call_TemplateSet t s x ats) w = answer no_pointers (template_Set A t s x ats w)"
| "exec_template A (Call_TemplateFinalizer t) w = answer no_pointers (template_finalizer t w)"
| "exec_template A (Call_InfoRelease info) w = answer no_pointers (info_Release info w)"

fun exec_promise :: "('e, 'j, 'cb) env \<Rightarrow> 'cb promise_call \<Rightarrow> (pointer set, 'e, 'j, 'cb) op" where
  "exec_promise A (Call_NewPromiseResolver p) w = answer (inr_pointers resolver_pointers) (NewPromiseResolver A p w)"
| "exec_promise A (Call_GetPromise r) w = answer (\<lambda>(r, p). resolver_pointers r \<union> value_pointers (prom_value p)) (GetPromise A r w)"
| "exec_promise A (Call_Resolve r v) w = answer no_pointers (Resolve A r v w)"
| "exec_promise A (Call_Reject r v) w = answer no_pointers (Reject A r v w)"
| "exec_promise A (Call_State pm) w = answer no_pointers (Promise_State A pm w)"
| "exec_promise A (Call_Result pm) w = answer value_pointers (Promise_Result A pm w)"
| "exec_promise A (Call_Then pm cs) w = answer (value_pointers \<circ> prom_value) (Then A pm cs w)"
| "exec_promise A (Call_Catch pm c) w = answer (value_pointers \<circ> prom_value) (Promise_Catch A pm c w)"
| "exec_promise A (Call_Call f v vs) w = answer (inr_pointers value_pointers) (Function_Call A f v vs w)"
| "exec_promise A (Call_NewInstance f vs) w = answer (inr_pointers (value_pointers \<circ> obj_value)) (Function_NewInstance A f vs w)"
| "exec_promise A (Call_SourceMapUrl f) w = answer value_pointers (SourceMapURL A f w)"

fun exec_profiler :: "('e, 'j, 'cb) env \<Rightarrow> profiler_call \<Rightarrow> (pointer set, 'e, 'j, 'cb) op" where
  "exec_profiler A (Call_NewCPUProfiler a) w = answer profiler_pointers (NewCPUProfiler A a w)"
| "exec_profiler A (Call_ProfilerDispose pc) w = answer no_pointers (CPUProfiler_Dispose A pc w)"
| "exec_profiler A (Call_StartProfiling pc s) w = answer no_pointers (StartProfiling A pc s w)"
| "exec_profiler A (Call_StopProfiling pc s) w = answer no_pointers (StopProfiling A pc s w)"
| "exec_profiler A (Call_ProfileDelete pf) w = answer no_pointers (CPUProfile_Delete A pf w)"

fun exec :: "('e, 'j, 'cb) env \<Rightarrow> 'cb call \<Rightarrow> (pointer set, 'e, 'j, 'cb) op" where
  "exec A (On_isolate c) w = exec_isolate A c w"
| "exec A (On_context c) w = exec_context A c w"
| "exec A (On_value c) w = exec_value A c w"
| "exec A (On_cast c) w = exec_cast A c w"
| "exec A (On_object c) w = exec_object A c w"
| "exec A (On_template c) w = exec_template A c w"
| "exec A (On_promise c) w = exec_promise A c w"
| "exec A (On_profiler c) w = exec_profiler A c w"

text \<open>One call of a running client: it returns, or panics and is recovered from.\<close>

inductive go_step :: "('e, 'j, 'cb) env \<Rightarrow> ('e, 'j, 'cb) world \<Rightarrow> ('e, 'j, 'cb) world \<Rightarrow> bool" for A where
  returns: "exec A c w = Ok r w' \<Longrightarrow> go_step A w w'"
| panics: "exec A c w = Fault f w' \<Longrightarrow> recoverable f \<Longrightarrow> go_step A w w'"

inductive_cases go_stepE: "go_step A w w'"

text \<open>A whole client: its calls in order, \<open>None\<close> when one of them ends the process.\<close>

primrec play :: "('e, 'j, 'cb) env \<Rightarrow> 'cb call list \<Rightarrow> ('e, 'j, 'cb) world \<Rightarrow> ('e, 'j, 'cb) world option" where
  "play A [] w = Some w"
| "play A (c # cs) w =
     (case exec A c w of Ok _ w' \<Rightarrow> play A cs w' | Fault f w' \<Rightarrow> if recoverable f then play A cs w' else None)"

lemma play_append: "play A (cs @ ds) w = Option.bind (play A cs w) (play A ds)"
  by (induction cs arbitrary: w) (auto split: res.splits)

lemma go_steps_play: "(go_step A)\<^sup>*\<^sup>* w w' \<longleftrightarrow> (\<exists>cs. play A cs w = Some w')"
proof
  assume "(go_step A)\<^sup>*\<^sup>* w w'"
  then show "\<exists>cs. play A cs w = Some w'"
  proof (induction rule: rtranclp_induct)
    case base
    show ?case by (rule exI [of _ "[]"]) simp
  next
    case (step u v)
    then obtain cs where cs: "play A cs w = Some u" by blast
    from step(2) have "\<exists>c. play A [c] u = Some v"
    proof (rule go_stepE)
      fix c r assume "exec A c u = Ok r v" then show ?thesis by (intro exI [of _ c]) simp
    next
      fix c f assume "exec A c u = Fault f v" "recoverable f" then show ?thesis by (intro exI [of _ c]) simp
    qed
    then obtain c where "play A [c] u = Some v" ..
    with cs show ?case by (intro exI [of _ "cs @ [c]"]) (simp add: play_append)
  qed
next
  have "play A cs w = Some w' \<Longrightarrow> (go_step A)\<^sup>*\<^sup>* w w'" for cs
    by (induction cs arbitrary: w)
       (auto split: res.splits if_splits intro: converse_rtranclp_into_rtranclp go_step.intros)
  then show "\<exists>cs. play A cs w = Some w' \<Longrightarrow> (go_step A)\<^sup>*\<^sup>* w w'" by blast
qed

lemma answer_keeps [holds_intros]: "keeps P m \<Longrightarrow> keeps P (answer f m)"
  unfolding answer_def by (erule keeps_bindR) simp

lemma go_step_keeps:
  assumes "go_step A w w'" "\<And>c. keeps P (exec A c w)"
  shows "P w'"
  using assms(1)
proof (rule go_stepE)
  fix c r assume "exec A c w = Ok r w'" with assms(2) [of c] show ?thesis by simp
next
  fix c f assume "exec A c w = Fault f w'" "recoverable f" with assms(2) [of c] show ?thesis by simp
qed

section \<open>The invariant in every reachable state\<close>

lemma world_reads [world_intros]:
  assumes "world_ok w"
  shows "keeps world_ok (IsExecutionTerminating A a w)" "keeps world_ok (GetHeapStatistics A a w)"
    "keeps world_ok (Object_InternalFieldCount A ob w)"
  unfolding IsExecutionTerminating_def GetHeapStatistics_def C_IsolationGetHeapStatistics_def
    Object_InternalFieldCount_def C_ObjectInternalFieldCount_def
  by (intro holds_intros world_intros assms | assumption)+

lemma world_exec_isolate [world_intros]:
  "bodies_ok (closures A) \<Longrightarrow> world_ok w \<Longrightarrow> keeps world_ok (exec_isolate A c w)"
  by (cases c; simp only: exec_isolate.simps; intro holds_intros world_intros)

lemma world_exec_context [world_intros]:
  "bodies_ok (closures A) \<Longrightarrow> world_ok w \<Longrightarrow> keeps world_ok (exec_context A c w)"
  by (cases c; simp only: exec_context.simps; intro holds_intros world_intros)

lemma world_exec_value [world_intros]:
  "bodies_ok (closures A) \<Longrightarrow> world_ok w \<Longrightarrow> keeps world_ok (exec_value A c w)"
  by (cases c; simp only: exec_value.simps; intro holds_intros world_intros)

lemma world_exec_cast [world_intros]:
  "bodies_ok (closures A) \<Longrightarrow> world_ok w \<Longrightarrow> keeps world_ok (exec_cast A c w)"
  by (cases c; simp only: exec_cast.simps; intro holds_intros world_intros)

lemma world_exec_object [world_intros]:
  "bodies_ok (closures A) \<Longrightarrow> world_ok w \<Longrightarrow> keeps world_ok (exec_object A c w)"
  by (cases c; simp only: exec_object.simps; intro holds_intros world_intros)

lemma world_exec_template [world_intros]:
  "bodies_ok (closures A) \<Longrightarrow> world_ok w \<Longrightarrow> keeps world_ok (exec_template A c w)"
  by (cases c; simp only: exec_template.simps; intro holds_intros world_intros)

lemma world_exec_promise [world_intros]:
  "bodies_ok (closures A) \<Longrightarrow> world_ok w \<Longrightarrow> keeps world_ok (exec_promise A c w)"
  by (cases c; simp only: exec_promise.simps; intro holds_intros world_intros)

lemma world_exec_profiler [world_intros]:
  "bodies_ok (closures A) \<Longrightarrow> world_ok w \<Longrightarrow> keeps world_ok (exec_profiler A c w)"
  by (cases c; simp only: exec_profiler.simps; intro holds_intros world_intros)

lemma world_exec:
  "bodies_ok (closures A) \<Longrightarrow> world_ok w \<Longrightarrow> keeps world_ok (exec A c w)"
  by (cases c; simp only: exec.simps; intro world_intros)

text \<open>The closures the client has registered keep the invariant themselves.\<close>

definition client_inv :: "('e, 'j, 'cb) env \<Rightarrow> ('e, 'j, 'cb) world \<Rightarrow> bool" where
  "client_inv A w \<longleftrightarrow> (bodies_ok (closures A) \<longrightarrow> world_ok w)"

interpretation client: invariant_system "\<lambda>w. w \<in> range init_world" "go_step A" "client_inv A" for A
  by unfold_locales (auto simp: client_inv_def init_world_ok intro: go_step_keeps world_exec)

section \<open>No block is leaked by a sequence of calls\<close>

text \<open>The calls that pass a block on: the title of a stopped profile.\<close>

fun hands_over :: "'cb call \<Rightarrow> bool" where
  "hands_over (On_profiler (Call_StopProfiling _ _)) = True"
| "hands_over (On_profiler (Call_ProfileDelete _)) = True"
| "hands_over _ = False"

lemma clean_exec_isolate [clean_intros]:
  "bodies_clean (closures A) \<Longrightarrow> clean bl w \<Longrightarrow> keeps (clean bl) (exec_isolate A c w)"
  by (cases c; simp only: exec_isolate.simps; intro holds_intros clean_intros)

lemma clean_exec_context [clean_intros]:
  "bodies_clean (closures A) \<Longrightarrow> clean bl w \<Longrightarrow> keeps (clean bl) (exec_context A c w)"
  by (cases c; simp only: exec_context.simps; intro holds_intros clean_intros)

lemma clean_exec_value [clean_intros]:
  "bodies_clean (closures A) \<Longrightarrow> clean bl w \<Longrightarrow> keeps (clean bl) (exec_value A c w)"
  by (cases c; simp only: exec_value.simps; intro holds_intros clean_intros)

lemma clean_exec_cast [clean_intros]:
  "bodies_clean (closures A) \<Longrightarrow> clean bl w \<Longrightarrow> keeps (clean bl) (exec_cast A c w)"
  by (cases c; simp only: exec_cast.simps; intro holds_intros clean_intros)

lemma clean_exec_object [clean_intros]:
  "bodies_clean (closures A) \<Longrightarrow> clean bl w \<Longrightarrow> keeps (clean bl) (exec_object A c w)"
  by (cases c; simp only: exec_object.simps; intro holds_intros clean_intros)

lemma clean_exec_template [clean_intros]:
  "bodies_clean (closures A) \<Longrightarrow> clean bl w \<Longrightarrow> keeps (clean bl) (exec_template A c w)"
  by (cases c; simp only: exec_template.simps; intro holds_intros clean_intros)

lemma clean_exec_promise [clean_intros]:
  "bodies_clean (closures A) \<Longrightarrow> clean bl w \<Longrightarrow> keeps (clean bl) (exec_promise A c w)"
  by (cases c; simp only: exec_promise.simps; intro holds_intros clean_intros)

lemma clean_exec:
  "bodies_clean (closures A) \<Longrightarrow> \<not> hands_over c \<Longrightarrow> clean bl w \<Longrightarrow> keeps (clean bl) (exec A c w)"
proof (cases c)
  case (On_profiler d)
  then show "\<not> hands_over c \<Longrightarrow> clean bl w \<Longrightarrow> keeps (clean bl) (exec A c w)"
    by (cases d) (auto simp only: exec.simps exec_profiler.simps hands_over.simps intro!: holds_intros clean_intros)
qed (simp only: exec.simps; intro clean_intros)+

lemma clean_play:
  "bodies_clean (closures A) \<Longrightarrow> \<forall>c \<in> set cs. \<not> hands_over c \<Longrightarrow> clean bl w \<Longrightarrow> play A cs w = Some w' \<Longrightarrow> clean bl w'"
proof (induction cs arbitrary: w)
  case (Cons c cs)
  have "keeps (clean bl) (exec A c w)" using Cons.prems by (intro clean_exec) auto
  then show ?case using Cons by (auto split: res.splits if_splits)
qed simp

end
