(* ===== verification/Calls.thy ===== *)
theory Calls
  imports Api
begin

text \<open>
  One proof for all calls. Many facts about the package have the form that every call of the API
  keeps a property of the state. The locale \<open>call_logic\<close> asks for what matters: that the property
  depends only on the isolates, the C++ contexts and the structs of stopped profiles, and that it is
  kept by the few operations that change the isolates and contexts and by the closures of the
  client. It gives that every call but stopping and deleting a profile keeps the property; the
  extension \<open>owner_logic\<close> is for properties that do not look at profiles at all, which every call
  keeps.
\<close>

section \<open>The contract\<close>

definition same_core :: "('e, 'j, 'cb) world \<Rightarrow> ('e, 'j, 'cb) world \<Rightarrow> bool" where
  "same_core w w' \<longleftrightarrow> isolates w' = isolates w \<and> mctxs w' = mctxs w \<and> cprofiles w' = cprofiles w \<and> cnodes w' = cnodes w"

named_theorems call_intros \<open>operations that keep a property of the state\<close>

lemmas [call_intros] = clean_scopes clean_structs

locale call_logic =
  fixes A :: "('e, 'j, 'cb) env"
    and P :: "('e, 'j, 'cb) world \<Rightarrow> bool"
  assumes P_ok: "P w \<Longrightarrow> world_ok w"
    and P_same: "P w \<Longrightarrow> world_ok w' \<Longrightarrow> same_core w w' \<Longrightarrow> P w'"
    and bodies: "P w \<Longrightarrow> keeps P (closures A cb info w)"
    and new_value: "P w \<Longrightarrow> keeps P (new_value i ctx j w)"
    and release: "P w \<Longrightarrow> keeps P (Value_Release v w)"
    and new_script: "P w \<Longrightarrow> isolates w i = Some u \<Longrightarrow> slot0 u = Some c \<Longrightarrow> keeps P (new_unbound_script c j w)"
    and new_isolate: "P w \<Longrightarrow> keeps P (bindR (C_NewIsolate A w) (\<lambda>i w. new_Isolate_struct i w))"
    and new_context: "P w \<Longrightarrow> keeps P (open_context A a t w)"
    and close: "P w \<Longrightarrow> keeps P (Context_Close a w)"
    and dispose: "P w \<Longrightarrow> keeps P (Isolate_Dispose A a w)"
begin

lemmas [call_intros] = new_value release new_context close dispose

lemma P_v8 [simp]: "P w \<Longrightarrow> P (w\<lparr>v8 := e\<rparr>)" "P w \<Longrightarrow> P (w\<lparr>v8once := b\<rparr>)"
  using P_ok [of w] by (auto intro: P_same simp: same_core_def)

lemma P_quiet:
  assumes "P w" "keeps world_ok m" "keeps (same_core w) m"
  shows "keeps P m"
  using assms by (cases m) (auto intro: P_same)

section \<open>Building blocks\<close>

lemma call_v8 [call_intros]:
  "P w \<Longrightarrow> keeps P (ask f w)" "P w \<Longrightarrow> keeps P (tell g w)"
  by (auto simp: ask_def tell_def case_prod_beta Let_def)

lemma call_results [call_intros]:
  "keeps P m1 \<Longrightarrow> keeps P (checked m1)" "keeps P m2 \<Longrightarrow> keeps P (or_panic m2)"
  "keeps P m3 \<Longrightarrow> keeps P (plain_value m3)"
  unfolding checked_def or_panic_def plain_value_def by (auto elim!: keeps_bindR split: option.splits sum.splits)

lemma call_memory [call_intros]:
  assumes "P w"
  shows "keeps P (go_new w)" "keeps P (c_new w)" "keeps P (malloc b w)"
    "keeps P (cfree p w)" "keeps P (CString s w)" "keeps P (GoString p w)"
    "keeps P (GoStringN p n w)" "keeps P (get_handle p w)" "keeps P (goContext ref w)"
  by (intro P_quiet [OF assms] world_intros P_ok [OF assms];
      auto simp: same_core_def go_new_def c_new_def malloc_def cfree_def CString_def GoString_def GoStringN_def get_handle_def goContext_def
        split: option.splits block.splits)+

lemma call_utf8_arg [call_intros]: "P w \<Longrightarrow> keeps P (utf8_arg A i p w)"
  unfolding utf8_arg_def by (intro holds_intros call_intros | simp)+

lemma call_defer_free [call_intros]: "keeps P m \<Longrightarrow> keeps P (defer_free p m)"
proof (cases m)
  case (Ok a w)
  assume "keeps P m"
  with Ok show ?thesis by (auto intro: keeps_bindR call_memory)
next
  case (Fault f w)
  assume "keeps P m"
  with Fault show ?thesis by (auto intro!: keeps_bindR call_memory)
qed

lemma call_withCString [call_intros]:
  assumes "P w" "\<And>p w. P w \<Longrightarrow> keeps P (body p w)"
  shows "keeps P (withCString s body w)"
  unfolding withCString_def using assms by (intro keeps_bindR call_intros)

lemma call_new_values [call_intros]: "P w \<Longrightarrow> keeps P (new_values i c js w)"
  by (induction js arbitrary: w) (auto intro!: keeps_bindR new_value)

lemma call_callback: "P w \<Longrightarrow> keeps P (FunctionTemplateCallback (closures A) isop cr cbr this args w)"
proof -
  assume w: "P w"
  have go: "keeps P (goFunctionCallback (closures A) cr cbr ps n w)" if "P w" for ps n w
    unfolding goFunctionCallback_def by (intro holds_intros bodies that | assumption)+
  show ?thesis
    unfolding FunctionTemplateCallback_def using w
    by (intro holds_intros call_memory call_new_values go) (auto split: option.splits)
qed

lemma call_run_js: "P w \<Longrightarrow> keeps P (run_js (closures A) i t w)"
proof (induction t arbitrary: w)
  case (CallGo e cr cbr this args k)
  have "P (w\<lparr>v8 := e\<rparr>)" using CallGo.prems by simp
  from call_callback [OF this] show ?case
    using CallGo.IH [OF rangeI rangeI] by (auto intro!: keeps_bindR)
qed simp

lemma call_run [call_intros]: "P w \<Longrightarrow> keeps P (run A i t w)"
  unfolding run_def by (rule call_run_js)

lemma call_copies [call_intros]:
  assumes "P w"
  shows "keeps P (CopyString s w)" "keeps P (CopyUtf8 s w)"
  unfolding CopyUtf8_def CopyString_def by (intro holds_intros call_intros assms | simp)+

lemma call_errors [call_intros]:
  assumes "P w"
  shows "keeps P (ExceptionError x w)" "keeps P (newJSError r w)"
    "keeps P (valueResult c rtn w)" "keeps P (objectResult c rtn w)"
  unfolding ExceptionError_def newJSError_def valueResult_def objectResult_def
  by (intro holds_intros call_intros assms | assumption)+

lemma call_give_value [call_intros]: "P w \<Longrightarrow> keeps P (give_value i c j w)"
  unfolding give_value_def by (intro holds_intros call_intros | assumption)+

lemma call_rtn [call_intros]:
  assumes "P w"
  shows "keeps P (raised A i w)" "keeps P (fail_value A i w)" "keeps P (rtn_of A i c r w)"
  unfolding rtn_of_def fail_value_def raised_def
  by (intro holds_intros call_intros assms | assumption)+

section \<open>Values, functions and objects\<close>

lemma call_new_primitive [call_intros]: "P w \<Longrightarrow> keeps P (C_new_primitive f p w)"
  unfolding C_new_primitive_def by (intro holds_intros call_intros | assumption)+

lemma call_new_primitives [call_intros]:
  assumes "P w"
  shows "keeps P (C_NewValueString A p v n w)"
    "keeps P (C_NewValueBigIntFromWords A p s n ws w)"
  unfolding C_NewValueString_def C_NewValueBigIntFromWords_def
  by (intro holds_intros call_intros assms | assumption)+

lemma call_NewValue_BigInt [call_intros]:
  "P w \<Longrightarrow> keeps P (NewValue_BigInt A p v w)"
  unfolding NewValue_BigInt_def C_primitive_defs by (intro holds_intros call_intros | assumption)+

lemma call_NewValue [call_intros]:
  "P w \<Longrightarrow> keeps P (NewValue A p v w)"
  unfolding NewValue_def C_primitive_defs by (intro holds_intros call_intros | assumption)+

lemma call_conversions [call_intros]:
  assumes "P w"
  shows "keeps P (Boolean A v w)" "keeps P (Int32 A v w)" "keeps P (Integer A v w)"
    "keeps P (Number A v w)" "keeps P (Uint32 A v w)" "keeps P (String A v w)"
    "keeps P (DetailString A v w)" "keeps P (Value_Object A v w)" "keeps P (SameValue A v u w)"
    "keeps P (ArrayIndex A v w)" "keeps P (BigInt A x w)"
  unfolding Boolean_def C_ValueToBoolean_def Int32_def C_ValueToInt32_def Integer_def C_ValueToInteger_def
    Number_def C_ValueToNumber_def Uint32_def C_ValueToUint32_def String_def C_ValueToString_def
    DetailString_def C_ValueToDetailString_def Value_Object_def C_ValueToObject_def
    SameValue_def C_ValueSameValue_def ArrayIndex_def C_ValueToArrayIndex_def BigInt_def C_ValueToBigInt_def
  by (intro holds_intros call_intros assms | assumption | simp)+

lemma call_value_is [call_intros]: "P w \<Longrightarrow> keeps P (value_is A pr v w)"
  unfolding value_is_def C_ValueIs_def by (intro holds_intros call_intros | assumption)+

lemma call_casts [call_intros]:
  assumes "P w"
  shows "keeps P (IsObject A v w)" "keeps P (IsExternal A v w)" "keeps P (AsObject A v w)"
    "keeps P (AsPromise A v w)" "keeps P (AsFunction A v w)"
  unfolding AsObject_def AsPromise_def AsFunction_def IsObject_def IsExternal_def IsPromise_def IsFunction_def
  by (intro holds_intros call_intros assms | assumption)+

lemma call_get_handles [call_intros]: "P w \<Longrightarrow> keeps P (get_handles ps w)"
  by (induction ps arbitrary: w) (auto intro!: keeps_bindR call_memory)

lemma call_buildCallArguments [call_intros]: "P w \<Longrightarrow> keeps P (buildCallArguments n ps w)"
  unfolding buildCallArguments_def by (intro holds_intros call_intros | simp)+

lemma call_calls [call_intros]:
  assumes "P w"
  shows "keeps P (Function_Call A fn v args w)" "keeps P (Function_NewInstance A fn args w)"
    "keeps P (SourceMapURL A fn w)"
  unfolding Function_Call_def C_FunctionCall_def Function_NewInstance_def C_FunctionNewInstance_def
    SourceMapURL_def C_FunctionSourceMapUrl_def
  by (intro holds_intros call_intros assms | assumption)+

lemma call_object_reads [call_intros]:
  assumes "P w"
  shows "keeps P (object_iso ob w)" "keeps P (value_ptr vo w)"
    "keeps P (Object_InternalFieldCount A ob w)"
  unfolding object_iso_def value_ptr_def Object_InternalFieldCount_def C_ObjectInternalFieldCount_def
  by (intro holds_intros call_intros assms | assumption)+

lemma call_object_parts [call_intros]:
  assumes "P w"
  shows "keeps P (coerceValue A i val w)" "keeps P (C_ObjectGet A p key w)"
  unfolding coerceValue_def C_ObjectGet_def by (intro holds_intros call_intros assms | assumption)+

lemma call_index_panic [call_intros]:
  "P w \<Longrightarrow> keeps P (index_panic A ob idx w)"
  unfolding index_panic_def by (intro holds_intros call_intros | assumption)+

lemma call_objects [call_intros]:
  assumes "P w"
  shows "keeps P (MethodCall A ob key args w)" "keeps P (Object_Get A ob key w)"
    "keeps P (Object_GetIdx A ob idx w)" "keeps P (Object_Has A ob key w)"
    "keeps P (Object_HasIdx A ob idx w)" "keeps P (Object_Delete A ob key w)"
    "keeps P (Object_DeleteIdx A ob idx w)" "keeps P (Object_Set A ob key val w)"
    "keeps P (Object_SetIdx A ob idx val w)" "keeps P (SetInternalField A ob idx val w)"
    "keeps P (GetInternalField A ob idx w)"
  unfolding MethodCall_def Let_def Object_Get_def Object_GetIdx_def C_ObjectGetIdx_def
    Object_Has_def C_ObjectHas_def Object_HasIdx_def C_ObjectHasIdx_def Object_Delete_def C_ObjectDelete_def
    Object_DeleteIdx_def C_ObjectDeleteIdx_def Object_Set_def C_ObjectSet_def Object_SetIdx_def C_ObjectSetIdx_def
    SetInternalField_def C_ObjectSetInternalField_def GetInternalField_def C_ObjectGetInternalField_def
  by (intro holds_intros call_intros assms | assumption)+

section \<open>Templates, promises, JSON\<close>

lemma call_records [call_intros]:
  assumes "P w"
  shows "keeps P (new_m_template i j w)" "keeps P (new_template t w)"
    "keeps P (Isolate_registerCallback a cb w)" "keeps P (template_finalizer x w)"
  by (intro P_quiet [OF assms] world_intros P_ok [OF assms]; auto simp: same_core_def new_m_template_def new_template_def
      Isolate_registerCallback_def with_isolate_def template_finalizer_def with_template_def C_TemplateFreeWrapper_def
      c_new_def go_new_def Let_def case_prod_beta split: option.splits)+

lemma call_C_templates [call_intros]:
  assumes "P w"
  shows "keeps P (NewObjectTemplate A i w)" "keeps P (NewFunctionTemplate A i cb w)"
    "keeps P (C_TemplateSetValue A p name val at w)" "keeps P (C_TemplateSetTemplate A p name val at w)"
  unfolding NewObjectTemplate_def C_NewObjectTemplate_def NewFunctionTemplate_def C_NewFunctionTemplate_def
    C_TemplateSetValue_def C_TemplateSetTemplate_def
  by (intro holds_intros call_intros assms | assumption)+

lemma call_template_Set [call_intros]:
  assumes "P w"
  shows "keeps P (template_Set A t name val attributes w)"
  unfolding template_Set_def Let_def
  by (rule call_withCString [OF assms])
     (cases val; simp add: is_primitive_def; (intro holds_intros call_intros assms | assumption)+)

lemma call_instances [call_intros]:
  assumes "P w"
  shows "keeps P (ObjectTemplate_NewInstance A t c w)" "keeps P (SetInternalFieldCount A t n w)"
    "keeps P (ObjectTemplate_InternalFieldCount A t w)" "keeps P (GetFunction A t ctx w)"
  unfolding ObjectTemplate_NewInstance_def C_ObjectTemplateNewInstance_def SetInternalFieldCount_def
    C_ObjectTemplateSetInternalFieldCount_def ObjectTemplate_InternalFieldCount_def
    C_ObjectTemplateInternalFieldCount_def GetFunction_def C_FunctionTemplateGetFunction_def
  by (intro holds_intros call_intros assms | assumption)+

lemma call_release_all: "P w \<Longrightarrow> keeps P (release_all vs w)"
  by (induction vs arbitrary: w) (auto intro!: keeps_bindR release)

lemma call_info_Release [call_intros]: "P w \<Longrightarrow> keeps P (info_Release i w)"
  unfolding info_Release_def by (intro holds_intros call_release_all call_intros | assumption)+

lemma call_promises [call_intros]:
  assumes "P w"
  shows "keeps P (NewPromiseResolver A ctx w)" "keeps P (GetPromise A r w)"
    "keeps P (Resolve A r val w)" "keeps P (Reject A r val w)"
    "keeps P (Promise_State A p w)" "keeps P (Promise_Result A p w)"
  unfolding NewPromiseResolver_def C_NewPromiseResolver_def GetPromise_def C_PromiseResolverGetPromise_def
    Resolve_def C_PromiseResolverResolve_def Reject_def C_PromiseResolverReject_def
    Promise_State_def C_PromiseState_def Promise_Result_def C_PromiseResult_def
  by (intro holds_intros call_intros assms | assumption)+

lemma call_chaining [call_intros]:
  assumes "P w"
  shows "keeps P (Then A p cs w)" "keeps P (Promise_Catch A p cb w)"
  unfolding Then_def Promise_Catch_def promise_of_def C_PromiseThen_def C_PromiseThen2_def C_PromiseCatch_def
  by (intro holds_intros call_intros assms | assumption)+

lemma call_JSON [call_intros]:
  assumes "P w"
  shows "keeps P (JSONParse A ctx str w)" "keeps P (JSONStringify A ctx val w)"
    "keeps P (MarshalJSON A val w)"
  unfolding JSONParse_def C_JSONParse_def MarshalJSON_def JSONStringify_def C_JSONStringify_def
  by (intro holds_intros call_intros assms | assumption)+

section \<open>Isolates and contexts\<close>

lemma call_C_init [call_intros]:
  "P w \<Longrightarrow> keeps P (C_SetFlags A p w)" "P w \<Longrightarrow> keeps P (C_Init A w)"
  by (auto simp: C_SetFlags_def C_Init_def split: option.splits)

lemma call_init [call_intros]:
  assumes "P w"
  shows "keeps P (SetFlags A flags w)" "keeps P (initializeIfNecessary A w)"
  unfolding SetFlags_def initializeIfNecessary_def using assms
  by (intro holds_intros call_intros | simp)+

lemma call_write_iso:
  "P w \<Longrightarrow> P (write_iso a (i_null_update f) w)" "P w \<Longrightarrow> P (write_iso a (i_undefined_update f) w)"
  using world_write_iso [of w "i_null_update f" a] world_write_iso [of w "i_undefined_update f" a] P_ok [of w]
  by (auto intro: P_same simp: write_iso_def same_core_def)

lemma call_NewIsolate [call_intros]: "P w \<Longrightarrow> keeps P (NewIsolate A w)"
proof -
  assume w: "P w"
  have eq: "NewIsolate A w = bindR (initializeIfNecessary A w) (\<lambda>_ w.
     bindR (bindR (C_NewIsolate A w) (\<lambda>i w. new_Isolate_struct i w)) (\<lambda>a w. set_constants A a w))"
    by (simp add: NewIsolate_def bindR_assoc)
  show ?thesis
    unfolding eq set_constants_def newValueNull_def newValueUndefined_def C_NewValueNull_def C_NewValueUndefined_def
    by (intro holds_intros call_intros new_isolate call_write_iso w | assumption)+
qed

lemma call_isolate_reads [call_intros]:
  assumes "P w"
  shows "keeps P (TerminateExecution A a w)" "keeps P (IsExecutionTerminating A a w)"
    "keeps P (GetHeapStatistics A a w)" "keeps P (ThrowException A a v w)"
  unfolding TerminateExecution_def IsExecutionTerminating_def GetHeapStatistics_def C_IsolationGetHeapStatistics_def
    ThrowException_def C_IsolateThrowException_def
  using assms by (intro holds_intros call_intros | simp)+

lemma call_contexts [call_intros]:
  assumes "P w"
  shows "keeps P (RunScript A a source origin w)" "keeps P (Global A a w)"
    "keeps P (PerformMicrotaskCheckpoint A a w)" "keeps P (UnboundScript_Run A us a w)"
  unfolding RunScript_def C_RunScript_def Global_def C_ContextGlobal_def PerformMicrotaskCheckpoint_def
    UnboundScript_Run_def C_UnboundScriptRun_def Context_Isolate_def
  by (intro holds_intros call_intros assms | assumption)+

lemma call_context_ends [call_intros]:
  assumes "P w"
  shows "keeps P (NewContext A opt w)" "keeps P (RetainedValueCount a w)"
    "keeps P (CreateCodeCache A us w)"
  unfolding NewContext_def RetainedValueCount_def C_ContextRetainedValueCount_def
    CreateCodeCache_def C_UnboundScriptCreateCodeCache_def C_ScriptCompilerCachedDataDelete_def
  by (intro holds_intros call_intros assms | assumption)+

section \<open>Unbound scripts\<close>

text \<open>Asking V8 for a string leaves the isolates as they are, so the internal context is still there.\<close>

lemma rests_v8:
  assumes "P w \<and> isolates w = I"
  shows "holds (\<lambda>_ w'. P w' \<and> isolates w' = I) P (ask f w)"
    "holds (\<lambda>_ w'. P w' \<and> isolates w' = I) P (checked (utf8_arg A i p w))"
  using assms by (auto simp: ask_def case_prod_beta Let_def checked_def utf8_arg_def split: option.splits)

lemma call_C_compile [call_intros]:
  assumes w: "P w"
  shows "keeps P (C_IsolateCompileUnboundScript A p s g data opt w)"
proof -
  let ?I = "isolates w"
  have fail: "keeps P (bindR (raised A i w1) (\<lambda>e w. Ok (h e) w))" if "P w1 \<and> isolates w1 = ?I" for i h w1
    using that by (intro keeps_bindR call_rtn) simp_all
  have give: "keeps P (bindR (new_unbound_script c j w1) (\<lambda>us w. Ok (h us) w))"
    if "P w1 \<and> isolates w1 = ?I" "?I i = Some v \<and> slot0 v = Some c" for i v c j h w1
    using that by (intro keeps_bindR new_script [of w1 i v]) simp_all
  have here: "?I i = Some v \<and> slot0 v = Some c"
    if "c_deref ?I p = Some y" "y = (i, v)" "c_deref (mctxs w) (slot0 v) = Some z" "z = (c, mc)" for y i v z c mc
    using that by (auto simp: c_deref_def split: option.splits)
  have rest: "P w \<and> isolates w = ?I" using w by simp
  show ?thesis
    unfolding C_IsolateCompileUnboundScript_def internal_scope_def
    by (intro holds_bindR [OF rests_v8(1)] holds_bindR [OF rests_v8(2)] fail give holds_option holds_prod holds_prod_app
        keeps_Fault w | rule here | assumption | rule rest)+
qed

lemma call_CompileUnboundScript [call_intros]:
  assumes "P w"
  shows "keeps P (CompileUnboundScript A a source origin opts w)"
  unfolding CompileUnboundScript_def by (intro holds_intros call_intros assms | assumption)+

section \<open>The profiler\<close>

lemma call_profiler [call_intros]:
  assumes "P w"
  shows "keeps P (NewCPUProfiler A a w)" "keeps P (CPUProfiler_Dispose A c w)" "keeps P (StartProfiling A c t w)"
proof -
  have new: "keeps P (new_cprofiler pr w)" if "P w" for pr w
    by (rule P_quiet [OF that world_new_structs(2) [OF P_ok [OF that]]]) (auto simp: new_cprofiler_def c_new_def same_core_def)
  have drop: "P (w\<lparr>cprofilers := (cprofilers w)(p := None)\<rparr>)" if "P w" for p w
    using that P_ok [OF that] by (auto intro!: P_same [of w] world_drop simp: same_core_def)
  show "keeps P (NewCPUProfiler A a w)" "keeps P (CPUProfiler_Dispose A c w)" "keeps P (StartProfiling A c t w)"
    unfolding NewCPUProfiler_def C_NewCPUProfiler_def CPUProfiler_Dispose_def C_CPUProfilerDispose_def
      StartProfiling_def C_CPUProfilerStartProfiling_def profiler_guard_def
    by (intro holds_intros call_intros assms new drop | assumption)+
qed

section \<open>Every call\<close>

lemma call_exec_isolate [call_intros]: "P w \<Longrightarrow> keeps P (exec_isolate A c w)"
  by (cases c; simp only: exec_isolate.simps; intro holds_intros call_intros)

lemma call_exec_context [call_intros]: "P w \<Longrightarrow> keeps P (exec_context A c w)"
  by (cases c; simp only: exec_context.simps; intro holds_intros call_intros)

lemma call_exec_value [call_intros]: "P w \<Longrightarrow> keeps P (exec_value A c w)"
  by (cases c; simp only: exec_value.simps; intro holds_intros call_intros)

lemma call_exec_cast [call_intros]: "P w \<Longrightarrow> keeps P (exec_cast A c w)"
  by (cases c; simp only: exec_cast.simps; intro holds_intros call_intros)

lemma call_exec_object [call_intros]: "P w \<Longrightarrow> keeps P (exec_object A c w)"
  by (cases c; simp only: exec_object.simps; intro holds_intros call_intros)

lemma call_exec_template [call_intros]: "P w \<Longrightarrow> keeps P (exec_template A c w)"
  by (cases c; simp only: exec_template.simps; intro holds_intros call_intros)

lemma call_exec_promise [call_intros]: "P w \<Longrightarrow> keeps P (exec_promise A c w)"
  by (cases c; simp only: exec_promise.simps; intro holds_intros call_intros)

lemma call_exec_profiler [call_intros]: "P w \<Longrightarrow> \<not> hands_over (On_profiler c) \<Longrightarrow> keeps P (exec_profiler A c w)"
  by (cases c; simp only: exec_profiler.simps hands_over.simps; intro holds_intros call_intros) simp_all

lemma exec_keeps: "P w \<Longrightarrow> \<not> hands_over c \<Longrightarrow> keeps P (exec A c w)"
  by (cases c; simp only: exec.simps; intro call_intros)

end

section \<open>Properties of isolates and contexts only\<close>

text \<open>The recursions over profile nodes leave isolates and contexts alone.\<close>

definition owners_are :: "(addr \<Rightarrow> v8_isolate option) \<Rightarrow> (addr \<Rightarrow> 'j m_ctx option) \<Rightarrow> ('e, 'j, 'cb) world \<Rightarrow> bool" where
  "owners_are I C w \<longleftrightarrow> isolates w = I \<and> mctxs w = C"

lemma owners_C_nodes:
  "owners_are I C w \<Longrightarrow> keeps (owners_are I C) (C_NewCPUProfileNode t w)"
  "owners_are I C w \<Longrightarrow> keeps (owners_are I C) (C_NewCPUProfileNodes ts w)"
  by (induction t w and ts w rule: C_NewCPUProfileNode_C_NewCPUProfileNodes.induct)
     (auto intro!: keeps_bindR_eq simp: new_cnode_def c_new_def owners_are_def)

lemma owners_node_delete:
  "owners_are I C w \<Longrightarrow> keeps (owners_are I C) (C_CPUProfileNodeDelete k a w)"
  "owners_are I C w \<Longrightarrow> keeps (owners_are I C) (C_CPUProfileNodesDelete k as w)"
  by (induction k a w and k as w rule: C_CPUProfileNodeDelete_C_CPUProfileNodesDelete.induct)
     (auto intro!: keeps_bindR_eq simp: owners_are_def split: option.splits)

lemma owners_go_nodes:
  "owners_are I C w \<Longrightarrow> keeps (owners_are I C) (newCPUProfileNode k a parent w)"
  "owners_are I C w \<Longrightarrow> keeps (owners_are I C) (newCPUProfileNodes k as parent w)"
  by (induction k a parent w and k as parent w rule: newCPUProfileNode_newCPUProfileNodes.induct)
     (auto intro!: keeps_bindR_eq simp: go_new_def Let_def owners_are_def split: option.splits)

locale owner_logic = call_logic A P
  for A :: "('e, 'j, 'cb) env" and P :: "('e, 'j, 'cb) world \<Rightarrow> bool" +
  assumes P_owners: "P w \<Longrightarrow> world_ok w' \<Longrightarrow> owners_are (isolates w) (mctxs w) w' \<Longrightarrow> P w'"
begin

lemma P_owners_keep:
  assumes "P w" "keeps world_ok m" "keeps (owners_are (isolates w) (mctxs w)) m"
  shows "keeps P m"
  using assms by (cases m) (auto intro: P_owners)

lemma owner_nodes:
  assumes "P w"
  shows "keeps P (C_NewCPUProfileNode t w)" "keeps P (C_CPUProfileNodeDelete k a w)"
    "keeps P (newCPUProfileNode k a parent w)" "keeps P (new_cprofile cp w)"
proof -
  have here: "owners_are (isolates w) (mctxs w) w" by (simp add: owners_are_def)
  note ok = P_ok [OF assms]
  show "keeps P (C_NewCPUProfileNode t w)" "keeps P (C_CPUProfileNodeDelete k a w)" "keeps P (newCPUProfileNode k a parent w)"
    by (intro P_owners_keep [OF assms] world_intros ok owners_C_nodes owners_node_delete owners_go_nodes here)+
  show "keeps P (new_cprofile cp w)"
    by (rule P_owners_keep [OF assms world_new_structs(1) [OF ok]]) (auto simp: new_cprofile_def c_new_def owners_are_def)
qed

lemma owner_profiles:
  assumes "P w"
  shows "keeps P (StopProfiling A c t w)" "keeps P (CPUProfile_Delete A pf w)"
proof -
  have drop: "P (w\<lparr>cprofiles := (cprofiles w)(p := None)\<rparr>)" if "P w" for p w
    using that P_ok [OF that] by (auto intro!: P_owners [of w] world_drop simp: owners_are_def)
  show "keeps P (StopProfiling A c t w)" "keeps P (CPUProfile_Delete A pf w)"
    unfolding StopProfiling_def C_CPUProfilerStopProfiling_def profiler_guard_def go_profile_def
      CPUProfile_Delete_def C_CPUProfileDelete_def
    by (intro holds_intros call_intros owner_nodes assms drop | assumption)+
qed

lemma all_calls_keep: "P w \<Longrightarrow> keeps P (exec A c w)"
proof (cases "hands_over c")
  case True
  assume "P w"
  with True show ?thesis
    by (cases c rule: hands_over.cases) (auto simp only: exec.simps exec_profiler.simps hands_over.simps intro!: holds_intros owner_profiles)
qed (rule exec_keeps)

end

end
