(* ===== verification/Safe_Profiles.thy ===== *)
theory Safe_Profiles
  imports Calls
begin

text \<open>
  Stopped profiles in the C heap. A profile that was stopped and not yet deleted owns its struct, the
  nodes of its call tree and its title; different profiles own different memory. The theory has this
  invariant, that no other call of the API touches it, and that stopping and deleting a profile are
  safe and keep it.
\<close>

section \<open>The memory of profiles\<close>

text \<open>
  The profile at \<open>pf\<close> with the call tree \<open>t\<close>: the nodes lie before the struct, the title, if there is
  one, before the nodes.
\<close>

definition profile_at :: "(addr \<Rightarrow> 'j CPUProfileNode_c option) \<Rightarrow> (addr \<Rightarrow> block option) \<Rightarrow> addr \<Rightarrow> 'j CPUProfile_c \<Rightarrow> 'j v8_node \<Rightarrow> bool" where
  "profile_at N B pf cp t \<longleftrightarrow> cp_ptr cp \<noteq> None \<and> nodes t \<le> pf \<and> cp_root cp = pf - 1 \<and> c_tree N (pf - nodes t) t \<and>
     (\<forall>a. cp_title cp = Some a \<longrightarrow> Suc a = pf - nodes t \<and> B a \<noteq> None)"

definition lowest :: "addr \<Rightarrow> 'j CPUProfile_c \<Rightarrow> 'j v8_node \<Rightarrow> addr" where
  "lowest pf cp t = (case cp_title cp of None \<Rightarrow> pf - nodes t | Some a \<Rightarrow> a)"

definition laid_out ::
    "(addr \<Rightarrow> 'j v8_node) \<Rightarrow> (addr \<Rightarrow> 'j CPUProfile_c option) \<Rightarrow> (addr \<Rightarrow> 'j CPUProfileNode_c option) \<Rightarrow> (addr \<Rightarrow> block option) \<Rightarrow> bool" where
  "laid_out T P N B \<longleftrightarrow> (\<forall>pf cp. P pf = Some cp \<longrightarrow> profile_at N B pf cp (T pf)) \<and>
     (\<forall>q pf cp. P q \<noteq> None \<longrightarrow> P pf = Some cp \<longrightarrow> q < pf \<longrightarrow> q < lowest pf cp (T pf))"

definition profiles_ok :: "('e, 'j, 'cb) world \<Rightarrow> bool" where
  "profiles_ok w \<longleftrightarrow> (\<exists>T. laid_out T (cprofiles w) (cnodes w) (blocks w))"

lemma profiles_ok_init: "profiles_ok (init_world e)"
  by (simp add: profiles_ok_def laid_out_def init_world_def)

lemma profiles_ok_cong:
  "cprofiles w' = cprofiles w \<Longrightarrow> cnodes w' = cnodes w \<Longrightarrow> blocks w' = blocks w \<Longrightarrow> profiles_ok w' = profiles_ok w"
  by (simp add: profiles_ok_def)

lemma lowest_le:
  assumes "profile_at N B pf cp t"
  shows "lowest pf cp t \<le> pf - nodes t \<and> pf - nodes t < pf"
proof -
  have "nodes t \<le> pf" using assms by (simp add: profile_at_def)
  then have "pf - nodes t < pf" using nodes_pos [of t] by linarith
  moreover have "lowest pf cp t \<le> pf - nodes t" using assms by (auto simp: profile_at_def lowest_def split: option.splits)
  ultimately show ?thesis by simp
qed

lemma profile_at_cong:
  assumes at: "profile_at N B pf cp t"
    and N: "\<And>a. pf - nodes t \<le> a \<Longrightarrow> a < pf \<Longrightarrow> N' a = N a" and B: "\<And>a. cp_title cp = Some a \<Longrightarrow> B' a = B a"
  shows "profile_at N' B' pf cp t"
proof -
  have "c_tree N' (pf - nodes t) t"
    using at N c_tree_cong(1) [of "pf - nodes t" t N' N] by (simp add: profile_at_def)
  then show ?thesis using at B by (simp add: profile_at_def)
qed

text \<open>A new profile above all that was there, and the deletion of one.\<close>

lemma laid_out_add:
  assumes ok: "laid_out T P N B" and old: "\<And>q. P q \<noteq> None \<Longrightarrow> q < m"
    and new: "profile_at N' B' pf cp t" "m \<le> lowest pf cp t"
    and same: "\<And>a. a < m \<Longrightarrow> N' a = N a" "\<And>a. a < m \<Longrightarrow> B' a = B a"
  shows "laid_out (T(pf := t)) (P(pf \<mapsto> cp)) N' B'"
proof -
  have m: "m < pf" using new(2) lowest_le [OF new(1)] by linarith
  have "profile_at N' B' q c (T q)" if q: "P q = Some c" "q \<noteq> pf" for q c
  proof (rule profile_at_cong)
    show at: "profile_at N B q c (T q)" using ok q by (auto simp: laid_out_def)
    have "q < m" using old q by simp
    then show "N' a = N a" if "q - nodes (T q) \<le> a" "a < q" for a using same(1) [of a] that by simp
    show "B' a = B a" if "cp_title c = Some a" for a
      using same(2) [of a] at that \<open>q < m\<close> by (auto simp: profile_at_def)
  qed
  moreover have "q < lowest p c ((T(pf := t)) p)" if "(P(pf \<mapsto> cp)) q \<noteq> None" "(P(pf \<mapsto> cp)) p = Some c" "q < p" for q p c
    using that ok old [of q] old [of p] new(2) m by (auto simp: laid_out_def split: if_splits)
  ultimately show ?thesis using new(1) unfolding laid_out_def by auto
qed

lemma laid_out_remove:
  assumes ok: "laid_out T P N B" and pf: "P pf = Some cp"
  shows "laid_out T (P(pf := None)) (without {pf - nodes (T pf)..<pf} N) (case cp_title cp of None \<Rightarrow> B | Some a \<Rightarrow> B(a := None))"
    (is "laid_out T ?P ?N ?B")
proof -
  have at: "profile_at N B pf cp (T pf)" using ok pf by (auto simp: laid_out_def)
  have "profile_at ?N ?B q c (T q)" if q: "P q = Some c" "q \<noteq> pf" for q c
  proof (rule profile_at_cong)
    show q': "profile_at N B q c (T q)" using ok q by (auto simp: laid_out_def)
    have apart: "q < lowest pf cp (T pf) \<or> pf < lowest q c (T q)"
      using ok pf q unfolding laid_out_def by (metis linorder_neqE_nat option.distinct(1))
    show "?N a = N a" if "q - nodes (T q) \<le> a" "a < q" for a
      using apart that lowest_le [OF at] lowest_le [OF q'] by (auto simp: restrict_map_def)
    show "?B a = B a" if "cp_title c = Some a" for a
      using apart that lowest_le [OF at] lowest_le [OF q'] q' by (auto simp: lowest_def profile_at_def split: option.splits)
  qed
  then show ?thesis using ok unfolding laid_out_def by auto
qed

section \<open>The calls that spare profiles\<close>

definition profiles_are ::
    "(addr \<Rightarrow> 'j CPUProfile_c option) \<Rightarrow> (addr \<Rightarrow> 'j CPUProfileNode_c option) \<Rightarrow> ('e, 'j, 'cb) world \<Rightarrow> bool" where
  "profiles_are P N w \<longleftrightarrow> world_ok w \<and> cprofiles w = P \<and> cnodes w = N"

text \<open>Closures that stop and delete no profile.\<close>

definition bodies_spare_profiles :: "('e, 'j, 'cb) bodies \<Rightarrow> bool" where
  "bodies_spare_profiles B \<longleftrightarrow> (\<forall>cb info P N w. profiles_are P N w \<longrightarrow> keeps (profiles_are P N) (B cb info w))"

definition same_profiles :: "('e, 'j, 'cb) world \<Rightarrow> ('e, 'j, 'cb) world \<Rightarrow> bool" where
  "same_profiles w w' \<longleftrightarrow> cprofiles w' = cprofiles w \<and> cnodes w' = cnodes w"

lemma profiles_spared:
  assumes "profiles_are P N w" "keeps world_ok m" "keeps (same_profiles w) m"
  shows "keeps (profiles_are P N) m"
  using assms by (cases m) (auto simp: profiles_are_def same_profiles_def)

lemma profiles_world: "profiles_are P N w \<Longrightarrow> world_ok w"
  by (simp add: profiles_are_def)

lemma same_C_ContextFree: "same_profiles w0 w \<Longrightarrow> keeps (same_profiles w0) (C_ContextFree ctx w)"
proof (cases "C_ContextFree ctx w")
  case (Ok u w')
  assume same: "same_profiles w0 w"
  show ?thesis
  proof (cases ctx)
    case None
    with Ok same show ?thesis by (simp add: C_ContextFree_def)
  next
    case (Some c)
    with Ok have "C_ContextFree (Some c) w = Ok u w'" by simp
    from C_ContextFree_Ok [OF this] obtain mc where "w' = ctx_freed c mc w" .
    with Ok same show ?thesis by (simp add: same_profiles_def ctx_freed_def)
  qed
qed (auto dest: C_ContextFree_Fault)

lemma spare_values:
  assumes "profiles_are P N w"
  shows "keeps (profiles_are P N) (new_value i c j w)" "keeps (profiles_are P N) (Value_Release v w)"
    "keeps (profiles_are P N) (new_unbound_script s j w)"
  by (intro profiles_spared [OF assms] world_intros profiles_world [OF assms];
      auto simp: same_profiles_def new_value_def c_new_def tracked_value_def track_def Let_def c_deref_def
        Value_Release_def C_ValueRelease_def new_unbound_script_def tracked_unbound_script_def split: option.splits)+

lemma spare_lifecycle:
  assumes "profiles_are P N w"
  shows "keeps (profiles_are P N) (bindR (C_NewIsolate A w) (\<lambda>i w. new_Isolate_struct i w))"
    "keeps (profiles_are P N) (open_context A a t w)"
    "keeps (profiles_are P N) (Context_Close a w)" "keeps (profiles_are P N) (Isolate_Dispose A a w)"
proof -
  note ok = profiles_world [OF assms]
  show "keeps (profiles_are P N) (bindR (C_NewIsolate A w) (\<lambda>i w. new_Isolate_struct i w))"
    by (rule profiles_spared [OF assms new_struct_spec [OF ok]])
       (auto simp: same_profiles_def C_NewIsolate_def new_Isolate_struct_def c_new_def go_new_def Let_def case_prod_beta)
  show "keeps (profiles_are P N) (open_context A a t w)"
    by (rule profiles_spared [OF assms world_open_context [OF ok]])
       (auto simp: same_profiles_def open_context_def C_NewContext_def isolate_scope_def ask_def with_isolate_def with_template_def
         go_new_def c_new_def Let_def case_prod_beta split: option.splits)
  have "keeps (same_profiles w) (Context_Close a w)"
    unfolding Context_Close_def with_context_def
    by (intro holds_intros same_C_ContextFree | simp add: same_profiles_def)+
  then show "keeps (profiles_are P N) (Context_Close a w)" by (rule profiles_spared [OF assms world_Context_Close [OF ok]])
  have "keeps (same_profiles w) (Isolate_Dispose A a w)"
    unfolding Isolate_Dispose_def with_isolate_def C_IsolateDispose_def
    by (intro holds_intros same_C_ContextFree | simp add: same_profiles_def)+
  then show "keeps (profiles_are P N) (Isolate_Dispose A a w)" by (rule profiles_spared [OF assms world_Isolate_Dispose [OF ok]])
qed

lemma profiles_same: "profiles_are P N w \<Longrightarrow> world_ok w' \<Longrightarrow> same_core w w' \<Longrightarrow> profiles_are P N w'"
  by (simp add: profiles_are_def same_core_def)

interpretation sparing: call_logic A "\<lambda>w. bodies_spare_profiles (closures A) \<and> profiles_are P N w" for A P N
  by unfold_locales
     (auto simp: bodies_spare_profiles_def intro: profiles_world profiles_same intro!: spare_values spare_lifecycle)

section \<open>Stopping a profile\<close>

text \<open>All the fields on which it depends what a client may use.\<close>

definition same_handles :: "('e, 'j, 'cb) world \<Rightarrow> ('e, 'j, 'cb) world \<Rightarrow> bool" where
  "same_handles w w' \<longleftrightarrow> isolates w' = isolates w \<and> mctxs w' = mctxs w \<and> mvals w' = mvals w \<and> mtmpls w' = mtmpls w \<and>
     mscripts w' = mscripts w \<and> cprofilers w' = cprofilers w \<and> gisos w' = gisos w \<and> gctxs w' = gctxs w \<and> gtmpls w' = gtmpls w"

lemma same_handles_typing:
  fixes w :: "('e, 'j, 'cb) world"
  assumes "same_handles w w'"
  shows "usable w' = usable w" "hosted w' = hosted w"
proof -
  have "alive w' x = alive w x" "needs w' x y = needs w x y" for x y
    using assms by (cases x; simp add: same_handles_def)+
  then show "usable w' = usable w" by (simp add: usable_def typed_def)
  show "hosted w' = hosted w" using assms by (simp add: hosted_def same_handles_def)
qed

definition settled :: "('e, 'j, 'cb) world \<Rightarrow> ('e, 'j, 'cb) world \<Rightarrow> bool" where
  "settled w w' \<longleftrightarrow> same_handles w w' \<and> profiles_ok w'"

text \<open>A string for the call, seen from the state in which it is freed again.\<close>

lemma safe_withCString:
  assumes "brk w < mem_limit \<Longrightarrow> safely (\<lambda>w'. blocks w' (brk w) \<noteq> None \<and> Q (w'\<lparr>blocks := (blocks w')(brk w := None)\<rparr>))
      (body (brk w) (w\<lparr>brk := Suc (brk w), blocks := (blocks w)(brk w \<mapsto> Chars (s @ [NUL]))\<rparr>))" (is "_ \<Longrightarrow> safely ?Q ?m")
  shows "safely Q (withCString s body w)"
proof (cases "brk w < mem_limit")
  case True
  have free: "cfree (Some (brk w)) w' = Ok () (w'\<lparr>blocks := (blocks w')(brk w := None)\<rparr>)" if "?Q w'" for w'
    using that by (auto simp: cfree_def)
  have "safely Q (defer_free (Some (brk w)) m)" if m: "safely ?Q m" for m
    using m free by (cases m) auto
  then show ?thesis using True assms by (simp add: withCString_def CString_def malloc_def c_new_def)
qed (simp add: withCString_def CString_def malloc_def c_new_def)

text \<open>Copying the nodes to Go: it can run out of memory and panic, and changes only the Go nodes.\<close>

definition go_grown :: "('e, 'j, 'cb) world \<Rightarrow> ('e, 'j, 'cb) world \<Rightarrow> bool" where
  "go_grown w w' \<longleftrightarrow> w' = w\<lparr>gbrk := gbrk w', gnodes := gnodes w'\<rparr>"

lemma go_grown_refl: "go_grown w w"
  by (simp add: go_grown_def)

lemma go_grown_upd: "go_grown w w' \<Longrightarrow> go_grown w (w'\<lparr>gnodes := g\<rparr>)" "go_grown (w\<lparr>gbrk := n, gnodes := g\<rparr>) w' \<Longrightarrow> go_grown w w'"
  by (cases w; cases w'; simp add: go_grown_def)+

lemma go_grown_trans: "go_grown w w1 \<Longrightarrow> go_grown w1 w2 \<Longrightarrow> go_grown w w2"
  by (cases w; cases w1; cases w2; simp add: go_grown_def)

lemma go_grown_cnodes: "go_grown w w' \<Longrightarrow> cnodes w' = cnodes w"
  by (cases w; cases w'; simp add: go_grown_def)

lemma safe_newCPUProfileNode:
  "c_tree (cnodes w) lo t \<Longrightarrow> nodes t \<le> k \<Longrightarrow> safely (go_grown w) (newCPUProfileNode k (lo + nodes t - 1) parent w)"
  "c_forest (cnodes w) lo ts \<Longrightarrow> forest_nodes ts \<le> k \<Longrightarrow> safely (go_grown w) (newCPUProfileNodes k (c_roots lo ts) parent w)"
proof (induction t and ts arbitrary: w lo k parent and w lo k parent rule: nodes_forest_nodes.induct)
  case (1 ptr nid sid resource fname line column hits bailout kids)
  let ?t = "V8Node ptr nid sid resource fname line column hits bailout kids"
  let ?cn = "c_node_of ?t (c_roots lo kids)"
  let ?w = "w\<lparr>gbrk := Suc (gbrk w), gnodes := (gnodes w)(gbrk w \<mapsto> go_node_of ?cn parent)\<rparr>"
  from "1.prems"(2) obtain k' where k: "k = Suc k'" "forest_nodes kids \<le> k'" by (cases k) auto
  have cn: "cnodes w (lo + forest_nodes kids) = Some ?cn" "c_forest (cnodes ?w) lo kids" using "1.prems"(1) by simp_all
  have "safely (go_grown w) (newCPUProfileNodes k' (c_roots lo kids) (Some (gbrk w)) ?w)"
    by (rule safe_mono [OF "1.IH" [OF cn(2) k(2)]]) (rule go_grown_upd, assumption)+
  then have "safely (go_grown w) (bindR (newCPUProfileNodes k' (c_roots lo kids) (Some (gbrk w)) ?w) (\<lambda>ns w.
      Ok (gbrk w0) (w\<lparr>gnodes := (gnodes w)(gbrk w0 := map_option (n_children_update (\<lambda>_. ns)) (gnodes w (gbrk w0)))\<rparr>)))" for w0 :: "('b, 'a, 'c) world"
    by (rule safely_bind) (simp add: go_grown_upd(1))
  moreover have "go_grown w ?w" by (rule go_grown_upd(2)) (rule go_grown_refl)
  ultimately show ?case using k cn(1) by (auto simp: go_new_def Let_def c_node_of_def intro!: safe_Fault)
next
  case 2
  then show ?case by (simp add: go_grown_refl)
next
  case (3 t ts)
  show ?case
    unfolding newCPUProfileNodes.simps c_roots.simps
  proof (rule safe_bind [OF "3.IH"(1)])
    fix n and w1 :: "('b, 'a, 'c) world" assume w1: "go_grown w w1"
    with "3.prems" have "safely (go_grown w1) (newCPUProfileNodes k (c_roots (lo + nodes t) ts) parent w1)"
      by (intro "3.IH"(2)) (simp_all add: go_grown_cnodes)
    then have "safely (go_grown w) (newCPUProfileNodes k (c_roots (lo + nodes t) ts) parent w1)"
      by (rule safe_mono) (rule go_grown_trans [OF w1], assumption)+
    then show "safely (go_grown w) (bindR (newCPUProfileNodes k (c_roots (lo + nodes t) ts) parent w1) (\<lambda>ns w. Ok (n # ns) w))"
      by (rule safely_bind) simp
  qed (use "3.prems" in auto)
qed

lemma go_grown_profiles:
  assumes "go_grown w w'"
  shows "same_handles w w'" "blocks w' = blocks w" "profiles_ok (w'\<lparr>blocks := B\<rparr>) = profiles_ok (w\<lparr>blocks := B\<rparr>)"
  using assms by (cases w; cases w'; simp add: go_grown_def same_handles_def profiles_ok_def)+

lemma safe_go_profile:
  assumes cp: "cprofiles w pf = Some (c_profile vp ttl lo)" and ttl: "GoString ttl w = Ok s w"
    and t: "c_tree (cnodes w) lo (vp_root vp)" "nodes (vp_root vp) \<le> brk w"
  shows "safely (go_grown w) (go_profile (Some pf) w)"
proof -
  have "safely (go_grown w) (newCPUProfileNode (brk w) (lo + nodes (vp_root vp) - 1) None w)"
    by (rule safe_newCPUProfileNode(1) [OF t])
  then show ?thesis unfolding go_profile_def using cp ttl by (simp add: c_profile_def) (erule safely_bind, simp)
qed

text \<open>
  What the profiler asks of the title: when V8 makes a string of it, there is a running profile of
  that name.
\<close>

definition is_running :: "('e, 'j, 'cb) env \<Rightarrow> ('e, 'j, 'cb) world \<Rightarrow> CPUProfiler \<Rightarrow> bytes \<Rightarrow> bool" where
  "is_running A w c title \<longleftrightarrow>
     (case gp_p c of None \<Rightarrow> True
      | Some p \<Rightarrow> (case cprofilers w p of None \<Rightarrow> True
         | Some pr \<Rightarrow> (case (pr_iso pr, pr_ptr pr) of
              (Some i, Some j) \<Rightarrow> (case v8_new_utf8 A i (c_str title) (v8 w) of
                  (e, Some t) \<Rightarrow> snd (v8_profiler_stop A j t e) \<noteq> None
                | _ \<Rightarrow> True)
            | _ \<Rightarrow> True)))"

text \<open>The new profile lies above all others, whose memory is left alone.\<close>

lemma new_profile_settled:
  assumes w: "world_ok w" "profiles_ok w"
    and new: "Suc (brk w) \<le> lo" "c_tree h lo (vp_root vp)" "\<forall>a. a < lo \<or> lo + nodes (vp_root vp) \<le> a \<longrightarrow> h a = cnodes w a"
    and ttl: "ttl = None \<and> bl = blocks w \<or> ttl = Some (Suc (brk w)) \<and> lo = Suc (Suc (brk w)) \<and> bl = (blocks w)(Suc (brk w) \<mapsto> x)"
  shows "profiles_ok (w\<lparr>cprofiles := (cprofiles w)(lo + nodes (vp_root vp) \<mapsto> c_profile vp ttl lo), cnodes := h, blocks := bl\<rparr>)"
proof -
  let ?t = "vp_root vp" and ?pf = "lo + nodes (vp_root vp)"
  from w(2) obtain T where T: "laid_out T (cprofiles w) (cnodes w) (blocks w)" by (auto simp: profiles_ok_def)
  have "laid_out (T(?pf := ?t)) ((cprofiles w)(?pf \<mapsto> c_profile vp ttl lo)) h bl"
  proof (rule laid_out_add [OF T])
    show "q < Suc (brk w)" if "cprofiles w q \<noteq> None" for q using that C_live(2) [OF w(1)] by fastforce
    show "profile_at h bl ?pf (c_profile vp ttl lo) ?t"
      using new(2) ttl by (auto simp: profile_at_def c_profile_def)
    show "Suc (brk w) \<le> lowest ?pf (c_profile vp ttl lo) ?t" using new(1) ttl by (auto simp: lowest_def c_profile_def)
    show "h a = cnodes w a" "bl a = blocks w a" if "a < Suc (brk w)" for a using that new(1,3) ttl by auto
  qed
  then show ?thesis by (auto simp: profiles_ok_def)
qed

definition stop_post :: "('e, 'j, 'cb) world \<Rightarrow> ('e, 'j, 'cb) world \<Rightarrow> bool" where
  "stop_post w w' \<longleftrightarrow> blocks w' (brk w) \<noteq> None \<and> settled w (w'\<lparr>blocks := (blocks w')(brk w := None)\<rparr>)"

lemma stop_post_grown: "stop_post w w1 \<Longrightarrow> go_grown w1 w2 \<Longrightarrow> stop_post w w2"
  using go_grown_profiles [of w1 w2] by (simp add: stop_post_def settled_def same_handles_def)

lemma safe_stop_body:
  fixes w :: "('e, 'j, 'cb) world"
  assumes w: "world_ok w" "profiles_ok w" "brk w < mem_limit"
    and pr: "cprofilers w p = Some pr" "pr_ptr pr = Some j" "\<And>i. pr_iso pr = Some i \<Longrightarrow> isolates w i \<noteq> None"
    and run: "\<And>i e t. pr_iso pr = Some i \<Longrightarrow> v8_new_utf8 A i (c_str title) (v8 w) = (e, Some t) \<Longrightarrow> snd (v8_profiler_stop A j t e) \<noteq> None"
  defines "w1 \<equiv> w\<lparr>brk := Suc (brk w), blocks := (blocks w)(brk w \<mapsto> Chars (title @ [NUL]))\<rparr>"
  shows "safely (stop_post w) (bindR (C_CPUProfilerStopProfiling A p (brk w) w1) (\<lambda>profile w. go_profile profile w))"
proof (cases "pr_iso pr")
  case None
  have "blocks w (brk w) = None" using w(1) by (simp add: world_ok_def heap_ok_def fresh_ok_def)
  then have "stop_post w w1" using w(2) by (simp add: stop_post_def settled_def same_handles_def w1_def profiles_ok_def fun_upd_idem)
  with None pr(1) show ?thesis by (simp add: C_CPUProfilerStopProfiling_def go_profile_def w1_def)
next
  case (Some i)
  obtain e1 r where utf8: "v8_new_utf8 A i (c_str title) (v8 w) = (e1, r)" by (cases "v8_new_utf8 A i (c_str title) (v8 w)")
  have here: "cprofilers w1 p = Some pr" "isolates w1 i \<noteq> None" "read_cstr (brk w) w1 = Some (c_str title)"
    "v8_new_utf8 A i (c_str title) (v8 w1) = (e1, r)"
    using pr Some utf8 by (simp_all add: w1_def)
  show ?thesis
  proof (cases r)
    case None
    with here Some show ?thesis
      by (auto simp: C_CPUProfilerStopProfiling_def isolate_scope_def utf8_arg_def ask_def checked_def)
  next
    case r: (Some ts)
    with run [OF Some] utf8 obtain e2 vp where stop: "v8_profiler_stop A j ts e1 = (e2, Some vp)"
      by (cases "v8_profiler_stop A j ts e1") fastforce
    let ?t = "vp_root vp"
    note facts = here(1) Some pr(2) here(2-4) [unfolded r] stop
    show ?thesis
    proof (cases "brk w1 + nodes ?t + (if vp_title vp = [] then 1 else 2) \<le> mem_limit")
      case False
      moreover have "brk w1 \<le> mem_limit" using w(3) by (simp add: w1_def)
      ultimately show ?thesis using C_Stop_full [OF facts] by auto
    next
      case True
      from C_Stop [OF facts True] obtain pf ttl lo bl h where C:
        "C_CPUProfilerStopProfiling A p (brk w) w1 = Ok (Some pf) (w1\<lparr>v8 := e2, brk := Suc pf, blocks := bl, cnodes := h,
           cprofiles := (cprofiles w1)(pf \<mapsto> c_profile vp ttl lo)\<rparr>)" (is "_ = Ok _ ?w2")
        and pf: "pf = lo + nodes ?t" "brk w1 \<le> lo" and h: "c_tree h lo ?t" "\<forall>a. a < lo \<or> pf \<le> a \<longrightarrow> h a = cnodes w1 a"
        and ttl: "vp_title vp = [] \<and> ttl = None \<and> bl = blocks w1 \<or>
          ttl = Some (brk w1) \<and> lo = Suc (brk w1) \<and> bl = (blocks w1)(brk w1 \<mapsto> Chars (vp_title vp @ [NUL]))" .
      have free: "blocks w (brk w) = None" using w(1) by (simp add: world_ok_def heap_ok_def fresh_ok_def)
      have "ttl = None \<and> bl(brk w := None) = blocks w \<or> ttl = Some (Suc (brk w)) \<and> lo = Suc (Suc (brk w)) \<and>
          bl(brk w := None) = (blocks w)(Suc (brk w) \<mapsto> Chars (vp_title vp @ [NUL]))"
        using ttl free by (auto simp: w1_def fun_eq_iff)
      note new_profile_settled [OF w(1,2) _ h(1) _ this]
      then have "profiles_ok (w\<lparr>cprofiles := (cprofiles w)(pf \<mapsto> c_profile vp ttl lo), cnodes := h, blocks := bl(brk w := None)\<rparr>)"
        using pf h(2) by (simp add: w1_def)
      moreover have "bl (brk w) \<noteq> None" using ttl by (auto simp: w1_def)
      ultimately have "stop_post w ?w2" by (simp add: stop_post_def settled_def same_handles_def w1_def profiles_ok_def)
      moreover have "GoString ttl ?w2 = Ok (c_str (vp_title vp)) ?w2" using ttl by (auto simp: GoString_def read_cstr_def)
      then have "safely (go_grown ?w2) (go_profile (Some pf) ?w2)"
        by (intro safe_go_profile) (use h(1) pf in auto)
      ultimately have "safely (stop_post w) (go_profile (Some pf) ?w2)"
        by (elim safe_mono) (auto intro: stop_post_grown)
      then show ?thesis by (simp add: C)
    qed
  qed
qed

lemma safe_StopProfiling:
  assumes w: "world_ok w" "profiles_ok w" and use: "profiler_pointers c \<subseteq> usable w" and run: "is_running A w c title"
  shows "safely (settled w) (StopProfiling A c title w)"
proof -
  from use have c: "ptr C_profiler (gp_p c) \<in> usable w" "Go_isolate (gp_iso c) \<in> usable w" by (simp_all add: profiler_pointers_def)
  obtain p where p: "gp_p c = Some p" using c(1) by (cases "gp_p c") auto
  obtain pr j where pr: "cprofilers w p = Some pr" "pr_ptr pr = Some j"
    using typed_alive [OF typed_usable c(1)] by (auto simp: p)
  have iso: "isolates w i \<noteq> None" if "pr_iso pr = Some i" for i
    using typed_alive [OF typed_usable typed_needs [OF typed_usable c(1), of "V8_isolate i"]] that by (simp add: p pr)
  have stop: "safely (settled w) (withCString title (\<lambda>tstr w. bindR (C_CPUProfilerStopProfiling A p tstr w) (\<lambda>profile w. go_profile profile w)) w)"
    by (rule safe_withCString, unfold stop_post_def [symmetric], rule safe_stop_body [OF w _ pr iso])
       (use run in \<open>auto simp: is_running_def p pr split: prod.splits option.splits\<close>)
  show ?thesis
    unfolding StopProfiling_def profiler_guard_def with_isolate_def
    using stop typed_alive [OF typed_usable c(2)] by (auto simp: p)
qed

section \<open>Deleting a profile\<close>

lemma safe_CPUProfile_Delete:
  assumes w: "world_ok w" "profiles_ok w" and live: "\<And>p. pf_p pf = Some p \<Longrightarrow> cprofiles w p \<noteq> None"
  shows "safely (settled w) (CPUProfile_Delete A pf w)"
proof (cases "pf_p pf")
  case None
  then show ?thesis using w(2) by (simp add: CPUProfile_Delete_def settled_def same_handles_def)
next
  case (Some p)
  from live [OF Some] obtain cp where cp: "cprofiles w p = Some cp" by auto
  from w(2) obtain T where T: "laid_out T (cprofiles w) (cnodes w) (blocks w)" by (auto simp: profiles_ok_def)
  let ?t = "T p" and ?lo = "p - nodes (T p)"
  have at: "profile_at (cnodes w) (blocks w) p cp ?t" using T cp by (auto simp: laid_out_def)
  then obtain j where j: "cp_ptr cp = Some j" by (auto simp: profile_at_def)
  have lo: "?lo + nodes ?t = p" using at by (simp add: profile_at_def)
  have "nodes ?t \<le> brk w" using C_live(2) [OF w(1) cp] lo by linarith
  moreover have "cp_root cp = ?lo + nodes ?t - 1" "c_tree (cnodes w) ?lo ?t" "\<And>a. cp_title cp = Some a \<Longrightarrow> blocks w a \<noteq> None"
    using at lo by (simp_all add: profile_at_def)
  ultimately have "C_CPUProfileDelete A p w = Ok () (w\<lparr>v8 := v8_profile_delete A j (v8 w),
     blocks := (case cp_title cp of None \<Rightarrow> blocks w | Some a \<Rightarrow> (blocks w)(a := None)),
     cnodes := without {?lo..<?lo + nodes ?t} (cnodes w), cprofiles := (cprofiles w)(p := None)\<rparr>)"
    using C_CPUProfileDelete_Ok [OF cp j] by blast
  moreover have "profiles_ok (w\<lparr>v8 := v8_profile_delete A j (v8 w),
     blocks := (case cp_title cp of None \<Rightarrow> blocks w | Some a \<Rightarrow> (blocks w)(a := None)),
     cnodes := without {?lo..<?lo + nodes ?t} (cnodes w), cprofiles := (cprofiles w)(p := None)\<rparr>)"
    using laid_out_remove [OF T cp] lo by (auto simp: profiles_ok_def)
  ultimately show ?thesis by (simp add: CPUProfile_Delete_def Some settled_def same_handles_def)
qed

end
