(* ===== verification/Soundness.thy ===== *)
theory Soundness
  imports Safe_Profiles
begin

text \<open>
  Type soundness of the client interface. A call is given pointers, returns pointers and may
  free some; a client that uses only pointers it was given, and none that depends on something
  it has freed, never makes the package touch freed memory. The theory has what each call uses,
  what it frees and what else it asks of its arguments, the soundness of one call, and the
  clients that keep to the discipline as a transition system.
\<close>

section \<open>What a call uses\<close>

definition values_pointers :: "Value list \<Rightarrow> pointer set" where
  "values_pointers vs = \<Union> (value_pointers ` set vs)"

definition handle :: "Value \<Rightarrow> pointer" where
  "handle v = ptr M_value (v_ptr v)"

fun isolate_uses :: "isolate_call \<Rightarrow> pointer set" where
  "isolate_uses (Call_SetFlags _) = {}"
| "isolate_uses Call_NewIsolate = {}"
| "isolate_uses (Call_TerminateExecution a) = {Go_isolate a}"
| "isolate_uses (Call_IsExecutionTerminating a) = {Go_isolate a}"
| "isolate_uses (Call_CompileUnboundScript a _ _ _) = {Go_isolate a}"
| "isolate_uses (Call_GetHeapStatistics a) = {Go_isolate a}"
| "isolate_uses (Call_Dispose _) = {}"
| "isolate_uses (Call_ThrowException a v) = insert (Go_isolate a) (\<Union> (value_pointers ` set_option v))"

fun context_uses :: "context_call \<Rightarrow> pointer set" where
  "context_uses (Call_NewContext opt) = option_pointers opt"
| "context_uses (Call_RetainedValueCount a) = {Go_context a}"
| "context_uses (Call_RunScript a _ _) = {Go_context a}"
| "context_uses (Call_Global a) = {Go_context a}"
| "context_uses (Call_PerformMicrotaskCheckpoint a) = {Go_context a}"
| "context_uses (Call_Close _) = {}"
| "context_uses (Call_JSONParse p _) = Go_context ` set_option p"
| "context_uses (Call_JSONStringify p v) = Go_context ` set_option p \<union> \<Union> (value_pointers ` set_option v)"
| "context_uses (Call_UnboundRun u a) = insert (Go_context a) (script_pointers u)"
| "context_uses (Call_CreateCodeCache u) = script_pointers u"

fun value_uses :: "value_call \<Rightarrow> pointer set" where
  "value_uses (Call_NewValue p _) = Go_isolate ` set_option p"
| "value_uses (Call_ArrayIndex v) = value_pointers v"
| "value_uses (Call_BigInt v) = \<Union> (value_pointers ` set_option v)"
| "value_uses (Call_Boolean v) = value_pointers v"
| "value_uses (Call_DetailString v) = value_pointers v"
| "value_uses (Call_Int32 v) = value_pointers v"
| "value_uses (Call_Integer v) = value_pointers v"
| "value_uses (Call_Number v) = value_pointers v"
| "value_uses (Call_Object v) = value_pointers v"
| "value_uses (Call_String v) = value_pointers v"
| "value_uses (Call_Uint32 v) = value_pointers v"
| "value_uses (Call_SameValue v u) = value_pointers v \<union> value_pointers u"

fun cast_uses :: "cast_call \<Rightarrow> pointer set" where
  "cast_uses (Call_Is _ v) = {handle v}"
| "cast_uses (Call_AsObject v) = value_pointers v"
| "cast_uses (Call_AsPromise v) = value_pointers v"
| "cast_uses (Call_AsFunction v) = value_pointers v"
| "cast_uses (Call_MarshalJSON v) = \<Union> (value_pointers ` set_option v)"
| "cast_uses (Call_Release v) = {handle v}"

fun object_uses :: "object_call \<Rightarrow> pointer set" where
  "object_uses (Call_MethodCall ob _ vs) = value_pointers (obj_value ob) \<union> values_pointers vs"
| "object_uses (Call_Set ob _ x) = value_pointers (obj_value ob) \<union> goval_pointers x"
| "object_uses (Call_SetIdx ob _ x) = value_pointers (obj_value ob) \<union> goval_pointers x"
| "object_uses (Call_SetInternalField ob _ x) = value_pointers (obj_value ob) \<union> goval_pointers x"
| "object_uses (Call_InternalFieldCount ob) = value_pointers (obj_value ob)"
| "object_uses (Call_Get ob _) = value_pointers (obj_value ob)"
| "object_uses (Call_GetInternalField ob _) = value_pointers (obj_value ob)"
| "object_uses (Call_GetIdx ob _) = value_pointers (obj_value ob)"
| "object_uses (Call_Has ob _) = value_pointers (obj_value ob)"
| "object_uses (Call_HasIdx ob _) = value_pointers (obj_value ob)"
| "object_uses (Call_Delete ob _) = value_pointers (obj_value ob)"
| "object_uses (Call_DeleteIdx ob _) = value_pointers (obj_value ob)"

fun template_uses :: "'cb template_call \<Rightarrow> pointer set" where
  "template_uses (Call_NewObjectTemplate p) = Go_isolate ` set_option p"
| "template_uses (Call_ObjectTemplateNewInstance t p) = insert (Go_template t) (Go_context ` set_option p)"
| "template_uses (Call_SetInternalFieldCount t _) = {Go_template t}"
| "template_uses (Call_TemplateInternalFieldCount t) = {Go_template t}"
| "template_uses (Call_NewFunctionTemplate p _) = Go_isolate ` set_option p"
| "template_uses (Call_GetFunction t a) = {Go_template t, Go_context a}"
| "template_uses (Call_TemplateSet t _ x _) = insert (Go_template t) (goval_pointers x)"
| "template_uses (Call_TemplateFinalizer _) = {}"
| "template_uses (Call_InfoRelease info) = handle ` set (info_values info)"

fun promise_uses :: "'cb promise_call \<Rightarrow> pointer set" where
  "promise_uses (Call_NewPromiseResolver p) = Go_context ` set_option p"
| "promise_uses (Call_GetPromise r) = resolver_pointers r"
| "promise_uses (Call_Resolve r v) = resolver_pointers r \<union> value_pointers v"
| "promise_uses (Call_Reject r v) = resolver_pointers r \<union> value_pointers v"
| "promise_uses (Call_State pm) = value_pointers (prom_value pm)"
| "promise_uses (Call_Result pm) = value_pointers (prom_value pm)"
| "promise_uses (Call_Then pm _) = value_pointers (prom_value pm)"
| "promise_uses (Call_Catch pm _) = value_pointers (prom_value pm)"
| "promise_uses (Call_Call f v vs) = value_pointers (fn_value f) \<union> value_pointers v \<union> values_pointers vs"
| "promise_uses (Call_NewInstance f vs) = value_pointers (fn_value f) \<union> values_pointers vs"
| "promise_uses (Call_SourceMapUrl f) = value_pointers (fn_value f)"

fun profiler_uses :: "profiler_call \<Rightarrow> pointer set" where
  "profiler_uses (Call_NewCPUProfiler a) = {Go_isolate a}"
| "profiler_uses (Call_ProfilerDispose _) = {}"
| "profiler_uses (Call_StartProfiling pc _) = profiler_pointers pc"
| "profiler_uses (Call_StopProfiling pc _) = profiler_pointers pc"
| "profiler_uses (Call_ProfileDelete _) = {}"

fun uses :: "'cb call \<Rightarrow> pointer set" where
  "uses (On_isolate c) = isolate_uses c"
| "uses (On_context c) = context_uses c"
| "uses (On_value c) = value_uses c"
| "uses (On_cast c) = cast_uses c"
| "uses (On_object c) = object_uses c"
| "uses (On_template c) = template_uses c"
| "uses (On_promise c) = promise_uses c"
| "uses (On_profiler c) = profiler_uses c"

section \<open>What a call frees\<close>

definition pointee :: "(addr \<Rightarrow> pointer) \<Rightarrow> addr option \<Rightarrow> pointer set" where
  "pointee C p = C ` set_option p"

fun frees :: "('e, 'j, 'cb) world \<Rightarrow> 'cb call \<Rightarrow> pointer set" where
  "frees w (On_isolate (Call_Dispose a)) = \<Union> ((\<lambda>g. pointee V8_isolate (i_ptr g)) ` set_option (gisos w a))"
| "frees w (On_context (Call_Close a)) = \<Union> ((\<lambda>c. pointee M_ctx (c_ptr c)) ` set_option (gctxs w a))"
| "frees w (On_cast (Call_Release v)) = {handle v}"
| "frees w (On_template (Call_TemplateFinalizer t)) = \<Union> ((\<lambda>tm. pointee M_template (t_ptr tm)) ` set_option (gtmpls w t))"
| "frees w (On_template (Call_InfoRelease info)) = handle ` set (info_values info)"
| "frees w (On_profiler (Call_ProfilerDispose pc)) = pointee C_profiler (gp_p pc)"
| "frees w _ = {}"

section \<open>What else a call asks of its arguments\<close>

text \<open>
  The counts that cross to C as an int fit into one; an isolate is disposed of when nothing
  else lives in it; a template is finalized once, a profiler disposed of while it is alive or
  after its Go struct has been cleared; the values of a callback are released once; the text
  given to \<open>JSONParse\<close> has a V8 string; a profile is stopped under a title for which one is running,
  and deleted while its C struct is alive or after its Go struct has been cleared.
\<close>

fun admissible :: "('e, 'j, 'cb) env \<Rightarrow> ('e, 'j, 'cb) world \<Rightarrow> 'cb call \<Rightarrow> bool" where
  "admissible A w (On_isolate (Call_Dispose a)) = vacant a w"
| "admissible A w (On_context (Call_JSONParse _ s)) = makes_string A s (v8 w)"
| "admissible A w (On_value (Call_NewValue _ x)) = countable x"
| "admissible A w (On_object (Call_MethodCall _ _ vs)) = (length vs < 2 ^ 31)"
| "admissible A w (On_object (Call_Set _ _ x)) = countable x"
| "admissible A w (On_object (Call_SetIdx _ _ x)) = countable x"
| "admissible A w (On_object (Call_SetInternalField _ _ x)) = countable x"
| "admissible A w (On_template (Call_TemplateSet _ _ x _)) = countable x"
| "admissible A w (On_template (Call_TemplateFinalizer t)) =
     (\<exists>tm p. gtmpls w t = Some tm \<and> t_ptr tm = Some p \<and> alive w (M_template p))"
| "admissible A w (On_template (Call_InfoRelease info)) = distinct (map v_ptr (info_values info))"
| "admissible A w (On_promise (Call_Call _ _ vs)) = (length vs < 2 ^ 31)"
| "admissible A w (On_promise (Call_NewInstance _ vs)) = (length vs < 2 ^ 31)"
| "admissible A w (On_profiler (Call_ProfilerDispose pc)) = (\<forall>p. gp_p pc = Some p \<longrightarrow> alive w (C_profiler p))"
| "admissible A w (On_profiler (Call_StopProfiling pc title)) = is_running A w pc title"
| "admissible A w (On_profiler (Call_ProfileDelete pf)) = (\<forall>p. pf_p pf = Some p \<longrightarrow> cprofiles w p \<noteq> None)"
| "admissible A w c = True"

section \<open>One call\<close>

abbreviation answers :: "(addr \<Rightarrow> block option) \<Rightarrow> pointer set set \<Rightarrow> (pointer set, ('e, 'j, 'cb) world) res \<Rightarrow> bool" where
  "answers bl KS \<equiv> yields (\<lambda>r. r) bl KS"

lemma answers_pointers: "yields f bl KS m \<Longrightarrow> answers bl KS (answer f m)"
  unfolding answer_def by (erule yields_bind_Ok) simp

lemma answers_nothing: "safely (sound bl KS) m \<Longrightarrow> answers bl KS (answer no_pointers m)"
  unfolding answer_def no_pointers_def by (erule safe_bind) simp

lemmas answers_intros = answers_pointers answers_nothing

text \<open>The calls that free nothing, with all they use in typings that are kept.\<close>

lemma answers_value:
  assumes "bodies_sound (closures A)" "v8_limits A" "sound bl KS w" "value_uses c \<subseteq> owned KS" "admissible A w (On_value c)"
  shows "answers bl KS (exec_value A c w)"
  using assms(4,5)
  by (cases c; simp only: exec_value.simps;
      intro answers_intros yields_NewValue safe_ArrayIndex safe_BigInt safe_conversions safe_DetailString yields_Value_Object
        safe_String safe_SameValue assms(1-3)) auto

lemma answers_object:
  assumes "bodies_sound (closures A)" "sound bl KS w" "object_uses c \<subseteq> owned KS" "admissible A w (On_object c)"
  shows "answers bl KS (exec_object A c w)"
  using assms(3,4)
  by (cases c; simp only: exec_object.simps;
      intro answers_intros yields_MethodCall safe_sets yields_gets safe_tests yields_GetInternalField assms(1,2))
     (auto simp: values_pointers_def)

lemma answers_promise:
  assumes "bodies_sound (closures A)" "sound bl KS w" "promise_uses c \<subseteq> owned KS" "admissible A w (On_promise c)"
  shows "answers bl KS (exec_promise A c w)"
  using assms(3,4)
  by (cases c; simp only: exec_promise.simps;
      intro answers_intros yields_NewPromiseResolver yields_GetPromise safe_settle safe_Promise_State yields_Promise_Result
        yields_chains yields_calls yields_SourceMapURL assms(1,2))
     (auto simp: values_pointers_def)

fun disposes :: "'cb call \<Rightarrow> bool" where
  "disposes (On_isolate (Call_Dispose _)) = True"
| "disposes (On_context (Call_Close _)) = True"
| "disposes (On_cast (Call_Release _)) = True"
| "disposes (On_template (Call_TemplateFinalizer _)) = True"
| "disposes (On_template (Call_InfoRelease _)) = True"
| "disposes (On_profiler (Call_ProfilerDispose _)) = True"
| "disposes _ = False"

lemma answers_isolate:
  assumes "bodies_sound (closures A)" "sound bl KS w" "isolate_uses c \<subseteq> owned KS" "\<not> disposes (On_isolate c)"
  shows "answers bl KS (exec_isolate A c w)"
  using assms(3,4)
  by (cases c; simp only: exec_isolate.simps disposes.simps;
      intro answers_intros safe_SetFlags yields_NewIsolate safe_isolate_calls yields_CompileUnboundScript yields_ThrowException
        assms(1,2)) auto

lemma answers_context:
  assumes "bodies_sound (closures A)" "v8_limits A" "sound bl KS w" "context_uses c \<subseteq> owned KS" "\<not> disposes (On_context c)"
    and "admissible A w (On_context c)"
  shows "answers bl KS (exec_context A c w)"
  using assms(4-6)
  by (cases c; simp only: exec_context.simps disposes.simps;
      intro answers_intros yields_NewContext safe_RetainedValueCount yields_RunScript yields_Global safe_PerformMicrotaskCheckpoint
        yields_JSONParse safe_JSONStringify yields_UnboundScript_Run safe_CreateCodeCache assms(1-3)) auto

lemma answers_cast:
  assumes "bodies_sound (closures A)" "sound bl KS w" "cast_uses c \<subseteq> owned KS" "\<not> disposes (On_cast c)"
  shows "answers bl KS (exec_cast A c w)"
  using assms(3,4)
  by (cases c; simp only: exec_cast.simps disposes.simps;
      intro answers_intros safe_value_is yields_casts safe_MarshalJSON assms(1,2)) (auto simp: handle_def)

lemma answers_template:
  assumes "bodies_sound (closures A)" "sound bl KS w" "template_uses c \<subseteq> owned KS" "\<not> disposes (On_template c)"
    and "admissible A w (On_template c)"
  shows "answers bl KS (exec_template A c w)"
  using assms(3-5)
  by (cases c; simp only: exec_template.simps disposes.simps;
      intro answers_intros yields_new_templates yields_instances safe_field_counts safe_template_Set assms(1,2)) auto

lemma answers_profiler:
  assumes "sound bl KS w" "profiler_uses c \<subseteq> owned KS" "\<not> disposes (On_profiler c)" "\<not> hands_over (On_profiler c)"
  shows "answers bl KS (exec_profiler A c w)"
  using assms(2-4)
  by (cases c; simp only: exec_profiler.simps disposes.simps hands_over.simps;
      intro answers_intros yields_NewCPUProfiler safe_StartProfiling assms(1)) auto

lemma answers_keeping:
  assumes "bodies_sound (closures A)" "v8_limits A" "sound bl KS w" "uses c \<subseteq> owned KS" "admissible A w c" "\<not> disposes c" "\<not> hands_over c"
  shows "answers bl KS (exec A c w)"
  using assms
  by (cases c; simp only: exec.simps uses.simps;
      intro answers_isolate answers_context answers_value answers_cast answers_object answers_template answers_promise
        answers_profiler) simp_all

lemma answers_disposing:
  assumes s: "sound bl KS w" and u: "uses c \<subseteq> usable w" "admissible A w c" and f: "frees w c \<inter> owned KS = {}" and d: "disposes c"
  shows "answers bl KS (exec A c w)"
  using d
proof (cases rule: disposes.elims(2))
  case (1 a)
  show ?thesis unfolding 1 exec.simps exec_isolate.simps
    by (intro answers_nothing safe_Isolate_Dispose s) (use u f in \<open>auto simp: 1 pointee_def\<close>)
next
  case (2 a)
  show ?thesis unfolding 2 exec.simps exec_context.simps
    by (intro answers_nothing safe_Context_Close s) (use u f in \<open>auto simp: 2 pointee_def\<close>)
next
  case (3 v)
  show ?thesis unfolding 3 exec.simps exec_cast.simps
    by (intro answers_nothing safe_mono [OF safe_Value_Release [OF s]]) (use u f in \<open>auto simp: 3 handle_def\<close>)
next
  case (4 t)
  from u obtain tm p where t: "gtmpls w t = Some tm" "t_ptr tm = Some p" "alive w (M_template p)" by (auto simp: 4)
  show ?thesis unfolding 4 exec.simps exec_template.simps
    by (intro answers_nothing safe_template_finalizer [OF s t]) (use t f in \<open>auto simp: 4 pointee_def\<close>)
next
  case (5 info)
  show ?thesis unfolding 5 exec.simps exec_template.simps
    by (intro answers_nothing safe_info_Release [OF s]) (use u f in \<open>auto simp: 5 handle_def\<close>)
next
  case (6 pc)
  show ?thesis unfolding 6 exec.simps exec_profiler.simps
    by (intro answers_nothing safe_CPUProfiler_Dispose [OF s]) (use u f in \<open>auto simp: 6 pointee_def\<close>)
qed

lemma answers_exec:
  assumes A: "bodies_sound (closures A)" "v8_limits A" and s: "sound bl KS w" and u: "uses c \<subseteq> usable w" "admissible A w c"
    and f: "frees w c \<inter> owned KS = {}" and h: "\<not> hands_over c"
  shows "answers bl KS (exec A c w)"
proof (cases "disposes c")
  case True
  then show ?thesis by (rule answers_disposing [OF s u f])
next
  case False
  then show ?thesis using u h by (intro yields_extend [OF s] answers_keeping [OF A]) auto
qed

section \<open>What is left after a call\<close>

text \<open>A call takes from the client what it frees, and all that depends on it.\<close>

definition left :: "('e, 'j, 'cb) world \<Rightarrow> 'cb call \<Rightarrow> pointer set \<Rightarrow> pointer set" where
  "left w c H = {x \<in> H. \<forall>f \<in> frees w c. \<not> (needs w)\<^sup>*\<^sup>* x f}"

lemma left_free: "frees w c = {} \<Longrightarrow> left w c H = H"
  by (simp add: left_def)

lemma left_mono: "H \<subseteq> L \<Longrightarrow> left w c H \<subseteq> left w c L"
  by (auto simp: left_def)

lemma typed_left:
  assumes "typed K w"
  shows "typed (left w c K) w"
proof -
  have "y \<in> left w c K" if x: "x \<in> left w c K" and y: "needs w x y" for x y
  proof -
    have "(needs w)\<^sup>*\<^sup>* y f \<Longrightarrow> (needs w)\<^sup>*\<^sup>* x f" for f using y by (rule converse_rtranclp_into_rtranclp)
    moreover have "y \<in> K" using typed_needs [OF assms _ y] x by (simp add: left_def)
    ultimately show ?thesis using x unfolding left_def by blast
  qed
  then show ?thesis using typed_alive [OF assms] unfolding typed_def left_def by blast
qed

lemma left_kept: "frees w c \<inter> left w c K = {}"
  by (auto simp: left_def)

text \<open>A state in which calls may be made, and a client that holds \<open>H\<close> in it.\<close>

definition healthy :: "('e, 'j, 'cb) world \<Rightarrow> pointer set \<Rightarrow> bool" where
  "healthy w H \<longleftrightarrow> world_ok w \<and> hosted w \<and> profiles_ok w \<and> H \<subseteq> usable w"

lemma healthy_start: "healthy (init_world e) {}"
  by (simp add: healthy_def init_world_ok profiles_ok_init) (simp add: hosted_def init_world_def)

text \<open>What is assumed of the closures and of V8.\<close>

definition good_env :: "('e, 'j, 'cb) env \<Rightarrow> bool" where
  "good_env A \<longleftrightarrow> bodies_sound (closures A) \<and> bodies_spare_profiles (closures A) \<and> v8_limits A"

lemma healthy_settled:
  fixes w :: "('e, 'j, 'cb) world"
  assumes h: "healthy w H" and ok: "keeps world_ok m" and m: "safely (settled w) m"
  shows "safely (\<lambda>w'. healthy w' H) m"
proof -
  have "healthy w' H" if "world_ok w'" "settled w w'" for w' :: "('e, 'j, 'cb) world"
    using h that same_handles_typing [of w w'] by (simp add: healthy_def settled_def)
  then show ?thesis using ok m by (cases m) auto
qed

text \<open>The two calls that pass a C block on to the client, or take it back.\<close>

lemma healthy_handing_over:
  fixes w :: "('e, 'j, 'cb) world"
  assumes h: "healthy w H" and u: "uses c \<subseteq> H" "admissible A w c" and c: "hands_over c"
  shows "safe (\<lambda>r w'. healthy w' (r \<union> left w c H)) (\<lambda>w'. healthy w' (left w c H)) (exec A c w)"
proof -
  have ok: "world_ok w" "profiles_ok w" using h by (simp_all add: healthy_def)
  have lift: "safe (\<lambda>r w'. healthy w' (r \<union> H)) (\<lambda>w'. healthy w' H) (answer no_pointers m)"
    if "safely (\<lambda>w'. healthy w' H) m" for m :: "('a, ('e, 'j, 'cb) world) res"
    unfolding answer_def no_pointers_def by (rule safe_bind [OF that]) simp
  from c consider pc title where "c = On_profiler (Call_StopProfiling pc title)" | pf where "c = On_profiler (Call_ProfileDelete pf)"
    by (cases c rule: hands_over.cases) simp_all
  then show ?thesis
  proof cases
    case (1 pc title)
    then have "profiler_pointers pc \<subseteq> usable w" "is_running A w pc title" using h u by (auto simp: healthy_def)
    then have "safely (\<lambda>w'. healthy w' H) (StopProfiling A pc title w)"
      by (intro healthy_settled [OF h] world_profiles safe_StopProfiling ok)
    then show ?thesis using lift by (simp add: 1 left_free)
  next
    case (2 pf)
    then have "safely (\<lambda>w'. healthy w' H) (CPUProfile_Delete A pf w)"
      using u(2) by (intro healthy_settled [OF h] world_profiles safe_CPUProfile_Delete ok) simp
    then show ?thesis using lift by (simp add: 2 left_free)
  qed
qed

lemma healthy_exec:
  fixes w :: "('e, 'j, 'cb) world"
  assumes A: "good_env A" and h: "healthy w H" and u: "uses c \<subseteq> H" "admissible A w c"
  shows "safe (\<lambda>r w'. healthy w' (r \<union> left w c H)) (\<lambda>w'. healthy w' (left w c H)) (exec A c w)"
proof (cases "hands_over c")
  case True
  then show ?thesis by (rule healthy_handing_over [OF h u])
next
  case False
  have "sound (blocks w) {left w c (usable w)} w"
    using h typed_left [OF typed_usable] by (simp add: sound_def healthy_def clean_def)
  moreover have "frees w c \<inter> owned {left w c (usable w)} = {}" using left_kept by (simp add: owned_def)
  ultimately have ans: "answers (blocks w) {left w c (usable w)} (exec A c w)"
    using A u h False by (intro answers_exec) (auto simp: healthy_def good_env_def)
  have "keeps (\<lambda>w'. bodies_spare_profiles (closures A) \<and> profiles_are (cprofiles w) (cnodes w) w') (exec A c w)"
    using A h False by (intro sparing.exec_keeps) (simp_all add: good_env_def healthy_def profiles_are_def)
  moreover have "profiles_ok w'" if "profiles_are (cprofiles w) (cnodes w) w'" "blocks w' = blocks w" for w' :: "('e, 'j, 'cb) world"
    using that h profiles_ok_cong [of w' w] by (simp add: healthy_def profiles_are_def)
  moreover have "left w c H \<subseteq> usable w'" if "typed (left w c (usable w)) w'" for w' :: "('e, 'j, 'cb) world"
    using typed_sub_usable [OF that] left_mono [of H "usable w" w c] h by (auto simp: healthy_def)
  ultimately show ?thesis using ans by (cases "exec A c w") (simp_all add: sound_def healthy_def clean_def)
qed

section \<open>Clients that keep to the discipline\<close>

text \<open>
  A careful client: it calls with pointers it holds and admissible arguments; it then holds
  what the call returns and what the call has left it.
\<close>

inductive careful_step ::
    "('e, 'j, 'cb) env \<Rightarrow> ('e, 'j, 'cb) world \<times> pointer set \<Rightarrow> ('e, 'j, 'cb) world \<times> pointer set \<Rightarrow> bool" for A where
  returns: "uses c \<subseteq> H \<Longrightarrow> admissible A w c \<Longrightarrow> exec A c w = Ok r w' \<Longrightarrow> careful_step A (w, H) (w', r \<union> left w c H)"
| panics: "uses c \<subseteq> H \<Longrightarrow> admissible A w c \<Longrightarrow> exec A c w = Fault f w' \<Longrightarrow> recoverable f \<Longrightarrow>
     careful_step A (w, H) (w', left w c H)"

definition careful_inv :: "('e, 'j, 'cb) env \<Rightarrow> ('e, 'j, 'cb) world \<times> pointer set \<Rightarrow> bool" where
  "careful_inv A s \<longleftrightarrow> (good_env A \<longrightarrow> healthy (fst s) (snd s))"

lemma careful_step_inv: "careful_inv A s \<Longrightarrow> careful_step A s t \<Longrightarrow> careful_inv A t"
proof (erule careful_step.cases)
  fix c H w r w' assume "careful_inv A s" "s = (w, H)" "t = (w', r \<union> left w c H)" "uses c \<subseteq> H" "admissible A w c"
    and "exec A c w = Ok r w'"
  then show "careful_inv A t" using healthy_exec [of A w H c] by (simp add: careful_inv_def)
next
  fix c H w f w' assume "careful_inv A s" "s = (w, H)" "t = (w', left w c H)" "uses c \<subseteq> H" "admissible A w c"
    and "exec A c w = Fault f w'" "recoverable f"
  then show "careful_inv A t" using healthy_exec [of A w H c] by (simp add: careful_inv_def)
qed

interpretation careful: invariant_system "\<lambda>s. s \<in> (\<lambda>e. (init_world e, {})) ` UNIV" "careful_step A" "careful_inv A" for A
proof unfold_locales
  fix s :: "('a, 'b, 'c) world \<times> pointer set" assume "s \<in> (\<lambda>e. (init_world e, {})) ` UNIV"
  then show "careful_inv A s" by (auto simp: careful_inv_def healthy_start)
qed (rule careful_step_inv)

end
