(* ===== verification/Sample.thy ===== *)
theory Sample
  imports Promises Scripts Profiler
begin

text \<open>
  A concrete environment, on which the theorems of the development are instantiated: a toy
  JavaScript engine with strings, integers, big integers, objects without properties, and
  functions made from Go callbacks. A script is its own source text: \<open>throw\<close> raises, \<open>call\<close>
  calls the function with callback reference 1 with two arguments, \<open>(\<close> does not compile, anything
  else evaluates to its text as a string. The state of the engine is the text of the pending
  exception. The closures return their first argument. It shows that the hypotheses of the
  theorems can hold together; nothing else rests on it.
\<close>

datatype jv =
    JUndefined | JNull | JBool bool | JNumber "64 word" | JInt "32 word" | JBig int | JString bytes
  | JObject nat | JContext int | JScript bytes | JTemplate int | JFunction int | JProfiler

definition sample_closure :: "nat \<Rightarrow> FunctionCallbackInfo \<Rightarrow> (Value option, bytes, jv, nat) op" where
  "sample_closure cb info w = Ok (case fi_args info of [] \<Rightarrow> None | v # _ \<Rightarrow> Some v) w"

definition sample_run :: "jv \<Rightarrow> jv \<Rightarrow> bytes \<Rightarrow> (bytes, jv, jv option) js" where
  "sample_run ctx script e =
     (case script of
        JScript s \<Rightarrow>
          if s = ''throw'' then Done ''Error: boom'' None
          else if s = ''call'' then
            (case ctx of JContext ref \<Rightarrow>
               CallGo e ref 1 (JObject 0) [JString ''a'', JString ''b''] (\<lambda>e r. Done e (Some (case r of None \<Rightarrow> JUndefined | Some v \<Rightarrow> v)))
             | _ \<Rightarrow> Done e None)
          else Done e (Some (JString s))
      | _ \<Rightarrow> Done e None)"

definition sample_exn :: "bytes \<Rightarrow> exn" where
  "sample_exn e = \<lparr>ex_terminated = False, ex_exception = e,
     ex_message = Some (''x.js'', Some 3, Some 4), ex_stack = Some (e @ '' at x.js:3:5'')\<rparr>"

definition sample_big :: "jv \<Rightarrow> (int \<times> 64 word list) option" where
  "sample_big v = (case v of JBig n \<Rightarrow> Some (if n < 0 then 1 else 0, nat_words (nat \<bar>n\<bar>)) | _ \<Rightarrow> None)"

definition sample_is :: "v8pred \<Rightarrow> jv \<Rightarrow> bool" where
  "sample_is p v = (case v of
       JUndefined \<Rightarrow> p = PUndefined \<or> p = PNullOrUndefined
     | JNull \<Rightarrow> p = PNull \<or> p = PNullOrUndefined
     | JBool b \<Rightarrow> p = PBoolean \<or> p = (if b then PTrue else PFalse)
     | JNumber _ \<Rightarrow> p = PNumber
     | JInt _ \<Rightarrow> p = PNumber \<or> p = PInt32
     | JBig _ \<Rightarrow> p = PBigInt
     | JString _ \<Rightarrow> p = PString \<or> p = PName
     | JObject _ \<Rightarrow> p = PObject
     | JFunction _ \<Rightarrow> p = PObject \<or> p = PFunction
     | _ \<Rightarrow> False)"

definition sample_tree :: "jv v8_node" where
  "sample_tree = V8Node JUndefined 1 0 '''' ''(root)'' 0 0 0 ''''
     [V8Node JUndefined 2 7 ''x.js'' ''f'' 1 2 3 '''' [V8Node JUndefined 3 7 ''x.js'' ''g'' 4 5 6 '''' []],
      V8Node JUndefined 4 7 ''x.js'' ''h'' 7 8 9 '''' []]"

definition sample_profile :: "jv v8_profile" where
  "sample_profile = \<lparr>vp_ptr = JProfiler, vp_title = ''t'', vp_root = sample_tree, vp_start = 1000, vp_end = 5000\<rparr>"

definition sample :: "(bytes, jv, nat) env" where
  "sample =
     \<lparr>closures = sample_closure,
      v8_version = ''11.1'', v8_set_flags = (\<lambda>_ e. e), v8_init = (\<lambda>e. e), v8_uninit = (\<lambda>_. 0),
      v8_new_isolate = (\<lambda>_ e. (e, JContext 0)), v8_dispose = (\<lambda>_ e. e), v8_terminate = (\<lambda>_ e. e),
      v8_is_terminating = (\<lambda>_ _. False),
      v8_heap_statistics = (\<lambda>_ _. v8_stats.make 1 2 3 4 5 6 7 8 9 10 11),
      v8_throw = (\<lambda>_ v e. (''thrown'', JUndefined)), v8_microtasks = (\<lambda>_ e. Done e ()),
      v8_caught = (\<lambda>e. Done e (sample_exn e)), v8_null = JNull, v8_undefined = JUndefined,
      v8_new_context = (\<lambda>_ _ ref e. (e, JContext ref)), v8_global = (\<lambda>_ _. JObject 0),
      v8_new_utf8 = (\<lambda>_ s e. (e, Some (JString s))),
      v8_compile = (\<lambda>_ s _ e. case s of JString b \<Rightarrow> if b = ''('' then (''SyntaxError'', None) else (e, Some (JScript b)) | _ \<Rightarrow> (e, None)),
      v8_run = sample_run,
      v8_compile_unbound = (\<lambda>_ s _ data _ e. case s of JString b \<Rightarrow> if b = ''('' then (''SyntaxError'', (None, False)) else (e, (Some (JScript b), data = Some ''stale'')) | _ \<Rightarrow> (e, (None, False))),
      v8_code_cache = (\<lambda>s _. case s of JScript b \<Rightarrow> (b, False) | _ \<Rightarrow> ([], False)),
      v8_bind = (\<lambda>_ s e. (e, s)),
      v8_integer = (\<lambda>n e. (e, JInt n)), v8_unsigned = (\<lambda>n e. (e, JInt n)), v8_boolean = (\<lambda>b e. (e, JBool b)),
      v8_number = (\<lambda>x e. (e, JNumber x)), v8_bigint = (\<lambda>n e. (e, JBig (sint n))),
      v8_bigint_unsigned = (\<lambda>n e. (e, JBig (uint n))),
      v8_bigint_words = (\<lambda>_ s ws e. (e, Some (JBig (if s = 0 then int (words_nat ws) else - int (words_nat ws))))),
      v8_array_index = (\<lambda>_ v e. Done e (case v of JInt n \<Rightarrow> Some n | _ \<Rightarrow> None)),
      v8_boolean_value = (\<lambda>v _. v \<noteq> JUndefined \<and> v \<noteq> JNull \<and> v \<noteq> JBool False),
      v8_int32_value = (\<lambda>_ v e. Done e (case v of JInt n \<Rightarrow> Some n | _ \<Rightarrow> Some 0)),
      v8_integer_value = (\<lambda>_ v e. Done e (case v of JInt n \<Rightarrow> Some (ucast n) | _ \<Rightarrow> Some 0)),
      v8_number_value = (\<lambda>_ v e. Done e (case v of JNumber n \<Rightarrow> Some n | _ \<Rightarrow> Some 0)),
      v8_uint32_value = (\<lambda>_ v e. Done e (case v of JInt n \<Rightarrow> Some n | _ \<Rightarrow> Some 0)),
      v8_detail_string = (\<lambda>_ v e. Done e (case v of JString s \<Rightarrow> Some s | _ \<Rightarrow> None)),
      v8_utf8_value = (\<lambda>_ v e. Done e (case v of JString s \<Rightarrow> s | _ \<Rightarrow> [])),
      v8_to_bigint = (\<lambda>_ v e. Done e (sample_big v)),
      v8_to_object = (\<lambda>_ v e. Done e (case v of JUndefined \<Rightarrow> None | JNull \<Rightarrow> None | _ \<Rightarrow> Some v)),
      v8_same_value = (\<lambda>u v _. u = v), v8_is = (\<lambda>p v _. sample_is p v),
      v8_set = (\<lambda>_ _ _ _ e. Done e (Some True)), v8_set_idx = (\<lambda>_ _ _ _ e. Done e (Some True)),
      v8_field_count = (\<lambda>v _. case v of JObject n \<Rightarrow> int n | _ \<Rightarrow> 0), v8_set_field = (\<lambda>_ _ _ e. e),
      v8_get = (\<lambda>_ _ k e. case k of JString s \<Rightarrow> if s = ''throws'' then Done ''Error: get'' None else Done e (Some JUndefined) | _ \<Rightarrow> Done e None),
      v8_get_idx = (\<lambda>_ _ _ e. Done e (Some JUndefined)), v8_get_field = (\<lambda>_ _ _. JUndefined),
      v8_has = (\<lambda>_ _ _ e. Done e (Some False)), v8_has_idx = (\<lambda>_ _ _ e. Done e (Some False)),
      v8_delete = (\<lambda>_ _ _ e. Done e (Some True)), v8_delete_idx = (\<lambda>_ _ _ e. Done e (Some True)),
      v8_object_template = (\<lambda>_ e. (e, JTemplate 0)), v8_function_template = (\<lambda>_ ref e. (e, JTemplate ref)),
      v8_template_set = (\<lambda>_ _ _ _ e. e), v8_instance = (\<lambda>_ _ e. Done e (Some (JObject 2))),
      v8_set_field_count = (\<lambda>_ _ e. e), v8_template_field_count = (\<lambda>_ _. 0),
      v8_template_function = (\<lambda>t _ e. (e, case t of JTemplate ref \<Rightarrow> Some (JFunction ref) | _ \<Rightarrow> None)),
      v8_call = (\<lambda>_ _ _ argv e. Done e (Some (case argv of [] \<Rightarrow> JUndefined | v # _ \<Rightarrow> v))),
      v8_construct = (\<lambda>_ _ _ e. Done e (Some (JObject 0))), v8_source_map_url = (\<lambda>_ _. JUndefined),
      v8_resolver = (\<lambda>_ e. (e, Some (JObject 0))), v8_promise = (\<lambda>v _. v),
      v8_resolve = (\<lambda>_ _ _ e. Done e (Some True)), v8_reject = (\<lambda>_ _ _ e. Done e (Some True)),
      v8_promise_state = (\<lambda>_ _. 0), v8_function = (\<lambda>_ ref e. (e, Some (JFunction ref))),
      v8_then = (\<lambda>_ p _ e. Done e (Some p)), v8_then2 = (\<lambda>_ p _ _ e. Done e (Some p)),
      v8_catch = (\<lambda>_ p _ e. Done e (Some p)), v8_promise_result = (\<lambda>_ _. JUndefined),
      v8_json_parse = (\<lambda>_ s e. (e, case s of JString b \<Rightarrow> if b = [] then None else Some (JString b) | _ \<Rightarrow> None)),
      v8_json_stringify = (\<lambda>_ v e. Done e (case v of JString s \<Rightarrow> Some s | _ \<Rightarrow> None)),
      v8_profiler_new = (\<lambda>_ e. (e, JProfiler)), v8_profiler_dispose = (\<lambda>_ e. e),
      v8_profiler_start = (\<lambda>_ _ e. e), v8_profiler_stop = (\<lambda>_ _ e. (e, Some sample_profile)),
      v8_profile_delete = (\<lambda>_ e. e)\<rparr>"

lemma sample_bodies_ok: "bodies_ok (closures sample)"
  by (simp add: bodies_ok_def sample_def sample_closure_def)

text \<open>The state after \<open>NewContext()\<close> in a fresh process: one isolate, one context, no values but its constants.\<close>

definition demo_world :: "(bytes, jv, nat) world" where
  "demo_world =
     \<lparr>brk = 7, isolates = [2 \<mapsto> \<lparr>slot0 = Some 3\<rparr>],
      mctxs = [3 \<mapsto> \<lparr>mc_iso = 2, mc_vals = [(1, 4), (2, 5)], mc_unboundScripts = [], mc_ptr = JContext 0, mc_nextValId = 2\<rparr>,
               6 \<mapsto> \<lparr>mc_iso = 2, mc_vals = [], mc_unboundScripts = [], mc_ptr = JContext 1, mc_nextValId = 0\<rparr>],
      mvals = [4 \<mapsto> \<lparr>mv_id = 1, mv_iso = 2, mv_ctx = Some 3, mv_ptr = JNull\<rparr>,
               5 \<mapsto> \<lparr>mv_id = 2, mv_iso = 2, mv_ctx = Some 3, mv_ptr = JUndefined\<rparr>],
      mtmpls = (\<lambda>_. None), mscripts = (\<lambda>_. None), cprofilers = (\<lambda>_. None), cprofiles = (\<lambda>_. None),
      cnodes = (\<lambda>_. None), blocks = (\<lambda>_. None), gbrk = 4,
      gisos = [1 \<mapsto> \<lparr>i_ptr = Some 2, cbSeq = 0, cbs = (\<lambda>_. None),
                      i_null = Some \<lparr>v_ptr = Some 4, v_ctx = None\<rparr>, i_undefined = Some \<lparr>v_ptr = Some 5, v_ctx = None\<rparr>\<rparr>],
      gctxs = [3 \<mapsto> \<lparr>c_ref = 1, c_ptr = Some 6, c_iso = 1\<rparr>],
      gtmpls = [2 \<mapsto> \<lparr>t_ptr = None, t_iso = None\<rparr>], gnodes = (\<lambda>_. None),
      reg = \<lparr>ctxSeq = 1, ctxRegistry = [1 \<mapsto> \<lparr>r_ctx = 3, refCount = 1\<rparr>]\<rparr>, v8once = True, v8 = []\<rparr>"

lemma env_sample [simp]:
  "closures sample = sample_closure"
  "v8_uninit sample = (\<lambda>_. 0)"
  "v8_new_isolate sample = (\<lambda>_ e. (e, JContext 0))"
  "v8_set_flags sample = (\<lambda>_ e. e)" "v8_init sample = (\<lambda>e. e)"
  "v8_null sample = JNull" "v8_undefined sample = JUndefined"
  "v8_new_context sample = (\<lambda>_ _ ref e. (e, JContext ref))"
  by (simp_all add: sample_def)

lemma demo_NewContext: "NewContext sample [] (init_world []) = Ok 3 demo_world"
  by (simp add: NewContext_def context_options_def NewIsolate_def initializeIfNecessary_def withCString_def
      CString_def malloc_def c_new_def go_new_def mem_limit_def init_world_def C_SetFlags_def read_cstr_def
      C_Init_def cfree_def C_NewIsolate_def new_Isolate_struct_def set_constants_def with_isolate_def
      newValueNull_def C_NewValueNull_def internal_scope_def new_value_def tracked_value_def track_def
      newValueUndefined_def C_NewValueUndefined_def write_iso_def new_template_def open_context_def
      next_ref_def with_template_def C_NewContext_def isolate_scope_def ask_def register_def c_long_def c_int_def
      demo_world_def c_str_def fun_upd_twist)
     (simp add: eval_nat_numeral)

lemma demo_world_ok: "world_ok demo_world"
  using world_NewContext [of "init_world []" sample "[]"] by (simp add: demo_NewContext init_world_ok)

lemma demo_fields [simp]:
  "brk demo_world = 7" "gbrk demo_world = 4" "v8 demo_world = []" "v8once demo_world"
  "isolates demo_world = [2 \<mapsto> \<lparr>slot0 = Some 3\<rparr>]"
  "gctxs demo_world = [3 \<mapsto> \<lparr>c_ref = 1, c_ptr = Some 6, c_iso = 1\<rparr>]"
  "blocks demo_world = (\<lambda>_. None)" "mscripts demo_world = (\<lambda>_. None)"
  "reg demo_world = \<lparr>ctxSeq = 1, ctxRegistry = [1 \<mapsto> \<lparr>r_ctx = 3, refCount = 1\<rparr>]\<rparr>"
  by (simp_all add: demo_world_def)

lemma demo_isolate: "gisos demo_world 1 = Some \<lparr>i_ptr = Some 2, cbSeq = 0, cbs = (\<lambda>_. None),
    i_null = Some \<lparr>v_ptr = Some 4, v_ctx = None\<rparr>, i_undefined = Some \<lparr>v_ptr = Some 5, v_ctx = None\<rparr>\<rparr>"
  by (simp add: demo_world_def)

lemmas demo_isolate_Suc [simp] = demo_isolate [unfolded One_nat_def]

lemma demo_contexts [simp]:
  "mctxs demo_world 6 = Some \<lparr>mc_iso = 2, mc_vals = [], mc_unboundScripts = [], mc_ptr = JContext 1, mc_nextValId = 0\<rparr>"
  "mctxs demo_world 3 = Some \<lparr>mc_iso = 2, mc_vals = [(1, 4), (2, 5)], mc_unboundScripts = [], mc_ptr = JContext 0, mc_nextValId = 2\<rparr>"
  by (simp_all add: demo_world_def)

end
