(* ===== verification/Clients.thy ===== *)
theory Clients
  imports Soundness Sample
begin

text \<open>
  What the ownership discipline of the package guarantees its clients: the type soundness of one
  call and the memory safety of every careful client, with an environment on which they are
  instantiated: the sample engine with a limit on the length of strings, and closures that
  release the values they are called with.
\<close>

definition clip :: "bytes \<Rightarrow> bytes" where
  "clip = take (2 ^ 31 - 1)"

definition guarded :: "(bytes, jv, nat) env" where
  "guarded = sample\<lparr>closures := (\<lambda>cb info w. bindR (info_Release info w) (\<lambda>_ w. Ok None w)),
     v8_utf8_value := (\<lambda>_ v e. Done e (clip (case v of JString s \<Rightarrow> s | _ \<Rightarrow> []))),
     v8_detail_string := (\<lambda>_ v e. Done e (case v of JString s \<Rightarrow> Some (clip s) | _ \<Rightarrow> None)),
     v8_code_cache := (\<lambda>s _. case s of JScript b \<Rightarrow> (clip b, False) | _ \<Rightarrow> ([], False))\<rparr>"

lemma length_clip: "length (clip s) < 2 ^ 31"
  by (simp add: clip_def)

lemma guarded_limits: "v8_limits guarded"
  using length_clip by (simp add: v8_limits_def guarded_def split: jv.splits)

lemma guarded_bodies: "bodies_sound (closures guarded)"
proof -
  have "yields returned bl KS (bindR (info_Release info w) (\<lambda>_ w. Ok None w))"
    if "sound bl KS w" "\<forall>v \<in> set (info_values info). value_pointers v \<subseteq> usable w \<and> ptr M_value (v_ptr v) \<notin> owned KS"
      "distinct (map v_ptr (info_values info))" for bl KS info and w :: "(bytes, jv, nat) world"
    by (rule safe_bind [OF safe_info_Release [OF that(1) _ that(3)]])
       (use that(2) in \<open>auto simp: value_pointers_def returned_def\<close>)
  then show ?thesis by (simp add: bodies_sound_def guarded_def)
qed

lemma guarded_spares: "bodies_spare_profiles (closures guarded)"
proof -
  have "keeps (profiles_are P N) (release_all vs w)" if "profiles_are P N w" for P N vs and w :: "(bytes, jv, nat) world"
    using that by (induction vs arbitrary: w) (auto intro!: keeps_bindR spare_values)
  then have "keeps (profiles_are P N) (info_Release info w)" if "profiles_are P N w" for P N info and w :: "(bytes, jv, nat) world"
    unfolding info_Release_def using that by (intro holds_intros spare_values | assumption)+
  then show ?thesis by (auto simp: bodies_spare_profiles_def guarded_def intro!: keeps_bindR)
qed

lemma guarded_good: "good_env guarded"
  using guarded_bodies guarded_spares guarded_limits by (simp add: good_env_def)

lemma guarded_fields:
  "v8_set_flags guarded = v8_set_flags sample" "v8_init guarded = v8_init sample" "v8_uninit guarded = v8_uninit sample"
  "v8_new_isolate guarded = v8_new_isolate sample" "v8_null guarded = v8_null sample" "v8_undefined guarded = v8_undefined sample"
  "v8_new_context guarded = v8_new_context sample"
  by (simp_all add: guarded_def)

lemma guarded_NewContext: "exec guarded (On_context (Call_NewContext [])) (init_world []) = Ok {Go_context 3} demo_world"
proof -
  have "NewContext guarded [] (init_world []) = NewContext sample [] (init_world [])"
    unfolding NewContext_def NewIsolate_def initializeIfNecessary_def C_SetFlags_def C_Init_def C_NewIsolate_def
      set_constants_def newValueNull_def C_NewValueNull_def newValueUndefined_def C_NewValueUndefined_def open_context_def
      C_NewContext_def guarded_fields ..
  then show ?thesis by (simp add: demo_NewContext answer_def)
qed

lemma guarded_step: "careful_step guarded (init_world [], {}) (demo_world, {Go_context 3})"
proof -
  have "careful_step guarded (init_world [], {})
      (demo_world, {Go_context 3} \<union> left (init_world [] :: (bytes, jv, nat) world) (On_context (Call_NewContext [])) {})"
    by (rule careful_step.returns [OF _ _ guarded_NewContext]) (simp_all add: option_pointers_def context_options_def)
  then show ?thesis by (simp add: left_def)
qed

lemma demo_held: "healthy demo_world {Go_context 3}"
proof -
  have "careful_inv guarded (demo_world, {Go_context 3})"
    by (rule careful.step_inv [OF careful.start_inv guarded_step]) simp
  then show ?thesis using guarded_good by (simp add: careful_inv_def)
qed

section \<open>Type soundness\<close>



section \<open>Memory safety of careful clients\<close>



end
