(* ===== verification/Shutdown.thy ===== *)
theory Shutdown
  imports Clients
begin

text \<open>
  Giving everything back: a client that closes the contexts of an isolate, in any order and also
  repeatedly, and then disposes of the isolate.
\<close>

primrec close_all :: "addr list \<Rightarrow> (unit, 'e, 'j, 'cb) op" where
  "close_all [] w = Ok () w"
| "close_all (a # as) w = bindR (Context_Close a w) (\<lambda>_ w. close_all as w)"

definition shutdown :: "('e, 'j, 'cb) env \<Rightarrow> addr \<Rightarrow> addr list \<Rightarrow> (unit, 'e, 'j, 'cb) op" where
  "shutdown A i as w = bindR (close_all as w) (\<lambda>_ w. Isolate_Dispose A i w)"

text \<open>The C++ contexts of the given Go contexts, and the values that are left when contexts are freed.\<close>

definition contexts_of :: "addr set \<Rightarrow> ('e, 'j, 'cb) world \<Rightarrow> addr set" where
  "contexts_of S w = {p. \<exists>a \<in> S. \<exists>c. gctxs w a = Some c \<and> c_ptr c = Some p}"

definition values_outside :: "addr set \<Rightarrow> (addr \<Rightarrow> 'j m_value option) \<Rightarrow> addr \<Rightarrow> 'j m_value option" where
  "values_outside P vals q = (case vals q of None \<Rightarrow> None | Some mv \<Rightarrow> if mv_ctx mv \<in> Some ` P then None else Some mv)"

lemma values_outside_simps [simp]:
  "values_outside {} vals = vals" "values_outside P (values_outside Q vals) = values_outside (P \<union> Q) vals"
  by (auto simp: values_outside_def fun_eq_iff split: option.splits)

lemma ctx_freed_values:
  assumes "world_ok w" "mctxs w p = Some mc"
  shows "mvals (ctx_freed p mc w) = values_outside {p} (mvals w)"
proof
  fix q
  have "q \<in> snd ` set (mc_vals mc) \<longleftrightarrow> (\<exists>mv. mvals w q = Some mv \<and> mv_ctx mv = Some p)" by (rule entries_of [OF assms])
  then show "mvals (ctx_freed p mc w) q = values_outside {p} (mvals w) q"
    by (auto simp: ctx_freed_def values_outside_def restrict_map_def split: option.splits)
qed

section \<open>Closing the contexts\<close>

definition closed_world :: "addr set \<Rightarrow> ('e, 'j, 'cb) world \<Rightarrow> ('e, 'j, 'cb) world \<Rightarrow> bool" where
  "closed_world S w w' \<longleftrightarrow> world_ok w' \<and> hosted w' \<and> isolates w' = isolates w \<and> gisos w' = gisos w \<and>
     gctxs w' = (\<lambda>a. if a \<in> S then map_option (c_ptr_update (\<lambda>_. None)) (gctxs w a) else gctxs w a) \<and>
     mctxs w' = mctxs w |` (- contexts_of S w) \<and> mvals w' = values_outside (contexts_of S w) (mvals w)"

lemma Context_Close_returns:
  fixes w :: "('e, 'j, 'cb) world"
  assumes ok: "world_ok w" and host: "hosted w" and c: "gctxs w a = Some c"
  shows "\<exists>w'. Context_Close a w = Ok () w' \<and> closed_world {a} w w'"
proof (cases "c_ptr c")
  case None
  then have "contexts_of {a} w = {}" using c by (simp add: contexts_of_def)
  moreover have "c\<lparr>c_ptr := None\<rparr> = c" using None by (cases c) simp
  ultimately have "closed_world {a} w w" using ok host c by (auto simp: closed_world_def)
  then show ?thesis using Context_Close_closed [OF ok c None] by blast
next
  case (Some p)
  obtain mc where mc: "mctxs w p = Some mc" using gctxsD(3) [OF ok c Some] by auto
  have "sound (blocks w) {} w" using ok host by (simp add: sound_def clean_def)
  then have "safely (sound (blocks w) {}) (Context_Close a w)" by (rule safe_Context_Close) (simp add: owned_def)
  moreover have "isolates_live w p" using host mc by (auto simp: hosted_def isolates_live_def)
  note eq = Context_Close_eq [OF ok c Some mc this]
  ultimately have "world_ok (ctx_closed a c p mc w)" "hosted (ctx_closed a c p mc w)" by (simp_all add: eq sound_def clean_def)
  moreover have "contexts_of {a} w = {p}" using c Some by (auto simp: contexts_of_def)
  ultimately have "closed_world {a} w (ctx_closed a c p mc w)"
    using c ctx_freed_values [OF ok mc]
    by (auto simp: closed_world_def ctx_closed_def fun_eq_iff restrict_map_def)
  then show ?thesis using eq by blast
qed

lemma closed_world_trans:
  assumes "closed_world S w w1" "closed_world T w1 w2"
  shows "closed_world (S \<union> T) w w2"
proof -
  have P: "contexts_of (S \<union> T) w = contexts_of T w1 \<union> contexts_of S w"
    using assms(1) by (auto simp: closed_world_def contexts_of_def split: if_splits)
  have "mctxs w2 = mctxs w |` (- contexts_of (S \<union> T) w)"
    using assms by (simp add: closed_world_def P Int_commute)
  moreover have "mvals w2 = values_outside (contexts_of (S \<union> T) w) (mvals w)"
    using assms by (simp add: closed_world_def P)
  moreover have "gctxs w2 = (\<lambda>a. if a \<in> S \<union> T then map_option (c_ptr_update (\<lambda>_. None)) (gctxs w a) else gctxs w a)"
    using assms by (auto simp: closed_world_def fun_eq_iff option.map_comp comp_def)
  ultimately show ?thesis using assms by (simp add: closed_world_def)
qed

lemma close_all_closes:
  assumes "world_ok w" "hosted w" "\<forall>a \<in> set as. gctxs w a \<noteq> None"
  shows "\<exists>w'. close_all as w = Ok () w' \<and> closed_world (set as) w w'"
  using assms
proof (induction as arbitrary: w)
  case Nil
  then show ?case by (auto simp: closed_world_def contexts_of_def)
next
  case (Cons a as)
  from Cons.prems obtain c where "gctxs w a = Some c" by auto
  from Context_Close_returns [OF Cons.prems(1,2) this] obtain w1 where w1: "Context_Close a w = Ok () w1" "closed_world {a} w w1" by blast
  moreover have "\<forall>a \<in> set as. gctxs w1 a \<noteq> None" using w1(2) Cons.prems(3) by (auto simp: closed_world_def)
  ultimately obtain w2 where "close_all as w1 = Ok () w2" "closed_world (set as) w1 w2"
    using Cons.IH [of w1] by (auto simp: closed_world_def)
  then show ?case using w1(1) closed_world_trans [OF w1(2), of "set as" w2] by simp
qed

section \<open>Disposing of the isolate\<close>

text \<open>
  The isolate at \<open>p\<close> of the Go struct at \<open>i\<close> is in the hands of the Go contexts \<open>S\<close>: they include
  all open contexts that refer to it, every C++ context in it is one of theirs or the internal
  one, and the values made in it belong to such contexts.
\<close>

definition in_hands :: "addr set \<Rightarrow> addr \<Rightarrow> addr \<Rightarrow> addr \<Rightarrow> ('e, 'j, 'cb) world \<Rightarrow> bool" where
  "in_hands S i p c w \<longleftrightarrow>
     (\<forall>b gc. gctxs w b = Some gc \<longrightarrow> c_ptr gc \<noteq> None \<longrightarrow> c_iso gc = i \<longrightarrow> b \<in> S) \<and>
     (\<forall>d mc. mctxs w d = Some mc \<longrightarrow> mc_iso mc = p \<longrightarrow> d \<in> insert c (contexts_of S w)) \<and>
     (\<forall>q mv. mvals w q = Some mv \<longrightarrow> mv_iso mv = p \<longrightarrow> mv_ctx mv \<in> Some ` insert c (contexts_of S w))"

lemma vacant_closed:
  assumes "in_hands S i p c w" "closed_world S w w'" "gisos w i = Some g" "i_ptr g = Some p" "isolates w p = Some v" "slot0 v = Some c"
  shows "vacant i w'"
  using assms unfolding vacant_def in_hands_def closed_world_def
  by (auto simp: restrict_map_def values_outside_def split: if_splits option.splits)

text \<open>
  C6: an orderly shutdown gives everything back. In a state whose contexts and values live in
  live isolates, closing the contexts of an isolate, in any order and some of them repeatedly, and
  then disposing of the isolate always returns. It frees exactly the isolate, its internal context,
  the C++ contexts of the closed ones and the values of these contexts; what remains lives in live
  isolates again.
\<close>

theorem orderly_shutdown:
  assumes ok: "world_ok w" "hosted w" and cs: "\<forall>a \<in> set as. gctxs w a \<noteq> None"
    and i: "gisos w i = Some g" "i_ptr g = Some p" "isolates w p = Some v" "slot0 v = Some c"
    and hands: "in_hands (set as) i p c w"
  shows "\<exists>w'. shutdown A i as w = Ok () w' \<and> isolates w' = (isolates w)(p := None) \<and>
     mctxs w' = mctxs w |` (- insert c (contexts_of (set as) w)) \<and>
     mvals w' = values_outside (insert c (contexts_of (set as) w)) (mvals w) \<and>
     world_ok w' \<and> hosted w'"
proof -
  let ?P = "contexts_of (set as) w"
  obtain w1 where w1: "close_all as w = Ok () w1" "closed_world (set as) w w1" using close_all_closes [OF ok cs] by blast
  then have ok1: "world_ok w1" "hosted w1" and i1: "gisos w1 i = Some g" "isolates w1 p = Some v"
    using i by (simp_all add: closed_world_def)
  obtain mc where mc: "mctxs w1 c = Some mc" using internal_live [OF _ i1(2)] ok1(1) i(4) by (auto simp: world_ok_def)
  have "isolates_live w1 c" using ok1(2) mc by (auto simp: hosted_def isolates_live_def)
  note eq = Isolate_Dispose_eq [OF ok1(1) i1(1) i(2) i1(2) i(4) mc this, of A]
  have "sound (blocks w1) {} w1" using ok1 by (simp add: sound_def clean_def)
  then have "safely (sound (blocks w1) {}) (Isolate_Dispose A i w1)"
    by (rule safe_Isolate_Dispose) (use vacant_closed [OF hands w1(2) i] in \<open>simp_all add: owned_def\<close>)
  then have good: "world_ok (iso_disposed A i g p c mc w1)" "hosted (iso_disposed A i g p c mc w1)"
    by (simp_all add: eq sound_def clean_def)
  have "mvals (iso_disposed A i g p c mc w1) = values_outside (insert c ?P) (mvals w)"
    using w1(2) ctx_freed_values [OF ok1(1) mc] by (simp add: iso_disposed_def closed_world_def)
  moreover have "mctxs (iso_disposed A i g p c mc w1) = mctxs w |` (- insert c ?P)"
    using w1(2) by (auto simp: iso_disposed_def closed_world_def fun_eq_iff restrict_map_def)
  moreover have "isolates (iso_disposed A i g p c mc w1) = (isolates w)(p := None)"
    using w1(2) by (simp add: iso_disposed_def closed_world_def)
  ultimately show ?thesis using w1(1) eq good by (simp add: shutdown_def)
qed

theorem orderly_shutdown_witness:
  "\<exists>w'. shutdown sample 1 [3, 3] demo_world = Ok () w' \<and> isolates w' = (\<lambda>_. None) \<and> mctxs w' = (\<lambda>_. None) \<and> mvals w' = (\<lambda>_. None)"
proof -
  have P: "contexts_of (set [3, 3]) demo_world = {6}" by (auto simp: contexts_of_def)
  have "in_hands (set [3, 3]) 1 2 3 demo_world"
    unfolding in_hands_def P by (auto simp: demo_world_def split: if_splits)
  then have "\<exists>w'. shutdown sample 1 [3, 3] demo_world = Ok () w' \<and> isolates w' = (isolates demo_world)(2 := None) \<and>
     mctxs w' = mctxs demo_world |` (- insert 3 {6}) \<and> mvals w' = values_outside (insert 3 {6}) (mvals demo_world) \<and>
     world_ok w' \<and> hosted w'"
    using orderly_shutdown [OF demo_world_ok _ _ demo_isolate, of "[3, 3]" 2 "\<lparr>slot0 = Some 3\<rparr>" 3 sample] demo_held P
    by (simp add: healthy_def)
  moreover have "mctxs demo_world |` (- insert 3 {6}) = (\<lambda>_. None)" "values_outside (insert 3 {6}) (mvals demo_world) = (\<lambda>_. None)"
    by (auto simp: demo_world_def restrict_map_def values_outside_def fun_eq_iff)
  ultimately show ?thesis by (elim ex_forward) simp
qed

end
