(* ===== verification/Scripting.thy ===== *)
theory Scripting
  imports Api Sample
begin

text \<open>
  What the package promises about running JavaScript: a call from JavaScript reaches the right Go
  closure with the right arguments, a script returns its value or a Go error with the texts of the
  exception, and unbound scripts are compiled, owned, run and cached. Each theorem with hypotheses
  is instantiated on the sample environment.
\<close>

section \<open>Calls from JavaScript into Go\<close>

text \<open>What the JavaScript caller gets for the value a closure returned.\<close>

definition js_return :: "Value option \<Rightarrow> ('j option, 'e, 'j, 'cb) op" where
  "js_return val w = (case Option.bind val v_ptr of None \<Rightarrow> Ok None w
     | Some q \<Rightarrow> (case mvals w q of None \<Rightarrow> Fault Segv w | Some mv \<Rightarrow> Ok (Some (mv_ptr mv)) w))"

lemma js_return_eq:
  "js_return val = (\<lambda>w. bindR (case val of None \<Rightarrow> Ok None w | Some v \<Rightarrow> Ok (v_ptr v) w) (\<lambda>val w.
     case val of None \<Rightarrow> Ok None w
     | Some p \<Rightarrow> (case mvals w p of None \<Rightarrow> Fault Segv w | Some mv \<Rightarrow> Ok (Some (mv_ptr mv)) w)))"
  by (auto simp: js_return_def fun_eq_iff split: option.splits)

text \<open>The wrapped receiver and arguments of a call in the context at \<open>a\<close>.\<close>

definition call_info :: "addr \<Rightarrow> addr \<Rightarrow> addr list \<Rightarrow> FunctionCallbackInfo" where
  "call_info a t ps = \<lparr>fi_ctx = Some a, fi_args = map (\<lambda>q. \<lparr>v_ptr = Some q, v_ctx = Some a\<rparr>) ps,
     fi_this = Object \<lparr>v_ptr = Some t, v_ctx = Some a\<rparr>\<rparr>"

lemma FunctionTemplateCallback_dispatch:
  assumes ok: "world_ok w" and a: "gctxs w a = Some c" "c_ptr c = Some p"
    and cb: "gisos w (c_iso c) = Some i" "getCallback cbr i = Some cb"
    and mem: "brk w + Suc (length args) \<le> mem_limit"
  shows "\<exists>t ps w1. FunctionTemplateCallback B isop (c_ref c) cbr this args w = bindR (B cb (call_info a t ps) w1) js_return \<and>
     distinct (t # ps) \<and> set (t # ps) \<inter> retained w p = {} \<and> retained w1 p = retained w p \<union> set (t # ps) \<and>
     map (\<lambda>q. map_option mv_ptr (mvals w1 q)) (t # ps) = map Some (this # args) \<and>
     blocks w1 = blocks w \<and> v8 w1 = v8 w \<and> reg w1 = reg w"
proof -
  have hok: "heap_ok w" using ok by (simp add: world_ok_def)
  have p: "mctxs w p \<noteq> None" "getContext (c_ref c) (reg w) = Some a" using gctxsD(3) [OF ok a] by auto
  obtain qs w1 where new: "new_values isop (Some p) (this # args) w = Ok qs w1"
    using new_values_succeed [OF hok p(1), of "this # args" isop] mem by (auto simp del: new_values.simps)
  note S = new_values_spec [OF hok new]
  from S obtain t ps where qs: "qs = t # ps" and len: "length ps = length args" by (cases qs) auto
  have "goContext (c_ref c) w = Ok (Some p) w" using p(2) a by (simp add: goContext_def)
  moreover have "goFunctionCallback B (c_ref c) cbr qs (length args) w1
     = bindR (B cb (call_info a t ps) w1) (\<lambda>val w. case val of None \<Rightarrow> Ok None w | Some v \<Rightarrow> Ok (v_ptr v) w)"
    using S p(2) a cb qs len by (auto simp: goFunctionCallback_def call_info_def same_go_def Let_def)
  ultimately have "FunctionTemplateCallback B isop (c_ref c) cbr this args w = bindR (B cb (call_info a t ps) w1) js_return"
    using new by (simp add: FunctionTemplateCallback_def bindR_assoc js_return_eq [symmetric] del: new_values.simps)
  moreover have "set qs \<inter> retained w p = {}" using S by (auto simp: retained_def)
  ultimately show ?thesis using S qs by (intro exI [of _ t] exI [of _ ps] exI [of _ w1]) (auto simp: same_go_def)
qed

text \<open>
  C11: a call from JavaScript reaches exactly the closure that was registered, with the context
  the call is made in, the receiver, and all arguments in order, each wrapped in a new value that
  the context tracks; JavaScript gets what the closure returned.
\<close>

theorem callback_dispatch:
  assumes ok: "world_ok w" and a: "gctxs w a = Some c" "c_ptr c = Some p"
    and cb: "gisos w (c_iso c) = Some i" "getCallback cbr i = Some cb"
    and mem: "brk w + Suc (length args) \<le> mem_limit"
  shows "\<exists>t ps w1. FunctionTemplateCallback B isop (c_ref c) cbr this args w = bindR (B cb (call_info a t ps) w1) js_return \<and>
     distinct (t # ps) \<and> set (t # ps) \<inter> retained w p = {} \<and> retained w1 p = retained w p \<union> set (t # ps) \<and>
     map (\<lambda>q. map_option mv_ptr (mvals w1 q)) (t # ps) = map Some (this # args) \<and>
     blocks w1 = blocks w \<and> v8 w1 = v8 w \<and> reg w1 = reg w"
  by (rule FunctionTemplateCallback_dispatch [OF assms])

text \<open>The demonstration state with closure 7 registered under reference 1.\<close>

definition demo_cb :: "(bytes, jv, nat) world" where
  "demo_cb = (case Isolate_registerCallback 1 7 demo_world of Ok _ w \<Rightarrow> w)"

lemma demo_registered:
  "Isolate_registerCallback 1 7 demo_world = Ok 1 demo_cb"
  "demo_cb = demo_world\<lparr>gbrk := 5, gisos := (gisos demo_world)(1 \<mapsto> \<lparr>i_ptr = Some 2, cbSeq = 1, cbs = [1 \<mapsto> 7],
    i_null = Some \<lparr>v_ptr = Some 4, v_ctx = None\<rparr>, i_undefined = Some \<lparr>v_ptr = Some 5, v_ctx = None\<rparr>\<rparr>)\<rparr>"
  by (simp_all add: demo_cb_def Isolate_registerCallback_def with_isolate_def demo_isolate go_new_def mem_limit_def
      registerCallback_def c_long_def)

lemma demo_cb_ok: "world_ok demo_cb"
  using world_registerCallback [OF demo_world_ok, of 1 7] unfolding demo_registered(1) by simp

theorem callback_dispatch_witness:
  "\<exists>t ps w1. FunctionTemplateCallback sample_closure 2 1 1 (JObject 0) [JString ''a'', JString ''b''] demo_cb =
      bindR (sample_closure 7 (call_info 3 t ps) w1) js_return \<and> length ps = 2 \<and> card (retained w1 6) = 3"
proof -
  have r: "retained demo_cb 6 = {}" by (auto simp: retained_def demo_registered(2) demo_world_def split: if_splits)
  from callback_dispatch [OF demo_cb_ok, of 3 "\<lparr>c_ref = 1, c_ptr = Some 6, c_iso = 1\<rparr>" 6 _ 1 7 "[JString ''a'', JString ''b'']"
      sample_closure 2 "JObject 0"]
  obtain t ps w1 where "FunctionTemplateCallback sample_closure 2 1 1 (JObject 0) [JString ''a'', JString ''b''] demo_cb =
      bindR (sample_closure 7 (call_info 3 t ps) w1) js_return" "distinct (t # ps)" "retained w1 6 = set (t # ps)"
      "map (\<lambda>q. map_option mv_ptr (mvals w1 q)) (t # ps) = map Some [JObject 0, JString ''a'', JString ''b'']"
    using r by (auto simp: demo_registered(2) getCallback_def mem_limit_def)
  moreover from this(4) have "length ps = 2" by (auto dest: map_eq_imp_length_eq)
  moreover from calculation have "card (retained w1 6) = 3" using distinct_card [of "t # ps"] by simp
  ultimately show ?thesis by blast
qed

text \<open>
  A function that outlives its context cannot reach Go any more. After Close, a call in the
  closed context panics with a nil dereference in Go, before a value is made or a closure runs.
\<close>

theorem callback_after_close_panics:
  assumes ok: "world_ok w" and a: "gctxs w a = Some c" "c_ptr c = Some p" and closed: "Context_Close a w = Ok u w'"
  shows "FunctionTemplateCallback B isop (c_ref c) cbr this args w' = Fault NilDeref w'"
proof -
  from Context_Close_Ok [OF ok a closed] obtain mc where "w' = ctx_closed a c p mc w" .
  moreover have "reg_ok (reg w)" using ok by (simp add: world_ok_def go_ok_def greg_ok_def)
  ultimately have "getContext (c_ref c) (reg w') = None"
    by (simp add: ctx_closed_def getContext_deregister)
  then show ?thesis by (simp add: FunctionTemplateCallback_def goContext_def)
qed

theorem callback_after_close_panics_witness:
  "\<exists>w'. Context_Close 3 demo_cb = Ok () w' \<and>
     FunctionTemplateCallback sample_closure 2 1 1 (JObject 0) [] w' = Fault NilDeref w'"
proof -
  have c: "gctxs demo_cb 3 = Some \<lparr>c_ref = 1, c_ptr = Some 6, c_iso = 1\<rparr>"
    "mctxs demo_cb 6 = Some \<lparr>mc_iso = 2, mc_vals = [], mc_unboundScripts = [], mc_ptr = JContext 1, mc_nextValId = 0\<rparr>"
    by (simp_all add: demo_registered(2) demo_contexts)
  have "isolates_live demo_cb 6" by (auto simp: isolates_live_def demo_registered(2) demo_world_def)
  from Context_Close_eq [OF demo_cb_ok c(1) _ c(2) this] obtain w' where w': "Context_Close 3 demo_cb = Ok () w'" by simp
  with callback_after_close_panics [OF demo_cb_ok c(1) _ w', of 6 sample_closure 2 1 "JObject 0" "[]"] show ?thesis by simp
qed

lemma release_all_frees:
  assumes "world_ok w" "distinct ps"
    and "\<forall>q \<in> set ps. \<exists>mv. mvals w q = Some mv \<and> mv_ctx mv = Some c \<and> isolates w (mv_iso mv) \<noteq> None"
  shows "\<exists>w'. release_all (map (\<lambda>q. \<lparr>v_ptr = Some q, v_ctx = x\<rparr>) ps) w = Ok () w' \<and> world_ok w' \<and>
     mvals w' = mvals w |` (- set ps) \<and> isolates w' = isolates w"
  using assms
proof (induction ps arbitrary: w)
  case Nil
  then show ?case by simp
next
  case (Cons q ps)
  then obtain mv where q: "mvals w q = Some mv" "mv_ctx mv = Some c" "isolates w (mv_iso mv) \<noteq> None" by auto
  then obtain mc where mc: "mctxs w c = Some mc"
    using Cons.prems(1) by (force simp: world_ok_def heap_ok_def values_ok_def)
  define w1 where "w1 = w\<lparr>mctxs := (mctxs w)(c \<mapsto> untrack (mv_id mv) mc), mvals := (mvals w)(q := None)\<rparr>"
  have rel: "C_ValueRelease (Some q) w = Ok () w1" unfolding w1_def using q mc by (intro C_ValueRelease_eq)
  have ok1: "world_ok w1" using world_C_ValueRelease [OF Cons.prems(1), of "Some q"] rel by simp
  have "\<exists>w'. release_all (map (\<lambda>q. \<lparr>v_ptr = Some q, v_ctx = x\<rparr>) ps) w1 = Ok () w' \<and> world_ok w' \<and>
     mvals w' = mvals w1 |` (- set ps) \<and> isolates w' = isolates w1"
    using Cons.prems ok1 by (intro Cons.IH) (auto simp: w1_def)
  moreover have "mvals w1 |` (- set ps) = mvals w |` (- set (q # ps))" by (auto simp: w1_def restrict_map_def fun_eq_iff)
  moreover have "isolates w1 = isolates w" by (simp add: w1_def)
  ultimately show ?case using rel by (auto simp: Value_Release_def)
qed

text \<open>
  A closure that calls \<open>Release\<close> on its callback info gives every wrapped argument and the
  receiver back: exactly those values are freed, each once.
\<close>

theorem info_release_frees:
  assumes ok: "world_ok w" and dist: "distinct (t # ps)"
    and live: "\<forall>q \<in> set (t # ps). \<exists>mv. mvals w q = Some mv \<and> mv_ctx mv = Some c \<and> isolates w (mv_iso mv) \<noteq> None"
  shows "\<exists>w'. info_Release (call_info a t ps) w = Ok () w' \<and> world_ok w' \<and> mvals w' = mvals w |` (- set (t # ps)) \<and>
     retained w' c = retained w c - set (t # ps)"
proof -
  have app: "release_all (vs @ us) w = bindR (release_all vs w) (\<lambda>_ w. release_all us w)" for vs us and w :: "('x, 'y, 'z) world"
    by (induction vs arbitrary: w) (simp_all add: bindR_assoc)
  have "\<exists>w'. release_all (map (\<lambda>q. \<lparr>v_ptr = Some q, v_ctx = Some a\<rparr>) (ps @ [t])) w = Ok () w' \<and> world_ok w' \<and>
     mvals w' = mvals w |` (- set (ps @ [t])) \<and> isolates w' = isolates w"
    using ok dist live by (intro release_all_frees) auto
  then obtain w' where w': "info_Release (call_info a t ps) w = Ok () w'" "world_ok w'" "mvals w' = mvals w |` (- set (t # ps))"
    by (auto simp: info_Release_def call_info_def app insert_commute)
  moreover have "retained w' c = retained w c - set (t # ps)"
    by (auto simp: retained_def w'(3) restrict_map_def)
  ultimately show ?thesis by blast
qed

theorem info_release_frees_witness:
  "\<exists>w'. info_Release (call_info 3 4 [5]) demo_world = Ok () w' \<and> retained w' 3 = {}"
proof -
  have "retained demo_world 3 = {4, 5}" by (auto simp: retained_def demo_world_def split: if_splits)
  with info_release_frees [OF demo_world_ok, of 4 "[5]" 3 3] show ?thesis by (auto simp: demo_world_def)
qed

section \<open>Running a script\<close>

text \<open>What V8 does with the two C strings of a script: both become V8 strings, then it compiles.\<close>

definition v8_compiles :: "('e, 'j, 'cb) env \<Rightarrow> addr \<Rightarrow> 'j \<Rightarrow> bytes \<Rightarrow> bytes \<Rightarrow> 'e \<Rightarrow> 'e \<times> 'j option" where
  "v8_compiles A i h source origin e =
     (let (e1, s) = v8_new_utf8 A i (c_str source) e; (e2, g) = v8_new_utf8 A i (c_str origin) e1
      in case (s, g) of (Some s, Some g) \<Rightarrow> v8_compile A h s g e2 | _ \<Rightarrow> (e2, None))"

text \<open>A context the client can run scripts in, with memory for the strings and the result.\<close>

definition runnable :: "addr \<Rightarrow> addr \<Rightarrow> 'j m_ctx \<Rightarrow> ('e, 'j, 'cb) world \<Rightarrow> bool" where
  "runnable a p mc w \<longleftrightarrow> world_ok w \<and> (\<exists>c. gctxs w a = Some c \<and> c_ptr c = Some p) \<and> mctxs w p = Some mc \<and>
     isolates w (mc_iso mc) \<noteq> None \<and> brk w + 5 \<le> mem_limit"

definition two_strings :: "bytes \<Rightarrow> bytes \<Rightarrow> ('e, 'j, 'cb) world \<Rightarrow> ('e, 'j, 'cb) world" where
  "two_strings s t w = w\<lparr>brk := Suc (Suc (brk w)),
     blocks := (blocks w)(brk w \<mapsto> Chars (s @ [NUL]), Suc (brk w) \<mapsto> Chars (t @ [NUL]))\<rparr>"

lemma two_strings_Ok:
  assumes ok: "heap_ok w" and mem: "brk w + 2 \<le> mem_limit"
    and body: "body (brk w) (Suc (brk w)) (two_strings s t w) = Ok r w2" and same: "blocks w2 = blocks (two_strings s t w)"
  shows "bindR (CString s w) (\<lambda>p w. bindR (CString t w) (\<lambda>q w.
     defer_free (Some p) (defer_free (Some q) (body p q w)))) = Ok r (w2\<lparr>blocks := blocks w\<rparr>)"
proof -
  have "blocks w (brk w) = None" "blocks w (Suc (brk w)) = None" using heap_okD_fresh [OF ok] by simp_all
  then have "(blocks w)(brk w := None, Suc (brk w) := None) = blocks w" by (auto simp: fun_eq_iff)
  then show ?thesis
    using mem body same
    by (simp add: CString_def malloc_def c_new_def two_strings_def cfree_def fun_upd_twist)
qed

lemma C_RunScript_compiled:
  assumes run: "runnable a p mc w"
    and comp: "v8_compiles A (mc_iso mc) (mc_ptr mc) source origin (v8 w) = (e1, script)"
  shows "C_RunScript A (Some p) (brk w) (Suc (brk w)) (two_strings source origin w) =
     (case script of None \<Rightarrow> fail_value A (mc_iso mc) ((two_strings source origin w)\<lparr>v8 := e1\<rparr>)
      | Some s \<Rightarrow> bindR (run A (mc_iso mc) (v8_run A (mc_ptr mc) s) ((two_strings source origin w)\<lparr>v8 := e1\<rparr>))
                    (\<lambda>result w. rtn_of A (mc_iso mc) (Some p) result w))"
  using run comp
  by (auto simp: C_RunScript_def local_context_def runnable_def two_strings_def utf8_arg_def ask_def v8_compiles_def
      Let_def case_prod_beta split: option.splits)

text \<open>
  C12: a script that runs to a value returns that value to Go: a new value, tracked by the context,
  that refers to what the script evaluated to. The C strings of source and origin are freed.
\<close>

theorem run_script_value:
  assumes run: "runnable a p mc w"
    and comp: "v8_compiles A (mc_iso mc) (mc_ptr mc) source origin (v8 w) = (e1, Some s)"
    and res: "v8_run A (mc_ptr mc) s e1 = Done e2 (Some j)"
  shows "\<exists>v w'. RunScript A a source origin w = Ok (Inr \<lparr>v_ptr = Some v, v_ctx = Some a\<rparr>) w' \<and> mvals w v = None \<and>
     map_option mv_ptr (mvals w' v) = Some j \<and> retained w' p = insert v (retained w p) \<and>
     blocks w' = blocks w \<and> v8 w' = e2"
proof -
  have ok: "heap_ok w" and mem: "brk w + 2 \<le> mem_limit" using run by (auto simp: runnable_def world_ok_def)
  let ?v = "Suc (Suc (brk w))"
  define w2 where "w2 = (two_strings source origin w)\<lparr>v8 := e2, brk := Suc ?v,
     mctxs := (mctxs w)(p \<mapsto> snd (track ?v mc)), mvals := (mvals w)(?v \<mapsto> \<lparr>mv_id = c_long (mc_nextValId mc + 1),
       mv_iso = mc_iso mc, mv_ctx = Some p, mv_ptr = j\<rparr>)\<rparr>"
  have "rtn_of A (mc_iso mc) (Some p) (Some j) ((two_strings source origin w)\<lparr>v8 := e2\<rparr>) =
      Ok \<lparr>rtn_value = Some ?v, rtn_error = no_error\<rparr> w2"
    using run by (simp add: rtn_of_def give_value_def new_value_def c_new_def tracked_value_def track_def Let_def
        two_strings_def w2_def runnable_def)
  then have "RunScript A a source origin w = Ok (Inr \<lparr>v_ptr = Some ?v, v_ctx = Some a\<rparr>) (w2\<lparr>blocks := blocks w\<rparr>)"
    unfolding RunScript_def using run C_RunScript_compiled [OF run comp] res
    by (intro two_strings_Ok [OF ok mem]) (auto simp: with_context_def runnable_def run_def valueResult_def two_strings_def w2_def)
  moreover have "mvals w ?v = None" using heap_okD_fresh [OF ok, of ?v] by simp
  moreover have "retained (w2\<lparr>blocks := blocks w\<rparr>) p = insert ?v (retained w p)"
    using calculation(2) by (auto simp: retained_def w2_def two_strings_def)
  ultimately show ?thesis by (auto simp: w2_def two_strings_def)
qed

lemma demo_runnable: "runnable 3 6 \<lparr>mc_iso = 2, mc_vals = [], mc_unboundScripts = [], mc_ptr = JContext 1, mc_nextValId = 0\<rparr> demo_world"
  using demo_world_ok by (simp add: runnable_def mem_limit_def)

theorem run_script_value_witness:
  "\<exists>v w'. RunScript sample 3 ''1+1'' ''x.js'' demo_world = Ok (Inr \<lparr>v_ptr = Some v, v_ctx = Some 3\<rparr>) w' \<and>
     map_option mv_ptr (mvals w' v) = Some (JString ''1+1'') \<and> blocks w' = (\<lambda>_. None)"
  using run_script_value [OF demo_runnable, of sample "''1+1''" "''x.js''" "[]" "JScript ''1+1''" "[]" "JString ''1+1''"]
  by (auto simp: v8_compiles_def sample_def sample_run_def c_str_def)



text \<open>
  After Close the Go struct has no C++ context any more, and running a script in it is a read
  through a null pointer in C++, which no \<open>recover\<close> can catch.
\<close>

theorem run_script_closed_crashes:
  assumes "ctx_is_closed a w" "brk w + 2 \<le> mem_limit"
  shows "\<exists>w'. RunScript A a source origin w = Fault Segv w'"
  using assms
  by (auto simp: ctx_is_closed_def RunScript_def CString_def malloc_def c_new_def with_context_def C_RunScript_def local_context_def)

theorem run_script_closed_crashes_witness:
  "\<exists>w w'. Context_Close 3 demo_world = Ok () w \<and> RunScript sample 3 ''1'' ''x.js'' w = Fault Segv w'"
proof -
  have "isolates_live demo_world 6" by (auto simp: isolates_live_def demo_world_def)
  from Context_Close_eq [OF demo_world_ok _ _ demo_contexts(1) this, of 3]
  obtain w where w: "Context_Close 3 demo_world = Ok () w" "brk w = 7" by (auto simp: ctx_closed_def)
  then have "ctx_is_closed 3 w" using ctx_close.disposes [OF demo_world_ok] by blast
  with w run_script_closed_crashes [of 3 w sample] show ?thesis by (auto simp: mem_limit_def)
qed

text \<open>
  C23: an exception arrives in Go as it was: whenever \<open>ExceptionError\<close> has copied an exception
  into C strings, \<open>newJSError\<close> makes of them the error with the texts of the exception, each up to
  its first NUL byte, and frees exactly the strings that were copied.
\<close>

theorem exception_round_trip:
  assumes "world_ok w" "brk w + 3 \<le> mem_limit"
  shows "\<exists>r w1. ExceptionError x w = Ok r w1 \<and>
     newJSError r w1 = Ok (JSErr (js_error_of x)) (w\<lparr>brk := brk w + strings_of x\<rparr>)"
proof -
  obtain r w1 where "ExceptionError x w = Ok r w1" using ExceptionError_succeeds [OF assms(2)] by blast
  with newJSError_ExceptionError [OF _ this] assms(1) show ?thesis by (auto simp: world_ok_def)
qed

theorem exception_round_trip_witness:
  "\<exists>r w1. ExceptionError (sample_exn ''Error: boom'') demo_world = Ok r w1 \<and> newJSError r w1 =
     Ok (JSErr \<lparr>Message = ''Error: boom'', Location = ''x.js:3:5'', StackTrace = ''Error: boom at x.js:3:5''\<rparr>) (demo_world\<lparr>brk := 10\<rparr>)"
proof -
  have "js_error_of (sample_exn ''Error: boom'') = \<lparr>Message = ''Error: boom'', Location = ''x.js:3:5'',
      StackTrace = ''Error: boom at x.js:3:5''\<rparr>" "strings_of (sample_exn ''Error: boom'') = 3"
    by (simp_all add: js_error_of_def sample_exn_def location_text_def c_str_def dec_int_def dec_nat.simps char_of_def
        bit_Suc_0_iff strings_of_def)
  with exception_round_trip [OF demo_world_ok, of "sample_exn ''Error: boom''"] show ?thesis by (simp add: mem_limit_def)
qed

section \<open>Unbound scripts\<close>

text \<open>What V8 is asked for a compilation with these options: the cached bytes and the compile option.\<close>

definition compile_request :: "CompileOptions \<Rightarrow> (bytes option \<times> int) option" where
  "compile_request opts = (case co_CachedData opts of
       None \<Rightarrow> Some (None, co_Mode opts)
     | Some cd \<Rightarrow> if co_Mode opts = 0 \<and> cd_Bytes cd \<noteq> [] then Some (Some (cd_Bytes cd), ScriptCompilerConsumeCodeCache) else None)"



text \<open>
  C37: the options of a compilation are checked after the C strings are made, which are freed when
  a check panics: cached data together with a mode is refused, and so is cached data without a
  single byte, by an index out of range.
\<close>

theorem compile_options_checked:
  assumes ok: "world_ok w" and mem: "brk w + 2 \<le> mem_limit" and bad: "compile_request opts = None"
  shows "CompileUnboundScript A a source origin opts w =
     Fault (if co_Mode opts \<noteq> 0 then PanicText ''On CompileOptions, Mode and CachedData can't both be set'' else IndexOutOfRange)
       (w\<lparr>brk := brk w + 2\<rparr>)"
proof -
  have "blocks w (brk w) = None" "blocks w (Suc (brk w)) = None"
    using ok heap_okD_fresh [of w] by (auto simp: world_ok_def)
  then have "(blocks w)(brk w := None, Suc (brk w) := None) = blocks w" by (auto simp: fun_eq_iff)
  then show ?thesis
    using bad mem
    by (auto simp: CompileUnboundScript_def compile_request_def CString_def malloc_def c_new_def cfree_def fun_upd_twist
        split: option.splits if_splits)
qed

theorem compile_options_checked_witness:
  "CompileUnboundScript sample 1 ''1'' ''x.js'' \<lparr>co_CachedData = Some \<lparr>cd_Bytes = [], cd_Rejected = False\<rparr>, co_Mode = 0\<rparr> demo_world =
     Fault IndexOutOfRange (demo_world\<lparr>brk := 9\<rparr>)"
  using compile_options_checked [OF demo_world_ok, where A = sample and a = 1 and source = "''1''" and origin = "''x.js''"
      and opts = "\<lparr>co_CachedData = Some \<lparr>cd_Bytes = [], cd_Rejected = False\<rparr>, co_Mode = 0\<rparr>"]
  by (simp add: compile_request_def mem_limit_def)

text \<open>
  C28: an unbound script runs only in contexts of the isolate it was compiled in. There it is
  bound, run, and its value returned as a new value tracked by the context; in a context of
  another isolate the call panics before V8 is entered.
\<close>

theorem run_unbound:
  assumes run: "runnable a p mc w" and us: "mscripts w s = Some mu"
    and bound: "v8_bind A (mc_ptr mc) (mu_ptr mu) (v8 w) = (e1, b)" and res: "v8_run A (mc_ptr mc) b e1 = Done e2 (Some j)"
    and c: "gctxs w a = Some c"
  shows "if c_iso c = i then
       \<exists>v w'. UnboundScript_Run A \<lparr>us_ptr = Some s, us_iso = i\<rparr> a w = Ok (Inr \<lparr>v_ptr = Some v, v_ctx = Some a\<rparr>) w' \<and>
         mvals w v = None \<and> map_option mv_ptr (mvals w' v) = Some j \<and> retained w' p = insert v (retained w p) \<and> v8 w' = e2
     else UnboundScript_Run A \<lparr>us_ptr = Some s, us_iso = i\<rparr> a w =
       Fault (PanicText ''attempted to run unbound script in a context that belongs to a different isolate'') w"
proof (cases "c_iso c = i")
  case True
  have ok: "heap_ok (w\<lparr>v8 := e2\<rparr>)" using run by (simp add: runnable_def world_ok_def)
  obtain v w' where new: "new_value (mc_iso mc) (Some p) j (w\<lparr>v8 := e2\<rparr>) = Ok v w'"
    and v: "mvals w v = None" "map_option mv_ptr (mvals w' v) = Some j" "retained w' p = insert v (retained w p)" "v8 w' = e2"
    by (rule new_value_succeeds [OF ok, of p mc "mc_iso mc" j]) (use run in \<open>auto simp: runnable_def\<close>)
  have "UnboundScript_Run A \<lparr>us_ptr = Some s, us_iso = i\<rparr> a w = Ok (Inr \<lparr>v_ptr = Some v, v_ctx = Some a\<rparr>) w'"
    using run us bound res c True new
    by (auto simp: UnboundScript_Run_def Context_Isolate_def with_context_def C_UnboundScriptRun_def local_context_def
        runnable_def ask_def run_def rtn_of_def give_value_def valueResult_def)
  with v True show ?thesis by auto
next
  case False
  then show ?thesis using c by (auto simp: UnboundScript_Run_def Context_Isolate_def with_context_def)
qed

text \<open>The demonstration state with the script \<open>1+1\<close> compiled.\<close>

definition demo_script :: "(bytes, jv, nat) world" where
  "demo_script = demo_world\<lparr>brk := 8, mscripts := [7 \<mapsto> \<lparr>mu_ptr = JScript ''1+1''\<rparr>],
     mctxs := (mctxs demo_world)(3 \<mapsto> \<lparr>mc_iso = 2, mc_vals = [(1, 4), (2, 5)], mc_unboundScripts = [7], mc_ptr = JContext 0, mc_nextValId = 2\<rparr>)\<rparr>"

lemma demo_script_ok: "world_ok demo_script"
  using world_new_unbound_script [OF demo_world_ok, of 3 "JScript ''1+1''"]
  by (simp add: new_unbound_script_def c_new_def tracked_unbound_script_def mem_limit_def demo_script_def)

theorem run_unbound_witness:
  "(\<exists>v w'. UnboundScript_Run sample \<lparr>us_ptr = Some 7, us_iso = 1\<rparr> 3 demo_script = Ok (Inr \<lparr>v_ptr = Some v, v_ctx = Some 3\<rparr>) w' \<and>
     map_option mv_ptr (mvals w' v) = Some (JString ''1+1'')) \<and>
   UnboundScript_Run sample \<lparr>us_ptr = Some 7, us_iso = 9\<rparr> 3 demo_script =
     Fault (PanicText ''attempted to run unbound script in a context that belongs to a different isolate'') demo_script"
proof -
  have r: "runnable 3 6 \<lparr>mc_iso = 2, mc_vals = [], mc_unboundScripts = [], mc_ptr = JContext 1, mc_nextValId = 0\<rparr> demo_script"
    "mscripts demo_script 7 = Some \<lparr>mu_ptr = JScript ''1+1''\<rparr>" "gctxs demo_script 3 = Some \<lparr>c_ref = 1, c_ptr = Some 6, c_iso = 1\<rparr>"
    using demo_script_ok by (simp_all add: runnable_def demo_script_def mem_limit_def)
  show ?thesis
    using run_unbound [OF r(1,2) _ _ r(3), where A = sample and i = 1 and j = "JString ''1+1''"]
      run_unbound [OF r(1,2) _ _ r(3), where A = sample and i = 9 and j = "JString ''1+1''"]
    by (auto simp: sample_def sample_run_def)
qed

text \<open>
  CreateCodeCache returns all bytes of V8's code cache and whether V8 rejected them, and
  deletes the C copy, as long as the cache has fewer than 2^31 bytes.
\<close>

theorem code_cache_copied:
  assumes ok: "world_ok w" and g: "gisos w a = Some g" "i_ptr g = Some q" and us: "mscripts w s = Some mu"
    and mem: "brk w < mem_limit" and cache: "v8_code_cache A (mu_ptr mu) (v8 w) = (data, rejected)" "length data < 2 ^ 31"
  shows "CreateCodeCache A \<lparr>us_ptr = Some s, us_iso = a\<rparr> w =
     Ok \<lparr>cd_Bytes = data, cd_Rejected = rejected\<rparr> (w\<lparr>brk := Suc (brk w)\<rparr>)"
proof -
  have "blocks w (brk w) = None" using ok heap_okD_fresh [of w "brk w"] by (simp add: world_ok_def)
  then have "(blocks w)(brk w := None) = blocks w" by (simp add: fun_upd_idem)
  moreover have "c_int (int (length data)) = int (length data)" using cache(2) by (simp add: c_int_id)
  ultimately show ?thesis
    using g us mem cache gisosD(3) [OF ok g]
    by (auto simp: CreateCodeCache_def with_isolate_def C_UnboundScriptCreateCodeCache_def isolate_scope_def malloc_def
        c_new_def GoStringN_def C_ScriptCompilerCachedDataDelete_def cfree_def)
qed

theorem code_cache_copied_witness:
  "CreateCodeCache sample \<lparr>us_ptr = Some 7, us_iso = 1\<rparr> demo_script = Ok \<lparr>cd_Bytes = ''1+1'', cd_Rejected = False\<rparr> (demo_script\<lparr>brk := 9\<rparr>)"
  using code_cache_copied [OF demo_script_ok, where A = sample and a = 1 and s = 7 and q = 2 and data = "''1+1''"]
  by (simp add: demo_script_def mem_limit_def sample_def)

end
