(* ===== verification/Lifetime.thy ===== *)
theory Lifetime
  imports Api Sample
begin

text \<open>
  What the package promises about the lifetime of contexts, isolates and values: the invariant in
  every reachable state, no leaked block, what Close, Dispose and Release free, the references
  under which contexts and closures are found, initialisation, options and heap statistics. Each
  theorem with hypotheses is instantiated on the sample environment.
\<close>

text \<open>The state of a process that has made one context, reached by one call.\<close>

lemma demo_reached: "play sample [On_context (Call_NewContext [])] (init_world []) = Some demo_world"
  by (simp add: answer_def demo_NewContext)

section \<open>Every reachable state\<close>

text \<open>
  C3: whatever calls a client makes, in any order, with any arguments, returning or panicking,
  the state of the process satisfies the invariant of both heaps: every value handed to Go is
  entered in the table of exactly one live context under its own number, every open context is
  registered under its own reference and points to its own C++ context, every isolate not
  disposed of points to its own V8 isolate with a live internal context.
\<close>

theorem reachable_world_ok:
  assumes "bodies_ok (closures A)" "(go_step A)\<^sup>*\<^sup>* (init_world e) w"
  shows "world_ok w"
  using client.reachable_inv [OF rangeI assms(2)] assms(1) by (simp add: client_inv_def)

theorem reachable_world_ok_witness:
  "bodies_ok (closures sample) \<and> (go_step sample)\<^sup>*\<^sup>* (init_world []) demo_world \<and> world_ok demo_world"
proof -
  have "(go_step sample)\<^sup>*\<^sup>* (init_world []) demo_world"
    using demo_reached go_steps_play by blast
  then show ?thesis using reachable_world_ok [OF sample_bodies_ok] sample_bodies_ok by blast
qed


lemma sample_bodies_clean: "bodies_clean (closures sample)"
  by (simp add: bodies_clean_def sample_closure_def)


section \<open>Contexts\<close>

text \<open>
  C9: closing a context frees exactly what belongs to it. While the isolates of its values are
  live, Close returns; afterwards the C++ context, the values it retained and its unbound scripts
  are gone, no other is, its reference leads nowhere and all other references lead where they did.
\<close>

theorem close_frees_exactly:
  assumes ok: "world_ok w" and a: "gctxs w a = Some c" "c_ptr c = Some p" and live: "isolates_live w p"
  shows "\<exists>w' mc. Context_Close a w = Ok () w' \<and> mctxs w p = Some mc \<and> mctxs w' = (mctxs w)(p := None) \<and>
     mvals w' = mvals w |` (- retained w p) \<and> mscripts w' = mscripts w |` (- set (mc_unboundScripts mc)) \<and>
     (\<lambda>r. getContext r (reg w')) = (\<lambda>r. getContext r (reg w))(c_ref c := None) \<and>
     blocks w' = blocks w \<and> isolates w' = isolates w"
proof -
  obtain mc where mc: "mctxs w p = Some mc" using gctxsD(3) [OF ok a] by auto
  note close = Context_Close_eq [OF ok a mc live]
  have "retained w p = snd ` set (mc_vals mc)"
    using ok mc by (intro retained_entries) (auto simp: world_ok_def)
  moreover have "reg_ok (reg w)" using ok by (simp add: world_ok_def go_ok_def greg_ok_def)
  ultimately show ?thesis
    using close mc by (auto simp: ctx_closed_def ctx_freed_def fun_eq_iff getContext_deregister)
qed

lemma demo_isolates_live: "isolates_live demo_world 6"
  by (auto simp: isolates_live_def demo_world_def)

theorem close_frees_exactly_witness:
  "\<exists>w'. Context_Close 3 demo_world = Ok () w' \<and> mctxs w' 6 = None \<and> getContext 1 (reg w') = None"
  using close_frees_exactly [OF demo_world_ok _ _ demo_isolates_live, of 3 "\<lparr>c_ref = 1, c_ptr = Some 6, c_iso = 1\<rparr>"]
  by (auto simp: fun_eq_iff)

text \<open>Closing a context again, any number of times, returns and changes nothing.\<close>

theorem close_idempotent:
  assumes "world_ok w" "Context_Close a w = Ok () w'"
  shows "((\<lambda>r. bindR r (\<lambda>_. Context_Close a)) ^^ n) (Context_Close a w) = Ok () w'"
  using assms by (rule ctx_close.many)

theorem close_idempotent_witness:
  "\<exists>w'. Context_Close 3 demo_world = Ok () w' \<and> bindR (Context_Close 3 demo_world) (\<lambda>_. Context_Close 3) = Ok () w'"
proof -
  obtain w' where w': "Context_Close 3 demo_world = Ok () w'"
    using Context_Close_eq [OF demo_world_ok _ _ _ demo_isolates_live, of 3 "\<lparr>c_ref = 1, c_ptr = Some 6, c_iso = 1\<rparr>"]
    by (auto simp: demo_world_def)
  with close_idempotent [OF demo_world_ok w', of 1] show ?thesis by auto
qed

text \<open>
  C19: creating a context in a live isolate, with memory left, succeeds. The new context has a
  C++ context of its own with no values, the next reference in sequence, which leads to it and
  to no other; every other reference still leads where it did.
\<close>

theorem new_context_registers:
  assumes ok: "world_ok w" and i: "gisos w i = Some g" "i_ptr g = Some q"
    and mem: "brk w < mem_limit" "gbrk w + 2 \<le> mem_limit"
  shows "\<exists>a w' c p. NewContext A [OptIsolate (Some i)] w = Ok a w' \<and> gctxs w a = None \<and> gctxs w' a = Some c \<and>
     c_ref c = ctxSeq (reg w) + 1 \<and> c_ptr c = Some p \<and> c_iso c = i \<and> mctxs w p = None \<and> retained w' p = {} \<and>
     (\<lambda>r. getContext r (reg w')) = (\<lambda>r. getContext r (reg w))(c_ref c \<mapsto> a)"
proof -
  have hok: "heap_ok w" and gok: "gheap_ok w" "greg_ok w" using ok by (auto simp: world_ok_def go_ok_def)
  let ?ref = "ctxSeq (reg w) + 1"
  have seq: "0 \<le> ctxSeq (reg w)" "?ref < 2 ^ 63" "reg_ok (reg w)"
    using gok(2) mem by (auto simp: greg_ok_def reg_ok_def mem_limit_def)
  then have free: "ctxRegistry ((reg w)\<lparr>ctxSeq := ?ref\<rparr>) ?ref = None" by (simp add: reg_ok_unused)
  have live: "isolates w q \<noteq> None" using gisosD(3) [OF ok i] .
  have fresh: "mctxs w (brk w) = None" "gctxs w (Suc (gbrk w)) = None"
    using heap_okD_fresh [OF hok, of "brk w"] gok(1) by (auto simp: gheap_ok_def)
  have "retained w (brk w) = {}"
    using hok fresh(1) by (force simp: retained_def heap_ok_def values_ok_def)
  moreover have "(\<lambda>r. getContext r ((reg w)\<lparr>ctxSeq := ?ref\<rparr>)) = (\<lambda>r. getContext r (reg w))"
    by (simp add: getContext_def)
  ultimately show ?thesis
    using i mem live fresh next_ref_eq [OF seq(1,2)] getContext_register_fresh [OF free]
    by (auto simp: NewContext_def context_options_def new_template_def go_new_def open_context_def with_isolate_def
        with_template_def C_NewContext_def isolate_scope_def ask_def c_new_def case_prod_beta Let_def retained_def fun_eq_iff)
qed

theorem new_context_registers_witness:
  "\<exists>a w'. NewContext sample [OptIsolate (Some 1)] demo_world = Ok a w' \<and> getContext 2 (reg w') = Some a \<and> getContext 1 (reg w') = Some 3"
proof -
  from new_context_registers [OF demo_world_ok demo_isolate, where q = 2 and A = sample] show ?thesis
    by (auto simp: mem_limit_def fun_eq_iff getContext_def)
qed

text \<open>
  The references drawn by any sequence of NewContext calls are pairwise distinct, and each
  leads to the context it was drawn for, also when references drawn before are looked up.
\<close>

theorem context_refs_distinct:
  assumes "reg_ok g" "reg_room (length as) g" "allocs new_ref as g = (rs, g')"
  shows "length rs = length as \<and> distinct rs \<and> (\<forall>i < length as. getContext (rs ! i) g' = Some (as ! i)) \<and>
     (\<forall>r a. getContext r g = Some a \<longrightarrow> r \<notin> set rs \<and> getContext r g' = Some a)"
  using ctx_table.allocs_handles [OF assms] ctx_table.allocs_keep [OF assms] by blast

theorem context_refs_distinct_witness:
  "fst (allocs new_ref [10, 11] (reg demo_world)) = [2, 3] \<and>
   distinct (fst (allocs new_ref [10, 11] (reg demo_world))) \<and>
   getContext 1 (snd (allocs new_ref [10, 11] (reg demo_world))) = Some 3"
proof -
  have ok: "reg_ok (reg demo_world)" "reg_room (length [10, 11 :: addr]) (reg demo_world)"
    using demo_world_ok by (simp_all add: world_ok_def go_ok_def greg_ok_def reg_room_def)
  have "fst (allocs new_ref [10, 11] (reg demo_world)) = [2, 3]"
    by (simp add: new_ref_def next_ref_def register_def c_long_def)
  moreover have "getContext 1 (reg demo_world) = Some 3" by (simp add: getContext_def)
  ultimately show ?thesis
    using context_refs_distinct [OF ok prod.collapse [symmetric]] by auto
qed

text \<open>
  C22: the references of the closures an isolate registers are pairwise distinct, each leads to
  its closure, and a reference handed out before keeps its closure.
\<close>

theorem callback_refs_distinct:
  assumes "cbs_ok i" "cbs_room (length fs) i" "allocs registerCallback fs i = (rs, i')"
  shows "length rs = length fs \<and> distinct rs \<and> (\<forall>k < length fs. getCallback (rs ! k) i' = Some (fs ! k)) \<and>
     (\<forall>r f. getCallback r i = Some f \<longrightarrow> r \<notin> set rs \<and> getCallback r i' = Some f)"
  using cb_table.allocs_handles [OF assms] cb_table.allocs_keep [OF assms] by blast

theorem callback_refs_distinct_witness:
  "let i = \<lparr>i_ptr = None, cbSeq = 7, cbs = [7 \<mapsto> ''old''], i_null = None, i_undefined = None\<rparr>;
       (rs, i') = allocs registerCallback [''f'', ''g''] i
   in rs = [8, 9] \<and> getCallback 8 i' = Some ''f'' \<and> getCallback 7 i' = Some ''old''"
proof -
  let ?i = "\<lparr>i_ptr = None, cbSeq = 7, cbs = [7 \<mapsto> ''old''], i_null = None, i_undefined = None\<rparr>"
  obtain rs i' where a: "allocs registerCallback [''f'', ''g''] ?i = (rs, i')" by fastforce
  have "cbs_ok ?i" "cbs_room (length [''f'', ''g'']) ?i" by (auto simp: cbs_ok_def cbs_room_def)
  note T = callback_refs_distinct [OF this a]
  have rs: "rs = [8, 9]" using a by (auto simp: registerCallback_def c_long_def)
  moreover have "getCallback (rs ! 0) i' = Some ''f''" using T by force
  moreover have "getCallback 7 i' = Some ''old''" using T by (simp add: getCallback_def)
  ultimately show ?thesis unfolding Let_def a by simp
qed



section \<open>Isolates\<close>

text \<open>
  C21: disposing of an isolate returns while its internal context holds values of live isolates;
  it frees the V8 isolate and the internal context with its values and unbound scripts, touches
  no other context, value or isolate, and tells V8 once. Disposing again, any number of times,
  changes nothing.
\<close>

theorem dispose_frees_exactly:
  assumes ok: "world_ok w" and g: "gisos w a = Some g" "i_ptr g = Some p"
    and v: "isolates w p = Some v" "slot0 v = Some c" and live: "isolates_live w c"
  shows "\<exists>w' mc. Isolate_Dispose A a w = Ok () w' \<and> mctxs w c = Some mc \<and> isolates w' = (isolates w)(p := None) \<and>
     mctxs w' = (mctxs w)(c := None) \<and> mvals w' = mvals w |` (- retained w c) \<and>
     mscripts w' = mscripts w |` (- set (mc_unboundScripts mc)) \<and> blocks w' = blocks w \<and>
     v8 w' = v8_dispose A p (v8 w) \<and>
     ((\<lambda>r. bindR r (\<lambda>_. Isolate_Dispose A a)) ^^ n) (Isolate_Dispose A a w) = Ok () w'"
proof -
  obtain mc where mc: "mctxs w c = Some mc" using internal_live [OF _ v(1)] ok v(2) by (auto simp: world_ok_def)
  note once = Isolate_Dispose_eq [OF ok g v mc live, of A]
  have "retained w c = snd ` set (mc_vals mc)"
    using ok mc by (intro retained_entries) (auto simp: world_ok_def)
  with once mc iso_dispose.many [OF TrueI once] show ?thesis
    by (intro exI [of _ "iso_disposed A a g p c mc w"] exI [of _ mc]) (simp add: iso_disposed_def ctx_freed_def)
qed

theorem dispose_frees_exactly_witness:
  "\<exists>w'. bindR (Isolate_Dispose sample 1 demo_world) (\<lambda>_. Isolate_Dispose sample 1) = Ok () w' \<and>
     isolates w' 2 = None \<and> mvals w' 4 = None \<and> mctxs w' 6 \<noteq> None"
proof -
  have live: "isolates_live demo_world 3" by (auto simp: isolates_live_def demo_world_def)
  have "4 \<in> retained demo_world 3" "mctxs demo_world 6 \<noteq> None" by (simp_all add: retained_def demo_world_def)
  with dispose_frees_exactly [OF demo_world_ok demo_isolate _ _ _ live, of 2 "\<lparr>slot0 = Some 3\<rparr>" sample 1]
  show ?thesis by auto
qed

text \<open>
  C39: a context must be closed before its isolate is disposed of. After Dispose, Close of a
  context of that isolate that is still open resets a handle of a freed isolate, which ends the
  process.
\<close>

theorem close_after_dispose_crashes:
  assumes ok: "world_ok w" and g: "gisos w i = Some g" "i_ptr g = Some q"
    and a: "gctxs w a = Some c" "c_ptr c = Some p" "mctxs w p = Some mc" "mc_iso mc = q"
    and disposed: "Isolate_Dispose A i w = Ok u w'"
  shows "\<exists>w''. Context_Close a w' = Fault Segv w''"
proof -
  from Isolate_Dispose_Ok [OF ok g disposed] obtain v d md where d: "isolates w q = Some v" "slot0 v = Some d"
    and w': "w' = iso_disposed A i g q d md w" .
  have "d \<noteq> p" using gctxsD(4) [OF ok a(1,2) d(1)] d(2) by auto
  then have "gctxs w' a = Some c" "mctxs w' p = Some mc" "isolates w' (mc_iso mc) = None"
    using a by (simp_all add: w' iso_disposed_def)
  with a(2) show ?thesis by (simp add: Context_Close_def with_context_def C_ContextFree_def)
qed

theorem close_after_dispose_crashes_witness:
  "\<exists>w' w''. Isolate_Dispose sample 1 demo_world = Ok () w' \<and> Context_Close 3 w' = Fault Segv w''"
proof -
  have live: "isolates_live demo_world 3" by (auto simp: isolates_live_def demo_world_def)
  have disposed: "\<exists>w'. Isolate_Dispose sample 1 demo_world = Ok () w'"
    using Isolate_Dispose_eq [OF demo_world_ok demo_isolate _ _ _ demo_contexts(2) live, of 2 "\<lparr>slot0 = Some 3\<rparr>" sample] by simp
  then obtain w' where w': "Isolate_Dispose sample 1 demo_world = Ok () w'" ..
  with close_after_dispose_crashes [OF demo_world_ok demo_isolate _ _ _ demo_contexts(1) _ w', of 2 3] show ?thesis by simp
qed

section \<open>Values\<close>

text \<open>
  RetainedValueCount is the number of live values of the context, as long as they are fewer
  than 2^31.
\<close>

theorem retained_value_count:
  assumes ok: "world_ok w" and a: "gctxs w a = Some c" "c_ptr c = Some p" and few: "card (retained w p) < 2 ^ 31"
  shows "RetainedValueCount a w = Ok (int (card (retained w p))) w"
proof -
  obtain mc where mc: "mctxs w p = Some mc" using gctxsD(3) [OF ok a] by auto
  have "card (retained w p) = length (mc_vals mc)" using ok mc by (intro card_retained) (auto simp: world_ok_def)
  with few show ?thesis
    using a mc by (simp add: RetainedValueCount_def with_context_def C_ContextRetainedValueCount_def c_int_id)
qed

theorem retained_value_count_witness: "RetainedValueCount 3 demo_world = Ok 0 demo_world"
proof -
  have "retained demo_world 6 = {}" by (auto simp: retained_def demo_world_def split: if_splits)
  with retained_value_count [OF demo_world_ok, of 3 _ 6] show ?thesis by simp
qed

text \<open>
  Releasing a live value frees that value and takes it out of the table of its context, and
  nothing else; a second release of the same value ends the process.
\<close>

theorem release_takes_one:
  assumes ok: "world_ok w" and v: "mvals w p = Some mv" "mv_ctx mv = Some c" "isolates w (mv_iso mv) \<noteq> None"
  shows "\<exists>w'. Value_Release \<lparr>v_ptr = Some p, v_ctx = x\<rparr> w = Ok () w' \<and> world_ok w' \<and>
     mvals w' = (mvals w)(p := None) \<and> retained w' c = retained w c - {p} \<and>
     (\<forall>d. d \<noteq> c \<longrightarrow> retained w' d = retained w d \<and> mctxs w' d = mctxs w d) \<and>
     Value_Release \<lparr>v_ptr = Some p, v_ctx = x\<rparr> w' = Fault Segv w'"
proof -
  obtain mc where mc: "mctxs w c = Some mc"
    using ok v by (force simp: world_ok_def heap_ok_def values_ok_def)
  define w' where "w' = w\<lparr>mctxs := (mctxs w)(c \<mapsto> untrack (mv_id mv) mc), mvals := (mvals w)(p := None)\<rparr>"
  have rel: "C_ValueRelease (Some p) w = Ok () w'" unfolding w'_def using v mc by (intro C_ValueRelease_eq)
  moreover have "world_ok w'" using world_C_ValueRelease [OF ok, of "Some p"] rel by simp
  moreover have "retained w' d = (if d = c then retained w c - {p} else retained w d)" for d
    using v by (auto simp: retained_def w'_def)
  ultimately show ?thesis
    by (intro exI [of _ w']) (simp add: Value_Release_def, simp add: w'_def C_ValueRelease_dangling)
qed

theorem release_takes_one_witness:
  "\<exists>w'. Value_Release \<lparr>v_ptr = Some 4, v_ctx = None\<rparr> demo_world = Ok () w' \<and> retained w' 3 = {5} \<and>
     Value_Release \<lparr>v_ptr = Some 4, v_ctx = None\<rparr> w' = Fault Segv w'"
proof -
  have "mvals demo_world 4 = Some \<lparr>mv_id = 1, mv_iso = 2, mv_ctx = Some 3, mv_ptr = JNull\<rparr>" by (simp add: demo_world_def)
  from release_takes_one [OF demo_world_ok this, of 3 None] obtain w' where
    "Value_Release \<lparr>v_ptr = Some 4, v_ctx = None\<rparr> demo_world = Ok () w'"
    "Value_Release \<lparr>v_ptr = Some 4, v_ctx = None\<rparr> w' = Fault Segv w'" "retained w' 3 = retained demo_world 3 - {4}"
    by auto
  moreover have "retained demo_world 3 = {4, 5}" by (auto simp: retained_def demo_world_def split: if_splits)
  ultimately show ?thesis by auto
qed

section \<open>Initialisation and options\<close>

text \<open>
  V8 is initialised once per process. The first call sets the flag that keeps flags
  changeable and initialises V8, in this order, and frees its C string; every later call does
  nothing.
\<close>

theorem initialised_once:
  assumes ok: "world_ok w" and mem: "brk w < mem_limit"
  shows "\<exists>w'. initializeIfNecessary A w = Ok () w' \<and> initializeIfNecessary A w' = Ok () w' \<and> blocks w' = blocks w \<and>
     v8 w' = (if v8once w then v8 w else v8_init A (v8_set_flags A ''--no-freeze_flags_after_init'' (v8 w)))"
proof (cases "v8once w")
  case True
  then show ?thesis by (simp add: initializeIfNecessary_def)
next
  case False
  have "blocks w (brk w) = None" using ok heap_okD_fresh [of w "brk w"] by (simp add: world_ok_def)
  then have undo: "(blocks w)(brk w := None) = blocks w" by (simp add: fun_upd_idem)
  have flag: "c_str ''--no-freeze_flags_after_init'' = ''--no-freeze_flags_after_init''"
    by (rule c_str_no_NUL) simp
  let ?w = "w\<lparr>v8once := True, brk := Suc (brk w),
     v8 := v8_init A (v8_set_flags A ''--no-freeze_flags_after_init'' (v8 w))\<rparr>"
  have "initializeIfNecessary A w = Ok () ?w"
    using False mem undo flag
    by (simp add: initializeIfNecessary_def withCString_def CString_def malloc_def c_new_def C_SetFlags_def C_Init_def
        cfree_def del: append.simps)
  then show ?thesis using False by (simp add: initializeIfNecessary_def)
qed

theorem initialised_once_witness:
  "\<exists>w'. initializeIfNecessary sample (init_world []) = Ok () w' \<and> initializeIfNecessary sample w' = Ok () w'"
  using initialised_once [OF init_world_ok, of "[]" sample] by (auto simp: init_world_def mem_limit_def)

text \<open>
  Of the options given to NewContext the last isolate and the last template count, nil
  options are skipped, and a typed nil resets what came before it to the default.
\<close>

theorem last_option_wins:
  "o_iso (context_options opts) = (case [i. OptIsolate i \<leftarrow> rev opts] of [] \<Rightarrow> None | i # _ \<Rightarrow> i) \<and>
   o_gTmpl (context_options opts) = (case [t. OptTemplate t \<leftarrow> rev opts] of [] \<Rightarrow> None | t # _ \<Rightarrow> t)"
proof -
  have "o_iso (fold apply_option opts d) = (case [i. OptIsolate i \<leftarrow> rev opts] of [] \<Rightarrow> o_iso d | i # _ \<Rightarrow> i) \<and>
    o_gTmpl (fold apply_option opts d) = (case [t. OptTemplate t \<leftarrow> rev opts] of [] \<Rightarrow> o_gTmpl d | t # _ \<Rightarrow> t)" for d
  proof (induction opts rule: rev_induct)
    case (snoc x xs)
    then show ?case by (cases x) (auto split: list.splits)
  qed simp
  from this [of "\<lparr>o_iso = None, o_gTmpl = None\<rparr>"] show ?thesis
    unfolding context_options_def contextOptions.select_convs .
qed

text \<open>
  Every field of HeapStatistics is the number V8 reports under the same name, although it
  passes a C struct that is filled by position; after Dispose all fields are zero, and the call
  still returns.
\<close>

theorem heap_statistics_by_name:
  assumes ok: "world_ok w" and g: "gisos w a = Some g"
  shows "GetHeapStatistics A a w = Ok (case i_ptr g of
     None \<Rightarrow> HeapStatistics.make 0 0 0 0 0 0 0 0 0 0 0
   | Some i \<Rightarrow> (let s = v8_heap_statistics A i (v8 w) in
       \<lparr>TotalHeapSize = total_heap_size s, TotalHeapSizeExecutable = total_heap_size_executable s,
        TotalPhysicalSize = total_physical_size s, TotalAvailableSize = total_available_size s,
        UsedHeapSize = used_heap_size s, HeapSizeLimit = heap_size_limit s, MallocedMemory = malloced_memory s,
        ExternalMemory = external_memory s, PeakMallocedMemory = peak_malloced_memory s,
        NumberOfNativeContexts = number_of_native_contexts s,
        NumberOfDetachedContexts = number_of_detached_contexts s\<rparr>)) w"
  using g gisosD(3) [OF ok g]
  by (cases "i_ptr g")
     (auto simp: GetHeapStatistics_def with_isolate_def C_IsolationGetHeapStatistics_def isolate_scope_def Let_def
        IsolateHStatistics.make_def HeapStatistics.make_def)

theorem heap_statistics_by_name_witness:
  "\<exists>s. GetHeapStatistics sample 1 demo_world = Ok s demo_world \<and> ExternalMemory s = 8 \<and> PeakMallocedMemory s = 9"
proof -
  show ?thesis
    using heap_statistics_by_name [OF demo_world_ok demo_isolate, of sample] by (simp add: Let_def sample_def v8_stats.make_def)
qed

end
