(* ===== verification/Conversions.thy ===== *)
theory Conversions
  imports Lifetime
begin

text \<open>
  Values on their way between Go and JavaScript: what NewValue makes, the round trips of strings
  and big integers, detail strings, and how long a value can be used. The predicates \<open>made\<close> and
  \<open>refers\<close> say what a function of v8go.cc hands to Go and what a pointer in a Go value leads to;
  the theories on objects and functions use them too.
\<close>

section \<open>Making values\<close>

text \<open>A Go isolate that has not been disposed of: its V8 isolate and its internal context.\<close>

definition live_isolate :: "addr \<Rightarrow> addr \<Rightarrow> addr \<Rightarrow> 'j m_ctx \<Rightarrow> ('e, 'j, 'cb) world \<Rightarrow> bool" where
  "live_isolate a q c mc w \<longleftrightarrow> world_ok w \<and> (\<exists>g. gisos w a = Some g \<and> i_ptr g = Some q) \<and>
     (\<exists>v. isolates w q = Some v \<and> slot0 v = Some c) \<and> mctxs w c = Some mc"

text \<open>
  \<open>made v j q c mc w w'\<close>: the only value new in \<open>w'\<close> is \<open>v\<close>; it refers to \<open>j\<close> and is tracked by the
  context \<open>c\<close> of the isolate \<open>q\<close>, whose struct was \<open>mc\<close>; no block is left behind, and at most two
  addresses were used.
\<close>

definition made :: "addr \<Rightarrow> 'j \<Rightarrow> addr \<Rightarrow> addr \<Rightarrow> 'j m_ctx \<Rightarrow> ('e, 'j, 'cb) world \<Rightarrow> ('e, 'j, 'cb) world \<Rightarrow> bool" where
  "made v j q c mc w w' \<longleftrightarrow> mvals w v = None \<and>
     mvals w' = (mvals w)(v \<mapsto> \<lparr>mv_id = c_long (mc_nextValId mc + 1), mv_iso = q, mv_ctx = Some c, mv_ptr = j\<rparr>) \<and>
     mctxs w' = (mctxs w)(c \<mapsto> snd (track v mc)) \<and> retained w' c = insert v (retained w c) \<and>
     isolates w' = isolates w \<and> blocks w' = blocks w \<and> gctxs w' = gctxs w \<and> reg w' = reg w \<and>
     heap_ok w' \<and> brk w < brk w' \<and> brk w' \<le> brk w + 2"

text \<open>What V8 is asked for a Go value of a primitive type.\<close>

definition v8_value :: "('e, 'j, 'cb) env \<Rightarrow> addr \<Rightarrow> 'j \<Rightarrow> goval \<Rightarrow> 'e \<Rightarrow> 'e \<times> 'j option" where
  "v8_value A q h val = (case val of
       GString s \<Rightarrow> v8_new_utf8 A q s
     | GInt32 n \<Rightarrow> apsnd Some \<circ> v8_integer A n
     | GUint32 n \<Rightarrow> apsnd Some \<circ> v8_unsigned A n
     | GInt64 n \<Rightarrow> apsnd Some \<circ> v8_bigint A n
     | GUint64 n \<Rightarrow> apsnd Some \<circ> v8_bigint_unsigned A n
     | GBool b \<Rightarrow> apsnd Some \<circ> v8_boolean A b
     | GFloat64 x \<Rightarrow> apsnd Some \<circ> v8_number A x
     | GBigInt n \<Rightarrow>
         if IsInt64 n then apsnd Some \<circ> v8_bigint A (word_of_int n)
         else if IsUint64 n then apsnd Some \<circ> v8_bigint_unsigned A (word_of_int n)
         else v8_bigint_words A h (if n < 0 then 1 else 0) (nat_words (nat \<bar>n\<bar>))
     | _ \<Rightarrow> (\<lambda>e. (e, None)))"

text \<open>The sizes that fit the C \<open>int\<close> they are passed as.\<close>

definition fits :: "goval \<Rightarrow> bool" where
  "fits val = (case val of GString s \<Rightarrow> length s < 2 ^ 31 | GBigInt n \<Rightarrow> length (nat_words (nat \<bar>n\<bar>)) < 2 ^ 31 | _ \<Rightarrow> True)"

lemma made_new_value:
  assumes "heap_ok w" "brk w < mem_limit" "mctxs w c = Some mc"
  obtains v w' where "new_value q (Some c) j w = Ok v w'" "made v j q c mc w w'" "v8 w' = v8 w" "same_go w w'" "brk w' = Suc (brk w)"
proof (rule new_value_succeeds [OF assms, of q j])
  fix v w'
  assume "new_value q (Some c) j w = Ok v w'" "mvals w v = None" "brk w' = Suc (brk w)"
    "mvals w' = (mvals w)(v \<mapsto> \<lparr>mv_id = c_long (mc_nextValId mc + 1), mv_iso = q, mv_ctx = Some c, mv_ptr = j\<rparr>)"
    "retained w' c = insert v (retained w c)" "blocks w' = blocks w" "v8 w' = v8 w" "same_go w w'"
    "mctxs w' = (mctxs w)(c \<mapsto> snd (track v mc))" "heap_ok w'"
  then show thesis by (intro that [of v w']) (auto simp: made_def same_go_def)
qed

lemma C_new_primitive_made:
  assumes live: "live_isolate a q c mc w" and mem: "brk w < mem_limit" and f: "f (v8 w) = (e, j)"
  shows "\<exists>v w'. C_new_primitive f (Some q) w = Ok v w' \<and> made v j q c mc w w' \<and> v8 w' = e"
proof -
  have ok: "heap_ok (w\<lparr>v8 := e\<rparr>)" using live by (auto simp: live_isolate_def world_ok_def)
  obtain v w' where "new_value q (Some c) j (w\<lparr>v8 := e\<rparr>) = Ok v w'" "made v j q c mc (w\<lparr>v8 := e\<rparr>) w'" "v8 w' = e"
    by (rule made_new_value [OF ok, of c mc q j]) (use live mem in \<open>auto simp: live_isolate_def\<close>)
  then show ?thesis
    using live f by (auto simp: C_new_primitive_def internal_scope_def live_isolate_def ask_def made_def)
qed

text \<open>A C string around an operation that returns and leaves the blocks alone.\<close>

lemma withCString_returns:
  assumes ok: "heap_ok w" and mem: "brk w < mem_limit"
    and body: "body (brk w) (w\<lparr>brk := Suc (brk w), blocks := (blocks w)(brk w \<mapsto> Chars (s @ [NUL]))\<rparr>) = Ok r w2"
    and same: "blocks w2 = (blocks w)(brk w \<mapsto> Chars (s @ [NUL]))"
  shows "withCString s body w = Ok r (w2\<lparr>blocks := blocks w\<rparr>)"
proof -
  have "blocks w (brk w) = None" using heap_okD_fresh [OF ok, of "brk w"] by simp
  then have "(blocks w2)(brk w := None) = blocks w" by (simp add: same fun_upd_idem)
  with withCString_Ok [where body = body, OF mem body] show ?thesis by (simp add: same)
qed

lemma new_string_made:
  assumes live: "live_isolate a q c mc w" and mem: "brk w + 2 \<le> mem_limit" and len: "length s < 2 ^ 31"
    and made: "v8_new_utf8 A q s (v8 w) = (e, Some j)"
  shows "\<exists>v w'. NewValue A (Some a) (GString s) w = Ok (Inr \<lparr>v_ptr = Some v, v_ctx = None\<rparr>) w' \<and> made v j q c mc w w' \<and> v8 w' = e"
proof -
  let ?w = "w\<lparr>brk := Suc (brk w), blocks := (blocks w)(brk w \<mapsto> Chars (s @ [NUL]))\<rparr>"
  have hok: "heap_ok w" using live by (simp add: live_isolate_def world_ok_def)
  have "heap_ok (?w\<lparr>v8 := e\<rparr>)"
    using heap_ok_blocks [OF heap_ok_brk [OF hok], of "blocks ?w"] heap_okD_fresh [OF hok] mem by simp
  then obtain v w' where new: "new_value q (Some c) j (?w\<lparr>v8 := e\<rparr>) = Ok v w'" and m: "made v j q c mc (?w\<lparr>v8 := e\<rparr>) w'" "v8 w' = e"
    and brk: "brk w' = Suc (Suc (brk w))"
    by (rule made_new_value [of _ c mc q j]) (use live mem in \<open>auto simp: live_isolate_def\<close>)
  have "c_int (int (length s)) = int (length s)" using len by (simp add: c_int_id)
  then have "withCString s (\<lambda>cstr. with_isolate a (\<lambda>i w. bindR (C_NewValueString A (i_ptr i) cstr (c_int (int (length s))) w)
      (\<lambda>rtn w. valueResult None rtn w))) w = Ok (Inr \<lparr>v_ptr = Some v, v_ctx = None\<rparr>) (w'\<lparr>blocks := blocks w\<rparr>)"
    using live new made m mem
    by (intro withCString_returns [OF hok])
       (auto simp: with_isolate_def C_NewValueString_def internal_scope_def live_isolate_def GoStringN_def ask_def rtn_of_def
          give_value_def valueResult_def made_def)
  moreover have "heap_ok (w'\<lparr>blocks := blocks w\<rparr>)"
    using m heap_okD_fresh [OF hok] by (intro heap_ok_blocks) (auto simp: made_def)
  moreover have "brk w' = brk w + 2" using brk by simp
  ultimately show ?thesis using m by (auto simp: NewValue_def made_def)
qed

lemma new_words_made:
  assumes live: "live_isolate a q c mc w" and mem: "brk w < mem_limit" and big: "\<not> IsInt64 n" "\<not> IsUint64 n"
    and len: "length (nat_words (nat \<bar>n\<bar>)) < 2 ^ 31"
    and made: "v8_bigint_words A (mc_ptr mc) (if n < 0 then 1 else 0) (nat_words (nat \<bar>n\<bar>)) (v8 w) = (e, Some j)"
  shows "\<exists>v w'. NewValue A (Some a) (GBigInt n) w = Ok (Inr \<lparr>v_ptr = Some v, v_ctx = None\<rparr>) w' \<and> made v j q c mc w w' \<and> v8 w' = e"
proof -
  have pos: "0 < length (nat_words (nat \<bar>n\<bar>))" using big by (subst nat_words.simps) (auto simp: IsInt64_def)
  have hok: "heap_ok (w\<lparr>v8 := e\<rparr>)" using live by (simp add: live_isolate_def world_ok_def)
  obtain v w' where new: "new_value q (Some c) j (w\<lparr>v8 := e\<rparr>) = Ok v w'" and m: "made v j q c mc (w\<lparr>v8 := e\<rparr>) w'" "v8 w' = e"
    by (rule made_new_value [OF hok, of c mc q j]) (use live mem in \<open>auto simp: live_isolate_def\<close>)
  have "c_int (int (length (nat_words (nat \<bar>n\<bar>)))) = int (length (nat_words (nat \<bar>n\<bar>)))" using len by (simp add: c_int_id)
  then have "NewValue_BigInt A (Some q) n w = Ok (Inr \<lparr>v_ptr = Some v, v_ctx = None\<rparr>) w'"
    using big live pos made new
    by (auto simp: NewValue_BigInt_def C_NewValueBigIntFromWords_def internal_scope_def live_isolate_def ask_def rtn_of_def
        give_value_def valueResult_def Let_def)
  then show ?thesis using live m by (auto simp: NewValue_def with_isolate_def live_isolate_def made_def)
qed

lemma NewValue_made:
  assumes live: "live_isolate a q c mc w" and mem: "brk w + 2 \<le> mem_limit" and prim: "is_primitive val" "fits val"
    and made: "v8_value A q (mc_ptr mc) val (v8 w) = (e, Some j)"
  shows "\<exists>v w'. NewValue A (Some a) val w = Ok (Inr \<lparr>v_ptr = Some v, v_ctx = None\<rparr>) w' \<and> made v j q c mc w w' \<and> v8 w' = e"
proof -
  obtain g where g: "gisos w a = Some g" "i_ptr g = Some q" using live by (auto simp: live_isolate_def)
  have plain: "\<exists>v w'. plain_value (C_new_primitive f (Some q) w) = Ok (Inr \<lparr>v_ptr = Some v, v_ctx = None\<rparr>) w' \<and>
      made v j q c mc w w' \<and> v8 w' = e" if "f (v8 w) = (e, j)" for f
    using C_new_primitive_made [where f = f, OF live _ that] mem by (auto simp: plain_value_def)
  note prims = C_primitive_defs NewValue_def with_isolate_def v8_value_def is_primitive_def apsnd_def map_prod_def
  show ?thesis
  proof (cases val)
    case (GString s)
    then show ?thesis using new_string_made [OF live mem, of s A e j] prim made by (simp add: fits_def v8_value_def)
  next
    case (GBigInt n)
    show ?thesis
    proof (cases "IsInt64 n \<or> IsUint64 n")
      case True
      then show ?thesis using GBigInt made plain g by (auto simp: prims NewValue_BigInt_def split: prod.splits if_splits)
    next
      case False
      then show ?thesis using GBigInt new_words_made [OF live, of n A e j] mem prim made by (simp add: fits_def v8_value_def)
    qed
  qed (use made plain g prim in \<open>auto simp: prims split: prod.splits\<close>)
qed

text \<open>
  C18: NewValue asks V8 for the value that corresponds to the Go type (a big integer by the
  smallest of V8's three constructors that holds it) and returns a new value that refers to it,
  owned by the internal context of the isolate and not bound to any Go context. The bytes of a
  string all count, also after a NUL byte. Nothing else changes.
\<close>

theorem new_value_makes:
  assumes live: "live_isolate a q c mc w" and mem: "brk w + 2 \<le> mem_limit" and prim: "is_primitive val" "fits val"
    and made: "v8_value A q (mc_ptr mc) val (v8 w) = (e, Some j)"
  shows "\<exists>v w'. NewValue A (Some a) val w = Ok (Inr \<lparr>v_ptr = Some v, v_ctx = None\<rparr>) w' \<and> made v j q c mc w w' \<and> v8 w' = e"
  using assms by (rule NewValue_made)

lemma demo_live: "live_isolate 1 2 3 \<lparr>mc_iso = 2, mc_vals = [(1, 4), (2, 5)], mc_unboundScripts = [], mc_ptr = JContext 0, mc_nextValId = 2\<rparr> demo_world"
  using demo_world_ok by (simp add: live_isolate_def)

theorem new_value_makes_witness:
  "\<exists>v w'. NewValue sample (Some 1) (GString [CHR ''a'', NUL, CHR ''b'']) demo_world = Ok (Inr \<lparr>v_ptr = Some v, v_ctx = None\<rparr>) w' \<and>
     map_option mv_ptr (mvals w' v) = Some (JString [CHR ''a'', NUL, CHR ''b'']) \<and> blocks w' = (\<lambda>_. None)"
  using new_value_makes [OF demo_live, of "GString [CHR ''a'', NUL, CHR ''b'']" sample "[]" "JString [CHR ''a'', NUL, CHR ''b'']"]
  by (auto simp: mem_limit_def is_primitive_def fits_def v8_value_def sample_def made_def)

section \<open>Reading values back\<close>

text \<open>
  \<open>refers p q c h j w\<close>: the value behind the pointer \<open>p\<close> is live, belongs to the context \<open>c\<close> with
  V8 handle \<open>h\<close> in the live isolate \<open>q\<close>, and refers to \<open>j\<close>.
\<close>

definition refers :: "addr option \<Rightarrow> addr \<Rightarrow> addr \<Rightarrow> 'j \<Rightarrow> 'j \<Rightarrow> ('e, 'j, 'cb) world \<Rightarrow> bool" where
  "refers p q c h j w \<longleftrightarrow> isolates w q \<noteq> None \<and>
     (\<exists>v mv mc. p = Some v \<and> mvals w v = Some mv \<and> mv_iso mv = q \<and> mv_ctx mv = Some c \<and> mv_ptr mv = j \<and>
        mctxs w c = Some mc \<and> mc_ptr mc = h)"

lemma local_value_refers [simp]: "refers p q c h j w \<Longrightarrow> local_value p k w = k q c h j w"
  by (auto simp: refers_def local_value_def)

lemma get_handle_refers [simp]: "refers p q c h j w \<Longrightarrow> get_handle p w = Ok j w"
  by (auto simp: refers_def get_handle_def)

lemma made_refers:
  assumes "made v j q c mc w w'" "isolates w q \<noteq> None"
  shows "refers (Some v) q c (mc_ptr mc) j w'"
  using assms by (auto simp: made_def refers_def track_def Let_def)

lemma live_isolate_isolates: "live_isolate a q c mc w \<Longrightarrow> isolates w q \<noteq> None"
  by (auto simp: live_isolate_def)

text \<open>The next address is not allocated, so allocating and freeing it again leaves the blocks as they were.\<close>

lemma fresh_block [simp]: "heap_ok w \<Longrightarrow> (blocks w)(brk w := None) = blocks w"
  using heap_okD_fresh [of w "brk w"] by (simp add: fun_upd_idem)

lemma String_reads:
  assumes ok: "heap_ok w" and mem: "brk w < mem_limit" and len: "length s < 2 ^ 31"
    and v: "refers (v_ptr v) q c h j w" and utf8: "v8_utf8_value A q j (v8 w) = Done e s"
  shows "String A v w = Ok s (w\<lparr>brk := Suc (brk w), v8 := e\<rparr>)"
proof -
  have "c_int (int (length s)) = int (length s)" using len by (simp add: c_int_id)
  then show ?thesis
    using mem utf8 v ok by (simp add: String_def C_ValueToString_def run_def malloc_def c_new_def GoStringN_def cfree_def)
qed



section \<open>Big integers\<close>

lemma words_nat_nat_words [simp]: "words_nat (nat_words n) = n"
proof (induction n rule: nat_words.induct)
  case (1 n)
  show ?case
  proof (cases "n = 0")
    case False
    have "unat (word_of_nat (n mod 2 ^ 64) :: 64 word) = n mod 2 ^ 64"
      by (simp add: unat_of_nat)
    with "1.IH" [OF False] False show ?thesis
      by (subst nat_words.simps) (simp add: mult.commute [of _ "n div _"])
  qed (simp add: nat_words.simps)
qed

lemma length_nat_words: "n < 2 ^ (64 * k) \<Longrightarrow> length (nat_words n) \<le> k"
proof (induction k arbitrary: n)
  case 0
  then show ?case by (simp add: nat_words.simps)
next
  case (Suc k)
  have "n div 2 ^ 64 < 2 ^ (64 * k)"
    using Suc.prems by (simp add: less_mult_imp_div_less power_add mult.commute)
  from Suc.IH [OF this] show ?case by (subst nat_words.simps) auto
qed

text \<open>
  What V8 documents of its big integers, for a map \<open>num\<close> that gives the number of a handle that
  is one: the constructors make the number they are given, of up to 2^24 words, and
  \<open>ToWordsArray\<close> returns the sign and the absolute value, least significant word first, without
  leading zero words.
\<close>

definition exact_bigints :: "('e, 'j, 'cb) env \<Rightarrow> ('j \<Rightarrow> int option) \<Rightarrow> bool" where
  "exact_bigints A num \<longleftrightarrow>
     (\<forall>n e. num (snd (v8_bigint A n e)) = Some (sint n)) \<and>
     (\<forall>n e. num (snd (v8_bigint_unsigned A n e)) = Some (uint n)) \<and>
     (\<forall>h s ws e. length ws \<le> 2 ^ 24 \<longrightarrow>
        (\<exists>j. snd (v8_bigint_words A h s ws e) = Some j \<and> num j = Some ((if s = 0 then 1 else - 1) * int (words_nat ws)))) \<and>
     (\<forall>h j n e. num j = Some n \<longrightarrow>
        (\<exists>e'. v8_to_bigint A h j e = Done e' (Some (if n < 0 then 1 else 0, nat_words (nat \<bar>n\<bar>)))))"

lemma sint_IsInt64: "IsInt64 n \<Longrightarrow> sint (word_of_int n :: 64 word) = n"
  by (simp add: IsInt64_def sint_sbintrunc' signed_take_bit_int_eq_self)

lemma uint_IsUint64: "IsUint64 n \<Longrightarrow> uint (word_of_int n :: 64 word) = n"
  by (simp add: IsUint64_def uint_word_of_int)

lemma exact_bigintsD:
  assumes "exact_bigints A num"
  shows "num (snd (v8_bigint A k e)) = Some (sint k)" "num (snd (v8_bigint_unsigned A k e)) = Some (uint k)"
    "length ws \<le> 2 ^ 24 \<Longrightarrow> \<exists>j. snd (v8_bigint_words A h s ws e) = Some j \<and> num j = Some ((if s = 0 then 1 else - 1) * int (words_nat ws))"
  using assms by (simp_all add: exact_bigints_def)

lemma exact_bigint_value:
  assumes "exact_bigints A num" "length (nat_words (nat \<bar>n\<bar>)) \<le> 2 ^ 24"
  obtains e' j where "v8_value A q h (GBigInt n) e = (e', Some j)" "num j = Some n"
proof (cases "IsInt64 n \<or> IsUint64 n")
  case True
  let ?r = "if IsInt64 n then v8_bigint A (word_of_int n) e else v8_bigint_unsigned A (word_of_int n) e"
  have "v8_value A q h (GBigInt n) e = (fst ?r, Some (snd ?r))"
    using True by (auto simp: v8_value_def apsnd_def map_prod_def split: prod.splits)
  moreover have "num (snd ?r) = Some n"
    using True exact_bigintsD [OF assms(1)] sint_IsInt64 [of n] uint_IsUint64 [of n] by (cases "IsInt64 n") auto
  ultimately show thesis by (rule that)
next
  case False
  let ?s = "if n < 0 then 1 else 0 :: int" and ?ws = "nat_words (nat \<bar>n\<bar>)"
  obtain j where j: "snd (v8_bigint_words A h ?s ?ws e) = Some j" "num j = Some ((if ?s = 0 then 1 else - 1) * int (words_nat ?ws))"
    using exact_bigintsD(3) [OF assms] by blast
  have "v8_value A q h (GBigInt n) e = (fst (v8_bigint_words A h ?s ?ws e), Some j)"
    using False j(1) by (simp add: v8_value_def prod_eq_iff)
  moreover have "num j = Some n" using j(2) by (simp split: if_splits)
  ultimately show thesis by (rule that)
qed

lemma BigInt_reads:
  assumes ok: "heap_ok w" and mem: "brk w < mem_limit" and len: "length (nat_words (nat \<bar>n\<bar>)) \<le> 2 ^ 24"
    and v: "refers (v_ptr v) q c h j w" and num: "exact_bigints A num" "num j = Some n"
  obtains e where "BigInt A (Some v) w = Ok (Some n) (w\<lparr>brk := Suc (brk w), v8 := e\<rparr>)"
proof -
  let ?ws = "nat_words (nat \<bar>n\<bar>)"
  obtain e where e: "v8_to_bigint A h j (v8 w) = Done e (Some (if n < 0 then 1 else 0, ?ws))"
    using num by (fastforce simp: exact_bigints_def)
  have "c_int (int (length ?ws)) = int (length ?ws)" using len by (simp add: c_int_id)
  then have "BigInt A (Some v) w = Ok (Some n) (w\<lparr>brk := Suc (brk w), v8 := e\<rparr>)"
    using mem e v ok len
    by (simp add: BigInt_def C_ValueToBigInt_def run_def malloc_def c_new_def cfree_def Let_def)
  then show thesis by (rule that)
qed

text \<open>
  C16: a Go \<open>big.Int\<close> of up to 2^24 words survives the way into JavaScript and back, whichever of
  V8's three constructors the code picks for it, given what V8 documents of its big integers.
\<close>

theorem bigint_round_trip:
  assumes live: "live_isolate a q c mc w" and mem: "brk w + 3 \<le> mem_limit"
    and num: "exact_bigints A num" and len: "length (nat_words (nat \<bar>n\<bar>)) \<le> 2 ^ 24"
  shows "\<exists>v w1 w'. NewValue A (Some a) (GBigInt n) w = Ok (Inr v) w1 \<and> BigInt A (Some v) w1 = Ok (Some n) w' \<and> blocks w' = blocks w"
proof -
  obtain e j where j: "v8_value A q (mc_ptr mc) (GBigInt n) (v8 w) = (e, Some j)" "num j = Some n"
    using exact_bigint_value [OF num len] by metis
  obtain v w1 where v: "NewValue A (Some a) (GBigInt n) w = Ok (Inr \<lparr>v_ptr = Some v, v_ctx = None\<rparr>) w1"
    and m: "made v j q c mc w w1"
    using NewValue_made [OF live _ _ _ j(1)] mem len by (auto simp: is_primitive_def fits_def)
  obtain e2 where "BigInt A (Some \<lparr>v_ptr = Some v, v_ctx = None\<rparr>) w1 = Ok (Some n) (w1\<lparr>brk := Suc (brk w1), v8 := e2\<rparr>)"
    by (rule BigInt_reads [of w1 n _ q c "mc_ptr mc" j A num])
       (use m mem len num j(2) made_refers [OF m live_isolate_isolates [OF live]] in \<open>auto simp: made_def\<close>)
  moreover have "blocks w1 = blocks w" using m by (simp add: made_def)
  ultimately show ?thesis using v by auto
qed

lemma sample_exact_bigints: "exact_bigints sample (\<lambda>j. case j of JBig n \<Rightarrow> Some n | _ \<Rightarrow> None)"
  by (auto simp: exact_bigints_def sample_def sample_big_def split: jv.splits)

theorem bigint_round_trip_witness:
  "\<exists>v w1 w'. NewValue sample (Some 1) (GBigInt (- (2 ^ 100))) demo_world = Ok (Inr v) w1 \<and>
     BigInt sample (Some v) w1 = Ok (Some (- (2 ^ 100))) w' \<and> blocks w' = (\<lambda>_. None)"
proof -
  have "length (nat_words (nat \<bar>- (2 ^ 100)\<bar>)) \<le> 2" by (rule length_nat_words) simp
  then have "length (nat_words (nat \<bar>- (2 ^ 100)\<bar>)) \<le> 2 ^ 24" by simp
  from bigint_round_trip [OF demo_live _ sample_exact_bigints this] show ?thesis by (simp add: mem_limit_def)
qed

section \<open>Results handed to Go\<close>

text \<open>The two ways a function that returns an \<open>RtnValue\<close> ends, as the Go caller sees them.\<close>

lemma result_value:
  assumes "heap_ok w" "brk w < mem_limit" "mctxs w c = Some mc"
  obtains v w' where "rtn_of A q (Some c) (Some j) w = Ok \<lparr>rtn_value = Some v, rtn_error = no_error\<rparr> w'"
    "made v j q c mc w w'" "v8 w' = v8 w" "brk w' = Suc (brk w)"
  by (rule made_new_value [OF assms, of q j]) (auto simp: rtn_of_def give_value_def intro: that)

lemma result_error:
  assumes ok: "heap_ok w" and mem: "brk w + 3 \<le> mem_limit" and caught: "v8_caught A (v8 w) = Done e x"
  obtains r w2 where "rtn_of A q c None w = Ok \<lparr>rtn_value = None, rtn_error = r\<rparr> w2"
    "newJSError r w2 = Ok (JSErr (js_error_of x)) (w\<lparr>v8 := e, brk := brk w + strings_of x\<rparr>)"
proof -
  obtain r w2 where x: "ExceptionError x (w\<lparr>v8 := e\<rparr>) = Ok r w2"
    using ExceptionError_succeeds [of "w\<lparr>v8 := e\<rparr>" x] mem by auto
  have "heap_ok (w\<lparr>v8 := e\<rparr>)" using ok by simp
  from newJSError_ExceptionError [OF this x]
  have "newJSError r w2 = Ok (JSErr (js_error_of x)) (w\<lparr>v8 := e, brk := brk w + strings_of x\<rparr>)" by simp
  moreover have "rtn_of A q c None w = Ok \<lparr>rtn_value = None, rtn_error = r\<rparr> w2"
    using caught x by (simp add: rtn_of_def fail_value_def raised_def run_def)
  ultimately show thesis by (intro that)
qed

section \<open>Detail strings\<close>

text \<open>
  C38: DetailString returns V8's description of the value when it has at least one byte. When it
  is empty, as for the empty string, the C++ half returns a null pointer, and the Go half takes it
  for a failure and panics with an error without message.
\<close>

theorem detail_string_text:
  assumes ok: "heap_ok w" and mem: "brk w < mem_limit" and len: "length s < 2 ^ 31"
    and v: "refers (v_ptr v) q c h j w" and detail: "v8_detail_string A h j (v8 w) = Done e (Some s)"
  shows "DetailString A v w =
     (if s = [] then Fault (PanicErr (JSErr \<lparr>Message = [], Location = [], StackTrace = []\<rparr>)) (w\<lparr>v8 := e\<rparr>)
      else Ok s (w\<lparr>brk := Suc (brk w), v8 := e\<rparr>))"
proof -
  have "c_int (int (length s)) = int (length s)" using len by (simp add: c_int_id)
  then show ?thesis
    using assms
    by (simp add: DetailString_def C_ValueToDetailString_def run_def CopyUtf8_def CopyString_def malloc_def c_new_def
        newJSError_def GoString_def GoStringN_def cfree_def)
qed

text \<open>The state of the sample process with one more value, in the context of the client.\<close>

definition demo_value :: "jv \<Rightarrow> (bytes, jv, nat) world" where
  "demo_value j = (case new_value 2 (Some 6) j demo_world of Ok _ w \<Rightarrow> w | Fault _ w \<Rightarrow> w)"

lemma demo_value_made: "made 7 j 2 6 \<lparr>mc_iso = 2, mc_vals = [], mc_unboundScripts = [], mc_ptr = JContext 1, mc_nextValId = 0\<rparr> demo_world (demo_value j)"
  and demo_value_fields [simp]: "brk (demo_value j) = 8" "v8 (demo_value j) = []" "same_go demo_world (demo_value j)"
proof -
  have hok: "heap_ok demo_world" using demo_world_ok by (simp add: world_ok_def)
  obtain v w' where v: "new_value 2 (Some 6) j demo_world = Ok v w'"
    "made v j 2 6 \<lparr>mc_iso = 2, mc_vals = [], mc_unboundScripts = [], mc_ptr = JContext 1, mc_nextValId = 0\<rparr> demo_world w'"
    "v8 w' = v8 demo_world" "same_go demo_world w'" "brk w' = Suc (brk demo_world)"
    by (rule made_new_value [OF hok _ demo_contexts(1), of 2 j]) (simp add: mem_limit_def)
  then have "v = 7" by (auto simp: new_value_def c_new_def tracked_value_def Let_def mem_limit_def split: prod.splits if_splits)
  with v show "made 7 j 2 6 \<lparr>mc_iso = 2, mc_vals = [], mc_unboundScripts = [], mc_ptr = JContext 1, mc_nextValId = 0\<rparr> demo_world (demo_value j)"
    "brk (demo_value j) = 8" "v8 (demo_value j) = []" "same_go demo_world (demo_value j)"
    by (simp_all add: demo_value_def)
qed

lemma demo_value_refers: "refers (Some 7) 2 6 (JContext 1) j (demo_value j)"
  using made_refers [OF demo_value_made] by simp

lemma demo_value_heap_ok: "heap_ok (demo_value j)"
  using demo_value_made [of j] by (simp add: made_def)

theorem detail_string_text_witness:
  "DetailString sample \<lparr>v_ptr = Some 7, v_ctx = Some 3\<rparr> (demo_value (JString ''ab'')) = Ok ''ab'' ((demo_value (JString ''ab''))\<lparr>brk := 9\<rparr>) \<and>
   (\<exists>w'. DetailString sample \<lparr>v_ptr = Some 7, v_ctx = Some 3\<rparr> (demo_value (JString [])) =
     Fault (PanicErr (JSErr \<lparr>Message = [], Location = [], StackTrace = []\<rparr>)) w')"
  using detail_string_text [of "demo_value (JString ''ab'')" "''ab''" "\<lparr>v_ptr = Some 7, v_ctx = Some 3\<rparr>" 2 6 "JContext 1" "JString ''ab''" sample "[]"]
    detail_string_text [of "demo_value (JString [])" "[]" "\<lparr>v_ptr = Some 7, v_ctx = Some 3\<rparr>" 2 6 "JContext 1" "JString []" sample "[]"]
  by (simp add: demo_value_heap_ok demo_value_refers mem_limit_def sample_def)

section \<open>Values and their contexts\<close>

lemma closed_contexts: "mctxs (ctx_closed a g p mc w) = (mctxs w)(p := None)"
  and closed_values: "mvals (ctx_closed a g p mc w) = mvals w |` (- (snd ` set (mc_vals mc)))"
  and closed_rest: "isolates (ctx_closed a g p mc w) = isolates w" "blocks (ctx_closed a g p mc w) = blocks w"
    "v8 (ctx_closed a g p mc w) = v8 w" "brk (ctx_closed a g p mc w) = brk w"
  by (simp_all add: ctx_closed_def ctx_freed_def)

text \<open>
  C14: a value lives as long as the context that tracks it. Closing a context frees its values, and
  using one afterwards reads freed memory; a value of another context, such as one made by
  NewValue, which belongs to the internal context of the isolate, stays what it was.
\<close>

theorem values_die_with_context:
  assumes ok: "world_ok w" and a: "gctxs w a = Some g" "c_ptr g = Some p" and live: "isolates_live w p"
    and v: "refers (v_ptr v) q c h j w"
  shows "\<exists>w'. Context_Close a w = Ok () w' \<and>
     (if c = p then String A v w' = Fault Segv w' else refers (v_ptr v) q c h j w')"
proof -
  obtain mc where mc: "mctxs w p = Some mc" using gctxsD(3) [OF ok a] by auto
  have vals: "snd ` set (mc_vals mc) = retained w p"
    using ok mc by (intro retained_entries [symmetric]) (auto simp: world_ok_def)
  let ?w = "ctx_closed a g p mc w"
  have "String A v ?w = Fault Segv ?w" if "c = p"
    using v that
    by (auto simp: refers_def String_def C_ValueToString_def local_value_def closed_values vals retained_def)
  moreover have "refers (v_ptr v) q c h j ?w" if "c \<noteq> p"
    using v that by (auto simp: refers_def closed_values closed_contexts closed_rest vals retained_def)
  ultimately show ?thesis using Context_Close_eq [OF ok a mc live] by auto
qed

lemma demo_value_ok: "world_ok (demo_value j)"
  using world_new_value [OF demo_world_ok, of 2 "Some 6" j] demo_value_made [of j]
  by (auto simp: demo_value_def new_value_def c_new_def tracked_value_def Let_def mem_limit_def split: prod.splits if_splits)

lemma demo_value_live: "isolates_live (demo_value j) 6"
  using demo_value_made [of j] demo_isolates_live
  by (auto simp: isolates_live_def made_def track_def Let_def)

theorem values_die_with_context_witness:
  "\<exists>w'. Context_Close 3 (demo_value JNull) = Ok () w' \<and>
     String sample \<lparr>v_ptr = Some 7, v_ctx = Some 3\<rparr> w' = Fault Segv w'"
proof -
  have "gctxs (demo_value JNull) 3 = Some \<lparr>c_ref = 1, c_ptr = Some 6, c_iso = 1\<rparr>"
    using demo_value_made [of JNull] by (simp add: made_def)
  from values_die_with_context [OF demo_value_ok this _ demo_value_live, of "\<lparr>v_ptr = Some 7, v_ctx = Some 3\<rparr>" 2 6 "JContext 1" JNull sample]
  show ?thesis by (simp add: demo_value_refers)
qed

end
