(* ===== verification/Objects.thy ===== *)
theory Objects
  imports Conversions
begin

text \<open>
  Objects, functions, templates, promises and JSON seen from Go: properties set and read back,
  internal fields and their bounds, calls with their arguments, the attributes and values of
  template properties, closures chained to promises, parsing and serialising.
\<close>

unbundle bit_operations_syntax

section \<open>Properties\<close>

text \<open>A live object in Go: its context is open, and its isolate is \<open>i\<close>.\<close>

definition object_in :: "Object \<Rightarrow> addr \<Rightarrow> ('e, 'j, 'cb) world \<Rightarrow> bool" where
  "object_in ob i w \<longleftrightarrow> (\<exists>a c. v_ctx (obj_value ob) = Some a \<and> gctxs w a = Some c \<and> c_iso c = i)"

lemma object_iso_in [simp]: "object_in ob i w \<Longrightarrow> object_iso ob w = Ok i w"
  by (auto simp: object_in_def object_iso_def with_context_def)

lemma refers_cong:
  "refers p q c h j w \<Longrightarrow> isolates w' = isolates w \<Longrightarrow> mvals w' = mvals w \<Longrightarrow> mctxs w' = mctxs w \<Longrightarrow> refers p q c h j w'"
  by (simp add: refers_def)

text \<open>A key is passed as a C string.\<close>

definition key_world :: "bytes \<Rightarrow> ('e, 'j, 'cb) world \<Rightarrow> ('e, 'j, 'cb) world" where
  "key_world key w = w\<lparr>brk := Suc (brk w), blocks := (blocks w)(brk w \<mapsto> Chars (key @ [NUL]))\<rparr>"

lemma utf8_arg_key [simp]:
  "utf8_arg A q (brk w) (key_world key w) = Ok (snd (v8_new_utf8 A q (c_str key) (v8 w))) ((key_world key w)\<lparr>v8 := fst (v8_new_utf8 A q (c_str key) (v8 w))\<rparr>)"
  by (simp add: utf8_arg_def key_world_def ask_def case_prod_beta Let_def)

lemma heap_ok_key_world: "heap_ok w \<Longrightarrow> brk w < mem_limit \<Longrightarrow> heap_ok (key_world key w)"
  using heap_ok_blocks [OF heap_ok_brk, of w "blocks (key_world key w)"] heap_okD_fresh [of w]
  by (simp add: key_world_def)

lemma withCString_key:
  assumes "heap_ok w" "brk w < mem_limit" "body (brk w) (key_world key w) = Ok r w2" "blocks w2 = blocks (key_world key w)"
  shows "withCString key body w = Ok r (w2\<lparr>blocks := blocks w\<rparr>)"
  using assms by (intro withCString_returns) (auto simp: key_world_def)

lemma refers_key [simp]: "refers p q c h j w \<Longrightarrow> refers p q c h j (key_world key w)"
  by (auto simp: refers_def key_world_def)

lemma key_world_fields [simp]: "v8 (key_world key w) = v8 w" "brk (key_world key w) = Suc (brk w)"
  "mctxs (key_world key w) = mctxs w" "mvals (key_world key w) = mvals w" "isolates (key_world key w) = isolates w"
  by (simp_all add: key_world_def)

lemma Object_Set_value:
  assumes ok: "heap_ok w" and mem: "brk w < mem_limit" and ob: "object_in ob i w" "refers (v_ptr (obj_value ob)) q c h x w"
    and v: "refers (v_ptr v) q' c' h' j w" and k: "v8_new_utf8 A q (c_str key) (v8 w) = (e, Some k)"
    and set: "v8_set A h x k j e = Done e' (Some b)"
  shows "Object_Set A ob key (GValue v) w = Ok None (w\<lparr>brk := Suc (brk w), v8 := e'\<rparr>)"
proof -
  have "refers (v_ptr v) q' c' h' j ((key_world key w)\<lparr>v8 := e\<rparr>)" using v by (auto intro: refers_cong)
  then have "withCString key (\<lambda>ckey w. bindR (value_ptr (Some v) w) (\<lambda>vp w.
      bindR (C_ObjectSet A (v_ptr (obj_value ob)) ckey vp w) (\<lambda>_ w. Ok None w))) w = Ok None ((key_world key w)\<lparr>v8 := e', blocks := blocks w\<rparr>)"
    using refers_key [OF ob(2), of key] k set by (intro withCString_key [OF ok mem, THEN trans]) (auto simp: value_ptr_def C_ObjectSet_def checked_def run_def)
  then show ?thesis using ob by (simp add: Object_Set_def coerceValue_def is_primitive_def key_world_def)
qed

text \<open>
  A call with one C string that ends in an \<open>RtnValue\<close>: the Go caller gets the value, tracked by the
  context, or the error, and the string is freed.
\<close>

lemma keyed_value:
  assumes ok: "heap_ok w" and mem: "brk w + 2 \<le> mem_limit" and c: "mctxs w c = Some mc" "isolates w q \<noteq> None"
    and body: "body (brk w) (key_world key w) = bindR (rtn_of A q (Some c) (Some j) ((key_world key w)\<lparr>v8 := e\<rparr>)) (valueResult ctx)"
  obtains v w' where "withCString key body w = Ok (Inr \<lparr>v_ptr = Some v, v_ctx = ctx\<rparr>) w'"
    "mvals w v = None" "refers (Some v) q c (mc_ptr mc) j w'" "v8 w' = e" "blocks w' = blocks w"
proof -
  let ?w = "(key_world key w)\<lparr>v8 := e\<rparr>"
  have hok: "heap_ok ?w" using heap_ok_key_world [OF ok] mem by simp
  obtain v w' where v: "rtn_of A q (Some c) (Some j) ?w = Ok \<lparr>rtn_value = Some v, rtn_error = no_error\<rparr> w'"
    and m: "made v j q c mc ?w w'" "v8 w' = v8 ?w"
    by (rule result_value [OF hok, of c mc A q j]) (use mem c in auto)
  have "withCString key body w = Ok (Inr \<lparr>v_ptr = Some v, v_ctx = ctx\<rparr>) (w'\<lparr>blocks := blocks w\<rparr>)"
    using body v m mem by (intro withCString_key [OF ok]) (auto simp: valueResult_def made_def)
  moreover have "refers (Some v) q c (mc_ptr mc) j (w'\<lparr>blocks := blocks w\<rparr>)"
    using made_refers [OF m(1)] c by (auto intro: refers_cong)
  ultimately show thesis using m by (intro that [of v "w'\<lparr>blocks := blocks w\<rparr>"]) (auto simp: made_def)
qed

lemma keyed_error:
  assumes ok: "heap_ok w" and mem: "brk w + 4 \<le> mem_limit" and caught: "v8_caught A e = Done e' x"
    and body: "body (brk w) (key_world key w) = bindR (rtn_of A q c None ((key_world key w)\<lparr>v8 := e\<rparr>)) (valueResult ctx)"
  shows "withCString key body w = Ok (Inl (JSErr (js_error_of x))) (w\<lparr>v8 := e', brk := Suc (brk w) + strings_of x\<rparr>)"
proof -
  let ?w = "(key_world key w)\<lparr>v8 := e\<rparr>"
  have hok: "heap_ok ?w" using heap_ok_key_world [OF ok] mem by simp
  obtain r w2 where r: "rtn_of A q c None ?w = Ok \<lparr>rtn_value = None, rtn_error = r\<rparr> w2"
    "newJSError r w2 = Ok (JSErr (js_error_of x)) (?w\<lparr>v8 := e', brk := brk ?w + strings_of x\<rparr>)"
    by (rule result_error [OF hok, of A e' x q c]) (use mem caught in auto)
  have "withCString key body w = Ok (Inl (JSErr (js_error_of x))) ((key_world key w)\<lparr>v8 := e', brk := Suc (brk w) + strings_of x\<rparr>\<lparr>blocks := blocks w\<rparr>)"
    using body r mem by (intro withCString_key [OF ok]) (auto simp: valueResult_def)
  then show ?thesis by (simp add: key_world_def)
qed

lemma Object_Get_value:
  assumes ok: "heap_ok w" and mem: "brk w + 2 \<le> mem_limit" and ob: "refers (v_ptr (obj_value ob)) q c h x w"
    and k: "v8_new_utf8 A q (c_str key) (v8 w) = (e, Some k)" and get: "v8_get A h x k e = Done e' (Some j)"
  obtains v w' where "Object_Get A ob key w = Ok (Inr \<lparr>v_ptr = Some v, v_ctx = v_ctx (obj_value ob)\<rparr>) w'"
    "mvals w v = None" "refers (Some v) q c h j w'" "v8 w' = e'" "blocks w' = blocks w"
proof -
  obtain mc where mc: "mctxs w c = Some mc" "isolates w q \<noteq> None" "mc_ptr mc = h" using ob by (auto simp: refers_def)
  show thesis
    by (rule keyed_value [where A = A and j = j and e = e' and key = key and ctx = "v_ctx (obj_value ob)" and
          body = "\<lambda>ckey w. bindR (C_ObjectGet A (v_ptr (obj_value ob)) ckey w) (\<lambda>rtn w. valueResult (v_ctx (obj_value ob)) rtn w)", OF ok mem mc(1,2)])
       (use refers_key [OF ob, of key] k get mc(3) that in \<open>auto simp: C_ObjectGet_def run_def Object_Get_def\<close>)
qed



lemma NewValue_refused:
  assumes live: "live_isolate a q c mc w" and mem: "brk w + 4 \<le> mem_limit" and len: "length s < 2 ^ 31"
    and refused: "v8_new_utf8 A q s (v8 w) = (e, None)" and caught: "v8_caught A e = Done e' x"
  shows "NewValue A (Some a) (GString s) w = Ok (Inl (JSErr (js_error_of x))) (w\<lparr>v8 := e', brk := Suc (brk w) + strings_of x\<rparr>)"
proof -
  have ok: "heap_ok w" using live by (simp add: live_isolate_def world_ok_def)
  have "c_int (int (length s)) = int (length s)" using len by (simp add: c_int_id)
  then have "withCString s (\<lambda>cstr. with_isolate a (\<lambda>i w. bindR (C_NewValueString A (i_ptr i) cstr (c_int (int (length s))) w)
      (\<lambda>rtn w. valueResult None rtn w))) w = Ok (Inl (JSErr (js_error_of x))) (w\<lparr>v8 := e', brk := Suc (brk w) + strings_of x\<rparr>)"
    using live refused
    by (intro keyed_error [where q = q and c = "Some c" and ctx = None, OF ok mem caught])
       (auto simp: key_world_def with_isolate_def C_NewValueString_def internal_scope_def live_isolate_def GoStringN_def ask_def)
  then show ?thesis by (simp add: NewValue_def)
qed

text \<open>
  C36: when V8 refuses to make a string, as it does beyond its maximal length, NewValue returns the
  exception as an error; the comment in coerceValue says this cannot happen and drops the error,
  so that setting a property to the same string panics with a nil dereference.
\<close>

theorem set_refused_string_panics:
  assumes live: "live_isolate a q c mc w" and mem: "brk w + 5 \<le> mem_limit" and len: "length s < 2 ^ 31"
    and ob: "object_in ob a w"
    and refused: "v8_new_utf8 A q s (v8 w) = (e, None)" and caught: "v8_caught A e = Done e' x"
  shows "(\<exists>w1. NewValue A (Some a) (GString s) w = Ok (Inl (JSErr (js_error_of x))) w1) \<and>
     (\<exists>w2. Object_Set A ob key (GString s) w = Fault NilDeref w2)"
proof -
  let ?w = "w\<lparr>v8 := e', brk := Suc (brk w) + strings_of x\<rparr>"
  have new: "NewValue A (Some a) (GString s) w = Ok (Inl (JSErr (js_error_of x))) ?w"
    using mem by (intro NewValue_refused [OF live _ len refused caught]) simp
  have "strings_of x \<le> 3" by (auto simp: strings_of_def)
  then have "\<exists>w2. withCString key (\<lambda>ckey w. bindR (value_ptr None w) (\<lambda>vp w.
      bindR (C_ObjectSet A (v_ptr (obj_value ob)) ckey vp w) (\<lambda>_ w. Ok None w))) ?w = Fault NilDeref w2"
    using mem by (simp add: withCString_def CString_def malloc_def c_new_def value_ptr_def cfree_def)
  then show ?thesis using new ob by (auto simp: Object_Set_def coerceValue_def is_primitive_def)
qed

text \<open>The sample engine with a limit on the length of strings.\<close>

definition short_strings :: "(bytes, jv, nat) env" where
  "short_strings = sample\<lparr>v8_new_utf8 := (\<lambda>_ s e. if 3 < length s then (''Invalid string length'', None) else (e, Some (JString s)))\<rparr>"

theorem set_refused_string_panics_witness:
  "(\<exists>w1 err. NewValue short_strings (Some 1) (GString ''long'') demo_world = Ok (Inl (JSErr err)) w1 \<and> Message err = ''Invalid string length'') \<and>
   (\<exists>w2. Object_Set short_strings (Object \<lparr>v_ptr = Some 7, v_ctx = Some 3\<rparr>) ''k'' (GString ''long'') demo_world = Fault NilDeref w2)"
proof -
  have "object_in (Object \<lparr>v_ptr = Some 7, v_ctx = Some 3\<rparr>) 1 demo_world" by (simp add: object_in_def)
  from set_refused_string_panics [OF demo_live _ _ this, of "''long''" short_strings "''Invalid string length''" "''Invalid string length''"
      "sample_exn ''Invalid string length''" "''k''"]
  show ?thesis by (auto simp: mem_limit_def short_strings_def sample_def js_error_of_def sample_exn_def c_str_def)
qed

section \<open>Internal fields\<close>

text \<open>The index as a C \<open>int\<close>, and the panic for one out of range.\<close>

definition field_index :: "32 word \<Rightarrow> int" where
  "field_index idx = (if uint idx < 2 ^ 31 then uint idx else uint idx - 2 ^ 32)"

definition out_of_range :: "32 word \<Rightarrow> int \<Rightarrow> fault" where
  "out_of_range idx n = PanicErr (GoErr (''index out of range ['' @ dec_nat (unat idx) @ ''] with length '' @ dec_nat (nat n)))"

lemma c_int_field_index: "c_int (uint idx) = field_index idx"
proof (cases "uint idx < 2 ^ 31")
  case False
  then have "c_int (uint idx - 2 ^ 32) = uint idx - 2 ^ 32" using uint_bounded [of idx] by (intro c_int_id) simp_all
  with False show ?thesis using c_int_periodic [of "uint idx" "- 1"] by (simp add: field_index_def)
qed (simp add: c_int_def field_index_def)

lemma index_out_of_range:
  assumes "refers (v_ptr (obj_value ob)) q c h x w" "v8_field_count A x (v8 w) = n" "0 \<le> n" "n < 2 ^ 31"
  shows "index_panic A ob idx w = Fault (out_of_range idx n) w"
proof -
  have "unat (word_of_int n :: 32 word) = nat n" using assms by (simp add: unat_eq_nat_uint uint_word_of_int)
  then show ?thesis using assms by (simp add: index_panic_def Object_InternalFieldCount_def C_ObjectInternalFieldCount_def out_of_range_def)
qed

text \<open>
  C34: an index below 2^31 is checked against the number of internal fields: within, the field is set
  and read; beyond, both methods panic with the index and the length, and V8 is not asked. An
  index of 2^31 or more becomes a negative C \<open>int\<close>, passes the check and reaches V8 as a negative
  index, although the comment promises a panic.
\<close>

theorem internal_field_bounds:
  assumes ok: "heap_ok w" and mem: "brk w < mem_limit"
    and ob: "object_in ob i w" "refers (v_ptr (obj_value ob)) q c h x w" and v: "refers (v_ptr v) q' c' h' j w"
    and n: "v8_field_count A x (v8 w) = n" "0 \<le> n" "n < 2 ^ 31"
  shows "if n \<le> field_index idx
     then SetInternalField A ob idx (GValue v) w = Fault (out_of_range idx n) w \<and> GetInternalField A ob idx w = Fault (out_of_range idx n) w
     else SetInternalField A ob idx (GValue v) w = Ok None (w\<lparr>v8 := v8_set_field A x (field_index idx) j (v8 w)\<rparr>) \<and>
       (\<exists>u w'. GetInternalField A ob idx w = Ok \<lparr>v_ptr = Some u, v_ctx = v_ctx (obj_value ob)\<rparr> w' \<and>
          mvals w u = None \<and> refers (Some u) q c h (v8_get_field A x (field_index idx) (v8 w)) w')"
proof -
  have idx: "c_int (uint idx) = field_index idx" by (rule c_int_field_index)
  obtain mc where mc: "mctxs w c = Some mc" "mc_ptr mc = h" "isolates w q \<noteq> None" using ob by (auto simp: refers_def)
  let ?f = "v8_get_field A x (field_index idx) (v8 w)"
  obtain u w' where u: "new_value q (Some c) ?f w = Ok u w'" "made u ?f q c mc w w'"
    by (rule made_new_value [OF ok mem mc(1), of q ?f])
  have "mvals w u = None" "refers (Some u) q c h ?f w'" using u made_refers [OF u(2)] mc by (auto simp: made_def)
  then show ?thesis
    using ob v n u
    by (auto simp: index_out_of_range [OF ob(2) n] SetInternalField_def coerceValue_def is_primitive_def value_ptr_def C_ObjectSetInternalField_def idx tell_def
       GetInternalField_def C_ObjectGetInternalField_def)
qed

theorem internal_field_bounds_witness:
  "SetInternalField sample (Object \<lparr>v_ptr = Some 7, v_ctx = Some 3\<rparr>) 2 (GValue \<lparr>v_ptr = Some 7, v_ctx = None\<rparr>) (demo_value (JObject 2)) =
     Fault (out_of_range 2 2) (demo_value (JObject 2)) \<and>
   SetInternalField sample (Object \<lparr>v_ptr = Some 7, v_ctx = Some 3\<rparr>) 1 (GValue \<lparr>v_ptr = Some 7, v_ctx = None\<rparr>) (demo_value (JObject 2)) =
     Ok None (demo_value (JObject 2)) \<and>
   (\<exists>u w'. GetInternalField sample (Object \<lparr>v_ptr = Some 7, v_ctx = Some 3\<rparr>) 4294967295 (demo_value (JObject 2)) = Ok u w')"
proof -
  have ob: "object_in (Object \<lparr>v_ptr = Some 7, v_ctx = Some 3\<rparr>) 1 (demo_value (JObject 2))"
    using demo_value_made [of "JObject 2"] by (simp add: object_in_def made_def)
  have n: "v8_field_count sample (JObject 2) (v8 (demo_value (JObject 2))) = 2" by (simp add: sample_def)
  have mem: "brk (demo_value (JObject 2)) < mem_limit" by (simp add: mem_limit_def)
  have v: "refers (v_ptr (obj_value (Object \<lparr>v_ptr = Some 7, v_ctx = Some 3\<rparr>))) 2 6 (JContext 1) (JObject 2) (demo_value (JObject 2))"
    "refers (v_ptr \<lparr>v_ptr = Some 7, v_ctx = None\<rparr>) 2 6 (JContext 1) (JObject 2) (demo_value (JObject 2))"
    by (simp_all add: demo_value_refers)
  note T = internal_field_bounds [OF demo_value_heap_ok mem ob v n]
  have "field_index 2 = 2" "field_index 1 = 1" "field_index 4294967295 = - 1" by (simp_all add: field_index_def)
  moreover have "v8_set_field sample (JObject 2) 1 (JObject 2) [] = []" by (simp add: sample_def)
  ultimately show ?thesis using T [of 2] T [of 1] T [of 4294967295] by auto
qed

section \<open>Calls\<close>

text \<open>The handles behind a list of Go values.\<close>

definition all_refer :: "Value list \<Rightarrow> 'j list \<Rightarrow> ('e, 'j, 'cb) world \<Rightarrow> bool" where
  "all_refer vs js w \<longleftrightarrow> list_all2 (\<lambda>v j. \<exists>q c h. refers (v_ptr v) q c h j w) vs js"

lemma get_handles_refer: "all_refer vs js w \<Longrightarrow> get_handles (map v_ptr vs) w = Ok js w"
  unfolding all_refer_def by (induction rule: list_all2_induct) auto

lemma buildCallArguments_refer:
  "all_refer vs js w \<Longrightarrow> length vs < 2 ^ 31 \<Longrightarrow> buildCallArguments (c_int (int (length vs))) (map v_ptr vs) w = Ok js w"
  by (simp add: buildCallArguments_def c_int_id get_handles_refer)

text \<open>
  C24: Call hands V8 the function, the receiver and the arguments, in their order and all of them,
  and returns what the function returns as a new value tracked by the context of the function; an
  exception comes back as a \<open>*JSError\<close> and no value is made.
\<close>

theorem call_passes_arguments:
  assumes ok: "heap_ok w" and mem: "brk w + 3 \<le> mem_limit"
    and fn: "refers (v_ptr (fn_value fn)) q c h f w" and recv: "refers (v_ptr recv) q' c' h' r w"
    and args: "all_refer args js w" "length args < 2 ^ 31"
    and call: "v8_call A h f r js (v8 w) = Done e res" and caught: "res = None \<Longrightarrow> v8_caught A e = Done e' x"
  shows "\<exists>rtn w'. Function_Call A fn recv args w = Ok rtn w' \<and> blocks w' = blocks w \<and>
     (case res of
        Some j \<Rightarrow> (\<exists>v. rtn = Inr \<lparr>v_ptr = Some v, v_ctx = v_ctx (fn_value fn)\<rparr> \<and> mvals w v = None \<and> refers (Some v) q c h j w' \<and>
          retained w' c = insert v (retained w c))
      | None \<Rightarrow> rtn = Inl (JSErr (js_error_of x)) \<and> mvals w' = mvals w)"
proof -
  obtain mc where mc: "mctxs w c = Some mc" "mc_ptr mc = h" "isolates w q \<noteq> None" using fn by (auto simp: refers_def)
  have hok: "heap_ok (w\<lparr>v8 := e\<rparr>)" using ok by simp
  have call: "C_FunctionCall A (v_ptr (fn_value fn)) (v_ptr recv) (c_int (int (length args))) (map v_ptr args) w =
      rtn_of A q (Some c) res (w\<lparr>v8 := e\<rparr>)"
    using fn recv call by (simp add: C_FunctionCall_def buildCallArguments_refer [OF args] run_def)
  show ?thesis
  proof (cases res)
    case None
    obtain rt w2 where rt: "rtn_of A q (Some c) None (w\<lparr>v8 := e\<rparr>) = Ok \<lparr>rtn_value = None, rtn_error = rt\<rparr> w2"
      "newJSError rt w2 = Ok (JSErr (js_error_of x)) (w\<lparr>v8 := e\<rparr>\<lparr>v8 := e', brk := brk w + strings_of x\<rparr>)"
      by (rule result_error [OF hok, of A e' x q "Some c"]) (use mem caught None in auto)
    then show ?thesis using None by (simp add: Function_Call_def call valueResult_def)
  next
    case (Some j)
    obtain v w' where v: "rtn_of A q (Some c) (Some j) (w\<lparr>v8 := e\<rparr>) = Ok \<lparr>rtn_value = Some v, rtn_error = no_error\<rparr> w'"
      and m: "made v j q c mc (w\<lparr>v8 := e\<rparr>) w'"
      by (rule result_value [OF hok, of c mc A q j]) (use mem mc in auto)
    have "refers (Some v) q c h j w'" using made_refers [OF m] mc by auto
    moreover have "retained w' c = insert v (retained w c)" "mvals w v = None" "blocks w' = blocks w"
      using m by (auto simp: made_def)
    ultimately show ?thesis using v Some by (simp add: Function_Call_def call valueResult_def)
  qed
qed

theorem call_passes_arguments_witness:
  "\<exists>v w'. Function_Call sample (Function \<lparr>v_ptr = Some 7, v_ctx = Some 3\<rparr>) \<lparr>v_ptr = Some 5, v_ctx = None\<rparr>
     [\<lparr>v_ptr = Some 4, v_ctx = None\<rparr>, \<lparr>v_ptr = Some 5, v_ctx = None\<rparr>] (demo_value (JFunction 1)) = Ok (Inr \<lparr>v_ptr = Some v, v_ctx = Some 3\<rparr>) w' \<and>
     refers (Some v) 2 6 (JContext 1) JNull w'"
proof -
  have v: "refers (Some 4) 2 3 (JContext 0) JNull (demo_value (JFunction 1))" "refers (Some 5) 2 3 (JContext 0) JUndefined (demo_value (JFunction 1))"
    using demo_value_made [of "JFunction 1"] by (simp_all add: refers_def made_def demo_world_def)
  have args: "all_refer [\<lparr>v_ptr = Some 4, v_ctx = None\<rparr>, \<lparr>v_ptr = Some 5, v_ctx = None\<rparr>] [JNull, JUndefined] (demo_value (JFunction 1))"
    using v by (auto simp: all_refer_def)
  from call_passes_arguments [OF demo_value_heap_ok _ _ _ args, of "Function \<lparr>v_ptr = Some 7, v_ctx = Some 3\<rparr>" 2 6 "JContext 1" "JFunction 1"
      "\<lparr>v_ptr = Some 5, v_ctx = None\<rparr>" 2 3 "JContext 0" JUndefined sample "[]" "Some JNull" "[]" "sample_exn []"]
  show ?thesis using v by (auto simp: mem_limit_def demo_value_refers sample_def)
qed

section \<open>Attributes\<close>

text \<open>The bits of \<open>enum PropertyAttribute\<close> in V8's header, and what V8 reads out of the attributes it is passed.\<close>

definition v8_ReadOnly :: nat where
  "v8_ReadOnly = 0"

definition v8_DontEnum :: nat where
  "v8_DontEnum = 1"

definition v8_DontDelete :: nat where
  "v8_DontDelete = 2"

definition v8_reads :: "nat \<Rightarrow> PropertyAttribute list \<Rightarrow> bool" where
  "v8_reads n attributes = bit (uint (join_attributes attributes)) n"

lemma bit_attribute: "n < 8 \<Longrightarrow> bit (push_bit k 1 :: PropertyAttribute) n \<longleftrightarrow> n = k"
  by (auto simp: bit_exp_iff)

lemma bit_join_attributes: "bit (join_attributes as) n \<longleftrightarrow> (\<exists>a \<in> set as. bit a n)"
proof -
  have "bit (fold (\<lambda>a attrs. attrs OR a) as b) n \<longleftrightarrow> bit b n \<or> (\<exists>a \<in> set as. bit a n)" for b :: PropertyAttribute
    by (induction as arbitrary: b) (auto simp: bit_or_iff)
  then show ?thesis by (simp add: join_attributes_def)
qed

text \<open>
  C29: the attributes of a template's property combine by union, but the Go constants are shifted by
  one against V8's: a property marked \<open>ReadOnly\<close> is stored as not enumerable and stays writable,
  one marked \<open>DontEnum\<close> is stored as not deletable, and \<open>DontDelete\<close> is none of V8's attributes.
\<close>

theorem attributes_shifted:
  assumes "set attributes \<subseteq> {Attr_None, ReadOnly, DontEnum, DontDelete}"
  shows "\<not> v8_reads v8_ReadOnly attributes \<and> (v8_reads v8_DontEnum attributes \<longleftrightarrow> ReadOnly \<in> set attributes) \<and>
     (v8_reads v8_DontDelete attributes \<longleftrightarrow> DontEnum \<in> set attributes)"
proof -
  have bits: "\<not> bit Attr_None n" "bit ReadOnly n \<longleftrightarrow> n = 1" "bit DontEnum n \<longleftrightarrow> n = 2" "bit DontDelete n \<longleftrightarrow> n = 3" if "n < 8" for n
    using that by (simp_all only: Attr_None_def ReadOnly_def DontEnum_def DontDelete_def bit_attribute bit_0_eq bot_apply bot_bool_def not_False_eq_True)
  have "v8_reads n attributes \<longleftrightarrow> (\<exists>a \<in> set attributes. bit a n)" if "n < 8" for n
    using that by (simp add: v8_reads_def bit_uint_iff bit_join_attributes)
  then have reads: "v8_reads 0 attributes \<longleftrightarrow> (\<exists>a \<in> set attributes. bit a 0)" "v8_reads 1 attributes \<longleftrightarrow> (\<exists>a \<in> set attributes. bit a 1)"
    "v8_reads 2 attributes \<longleftrightarrow> (\<exists>a \<in> set attributes. bit a 2)" by simp_all
  have cases: "a = Attr_None \<or> a = ReadOnly \<or> a = DontEnum \<or> a = DontDelete" if "a \<in> set attributes" for a
    using assms that by blast
  have "\<not> v8_reads 0 attributes" "v8_reads 1 attributes \<longleftrightarrow> ReadOnly \<in> set attributes" "v8_reads 2 attributes \<longleftrightarrow> DontEnum \<in> set attributes"
    unfolding reads using bits [of 0] bits [of 1] bits [of 2] by (simp_all, (metis cases)+)
  then show ?thesis by (simp add: v8_ReadOnly_def v8_DontEnum_def v8_DontDelete_def)
qed

theorem attributes_shifted_witness:
  "set [ReadOnly, Attr_None] \<subseteq> {Attr_None, ReadOnly, DontEnum, DontDelete} \<and> \<not> v8_reads v8_ReadOnly [ReadOnly, Attr_None] \<and> v8_reads v8_DontEnum [ReadOnly, Attr_None]"
  using attributes_shifted [of "[ReadOnly, Attr_None]"] by simp

section \<open>Templates\<close>

text \<open>
  A Go value can be set on a template unless V8 takes it for an object or an external. The
  template then receives the handle of the value under the name up to its first NUL byte, with the
  union of the attributes; otherwise Set returns an error and the template is not touched.
\<close>

theorem template_set_value:
  assumes ok: "heap_ok w" and mem: "brk w < mem_limit"
    and t: "gtmpls w t = Some tm" "t_ptr tm = Some p" "mtmpls w p = Some mt" "isolates w (mt_iso mt) \<noteq> None"
    and v: "refers (v_ptr v) q c h j w" and name: "v8_new_utf8 A (mt_iso mt) (c_str name) (v8 w) = (e, Some k)"
  shows "template_Set A t name (GValue v) attributes w =
     (if v_ctx v \<noteq> None \<and> (v8_is A PObject j (v8 w) \<or> v8_is A PExternal j (v8 w))
      then Ok (Some unsupported_property) (w\<lparr>brk := Suc (brk w)\<rparr>)
      else Ok None (w\<lparr>brk := Suc (brk w), v8 := v8_template_set A (mt_ptr mt) k j (uint (join_attributes attributes)) e\<rparr>))"
proof -
  let ?bad = "v_ctx v \<noteq> None \<and> (v8_is A PObject j (v8 w) \<or> v8_is A PExternal j (v8 w))"
  define r where "r = (if ?bad then Some unsupported_property else None)"
  define w2 where "w2 = (key_world name w)\<lparr>v8 := if ?bad then v8 w else v8_template_set A (mt_ptr mt) k j (uint (join_attributes attributes)) e\<rparr>"
  have kv: "refers (v_ptr v) q c h j (key_world name w)" "refers (v_ptr v) q c h j ((key_world name w)\<lparr>v8 := e\<rparr>)"
    using v by (auto intro: refers_cong)
  have tm: "gtmpls (key_world name w) = gtmpls w" "mtmpls (key_world name w) = mtmpls w" by (simp_all add: key_world_def)
  have val: "C_TemplateSetValue A (Some p) (brk w) (v_ptr v) attrs (key_world name w) =
      Ok () ((key_world name w)\<lparr>v8 := v8_template_set A (mt_ptr mt) k j attrs e\<rparr>)" for attrs
    using t name kv by (simp add: C_TemplateSetValue_def local_template_def tm checked_def tell_def)
  have "template_Set A t name (GValue v) attributes w = Ok r (w2\<lparr>blocks := blocks w\<rparr>)"
    unfolding template_Set_def Let_def is_primitive_def using kv t
    by (intro withCString_key [OF ok mem])
       (auto simp: r_def w2_def IsObject_def IsExternal_def value_is_def C_ValueIs_def with_template_def tm val)
  then show ?thesis by (simp add: r_def w2_def key_world_def)
qed

definition demo_template :: "jv \<Rightarrow> (bytes, jv, nat) world" where
  "demo_template j = (demo_value j)\<lparr>brk := 9, mtmpls := (mtmpls (demo_value j))(8 \<mapsto> \<lparr>mt_iso = 2, mt_ptr = JTemplate 0\<rparr>),
     gtmpls := (gtmpls (demo_value j))(4 \<mapsto> \<lparr>t_ptr = Some 8, t_iso = Some 1\<rparr>)\<rparr>"

theorem template_set_value_witness:
  "(\<exists>w'. template_Set sample 4 ''p'' (GValue \<lparr>v_ptr = Some 7, v_ctx = Some 3\<rparr>) [ReadOnly] (demo_template (JString ''a'')) = Ok None w') \<and>
   (\<exists>w'. template_Set sample 4 ''p'' (GValue \<lparr>v_ptr = Some 7, v_ctx = Some 3\<rparr>) [] (demo_template (JObject 0)) = Ok (Some unsupported_property) w')"
proof -
  have ok: "heap_ok (demo_template j)" for j
    using heap_mtmpls_upd [OF heap_ok_brk [OF demo_value_heap_ok], where t = 8] by (simp add: demo_template_def mem_limit_def)
  have v: "refers (v_ptr \<lparr>v_ptr = Some 7, v_ctx = Some 3\<rparr>) 2 6 (JContext 1) j (demo_template j)" for j
    using demo_value_refers [of j] by (auto simp: demo_template_def intro: refers_cong)
  have t: "gtmpls (demo_template j) 4 = Some \<lparr>t_ptr = Some 8, t_iso = Some 1\<rparr>" "mtmpls (demo_template j) 8 = Some \<lparr>mt_iso = 2, mt_ptr = JTemplate 0\<rparr>"
    "isolates (demo_template j) 2 \<noteq> None" "brk (demo_template j) < mem_limit" for j
    using demo_value_made [of j] by (simp_all add: demo_template_def mem_limit_def made_def)
  show ?thesis
    using template_set_value [OF ok t(4) t(1) _ t(2) _ v, of "JString ''a''" sample "''p''" "[]" "JString ''p''" "[ReadOnly]"]
      template_set_value [OF ok t(4) t(1) _ t(2) _ v, of "JObject 0" sample "''p''" "[]" "JString ''p''" "[]"] t(3)
    by (simp add: sample_def sample_is_def c_str_def demo_template_def)
qed

section \<open>Promises\<close>

lemma registerCallback_iso:
  assumes "gisos w i = Some g" "0 \<le> cbSeq g" "cbSeq g + 1 < 2 ^ 63" "gbrk w < mem_limit"
  shows "Isolate_registerCallback i f w =
     Ok (cbSeq g + 1) (w\<lparr>gbrk := Suc (gbrk w), gisos := (gisos w)(i \<mapsto> g\<lparr>cbSeq := cbSeq g + 1, cbs := (cbs g)(cbSeq g + 1 \<mapsto> f)\<rparr>)\<rparr>)"
  using assms
  by (simp add: Isolate_registerCallback_def with_isolate_def registerCallback_def c_long_def write_iso_def Let_def go_new_def add.commute)



section \<open>JSON\<close>

text \<open>
  C31: JSONStringify without a context serialises in the context of the value and returns the text
  up to its first NUL byte. When V8 fails, for instance on a cyclic object, it returns the empty
  string and no error, so that MarshalJSON takes the failure for a result.
\<close>

theorem stringify_result:
  assumes ok: "heap_ok w" and mem: "brk w < mem_limit" and v: "refers (v_ptr v) q c h j w"
    and json: "v8_json_stringify A h j (v8 w) = Done e r"
  shows "\<exists>w'. JSONStringify A None (Some v) w = Ok (Inr (case r of None \<Rightarrow> [] | Some s \<Rightarrow> c_str s)) w' \<and>
     MarshalJSON A (Some v) w = Ok (Inr (case r of None \<Rightarrow> [] | Some s \<Rightarrow> c_str s)) w' \<and> blocks w' = blocks w \<and> v8 w' = e"
proof -
  obtain p mv mc i where p: "v_ptr v = Some p" "mvals w p = Some mv" "mv_iso mv = q" "mv_ctx mv = Some c" "mv_ptr mv = j"
    "mctxs w c = Some mc" "mc_ptr mc = h" "isolates w q = Some i"
    using v by (auto simp: refers_def)
  define w' where "w' = (case r of None \<Rightarrow> w\<lparr>v8 := e\<rparr> | Some s \<Rightarrow> if s = [] then w\<lparr>v8 := e\<rparr> else w\<lparr>v8 := e, brk := Suc (brk w)\<rparr>)"
  have "C_JSONStringify A None (Some p) w = (case r of None \<Rightarrow> Ok None (w\<lparr>v8 := e\<rparr>) | Some s \<Rightarrow> CopyUtf8 s (w\<lparr>v8 := e\<rparr>))"
    using p json by (auto simp: C_JSONStringify_def internal_scope_def run_def split: option.splits)
  then have "JSONStringify A None (Some v) w = Ok (Inr (case r of None \<Rightarrow> [] | Some s \<Rightarrow> c_str s)) w'"
    using p ok mem
    by (auto simp: JSONStringify_def CopyUtf8_def CopyString_def malloc_def c_new_def GoString_def read_cstr_def cfree_def w'_def
        split: option.splits)
  moreover have "blocks w' = blocks w" "v8 w' = e" by (auto simp: w'_def split: option.splits)
  ultimately show ?thesis by (auto simp: MarshalJSON_def)
qed

theorem stringify_result_witness:
  "(\<exists>w'. JSONStringify sample None (Some \<lparr>v_ptr = Some 7, v_ctx = Some 3\<rparr>) (demo_value (JString ''ab'')) = Ok (Inr ''ab'') w') \<and>
   (\<exists>w'. MarshalJSON sample (Some \<lparr>v_ptr = Some 7, v_ctx = Some 3\<rparr>) (demo_value (JObject 0)) = Ok (Inr []) w')"
  using stringify_result [of "demo_value (JString ''ab'')" "\<lparr>v_ptr = Some 7, v_ctx = Some 3\<rparr>" 2 6 "JContext 1" "JString ''ab''" sample "[]" "Some ''ab''"]
    stringify_result [of "demo_value (JObject 0)" "\<lparr>v_ptr = Some 7, v_ctx = Some 3\<rparr>" 2 6 "JContext 1" "JObject 0" sample "[]" None]
  by (auto simp: demo_value_heap_ok demo_value_refers mem_limit_def sample_def c_str_def)

text \<open>An open context of the client.\<close>

definition open_in :: "addr \<Rightarrow> addr \<Rightarrow> addr \<Rightarrow> 'j m_ctx \<Rightarrow> ('e, 'j, 'cb) world \<Rightarrow> bool" where
  "open_in a c q mc w \<longleftrightarrow> (\<exists>g. gctxs w a = Some g \<and> c_ptr g = Some c) \<and> mctxs w c = Some mc \<and> mc_iso mc = q \<and> isolates w q \<noteq> None"

lemma C_JSONParse_string:
  assumes a: "open_in a c q mc w" and str: "v8_new_utf8 A q (c_str text) (v8 w) = (e, Some s)"
    and parse: "v8_json_parse A (mc_ptr mc) s e = (e2, res)" and p: "p = brk w"
  shows "with_context a (\<lambda>g w. bindR (C_JSONParse A (c_ptr g) p w) (\<lambda>rtn w. valueResult (Some a) rtn w)) (key_world text w) =
     bindR (rtn_of A q (Some c) res ((key_world text w)\<lparr>v8 := e2\<rparr>)) (valueResult (Some a))"
proof -
  have "gctxs (key_world text w) = gctxs w" by (simp add: key_world_def)
  then show ?thesis using assms by (auto simp: with_context_def C_JSONParse_def local_context_def open_in_def ask_def)
qed

lemma JSONParse_refused:
  assumes mem: "brk w + 4 \<le> mem_limit" and a: "open_in a c q mc w"
    and str: "v8_new_utf8 A q (c_str text) (v8 w) = (e, None)" and caught: "v8_caught A e = Done e' x"
  shows "\<exists>w'. JSONParse A (Some a) text w = Fault Segv w'"
proof -
  let ?k = "key_world text w"
  obtain r w2 where "ExceptionError x (?k\<lparr>v8 := e'\<rparr>) = Ok r w2"
    using ExceptionError_succeeds [of "?k\<lparr>v8 := e'\<rparr>" x] mem by auto
  then have "C_JSONParse A (Some c) (brk w) ?k = Fault Segv w2"
    using a str caught by (auto simp: C_JSONParse_def local_context_def open_in_def raised_def run_def)
  moreover have "CString text w = Ok (brk w) ?k" "gctxs ?k = gctxs w"
    using mem by (simp_all add: CString_def malloc_def c_new_def key_world_def)
  ultimately show ?thesis using a by (auto simp: JSONParse_def withCString_def with_context_def open_in_def)
qed

text \<open>
  C30: JSONParse returns what V8 parses the text to as a new value of the context, and a text V8
  does not accept as a \<open>*JSError\<close>. But when V8 cannot even make the string, the C++ half goes on
  after it has built the error, as a \<open>return\<close> is missing, and V8 dereferences an empty handle.
\<close>

theorem parse_result:
  assumes ok: "heap_ok w" and mem: "brk w + 4 \<le> mem_limit" and a: "open_in a c q mc w"
    and str: "v8_new_utf8 A q (c_str text) (v8 w) = (e, s)"
    and caught: "v8_caught A (case s of None \<Rightarrow> e | Some s \<Rightarrow> fst (v8_json_parse A (mc_ptr mc) s e)) = Done e' x"
  shows "case s of
       None \<Rightarrow> \<exists>w'. JSONParse A (Some a) text w = Fault Segv w'
     | Some s \<Rightarrow>
        (case snd (v8_json_parse A (mc_ptr mc) s e) of
           None \<Rightarrow> \<exists>w'. JSONParse A (Some a) text w = Ok (Inl (JSErr (js_error_of x))) w' \<and> mvals w' = mvals w \<and> blocks w' = blocks w
         | Some j \<Rightarrow> \<exists>v w'. JSONParse A (Some a) text w = Ok (Inr \<lparr>v_ptr = Some v, v_ctx = Some a\<rparr>) w' \<and> mvals w v = None \<and>
             refers (Some v) q c (mc_ptr mc) j w' \<and> blocks w' = blocks w)"
proof (cases s)
  case None
  then show ?thesis using JSONParse_refused [OF mem a] str caught by simp
next
  case (Some u)
  obtain e2 res where p: "v8_json_parse A (mc_ptr mc) u e = (e2, res)" by fastforce
  note body = C_JSONParse_string [OF a str [unfolded Some] p refl]
  show ?thesis
  proof (cases res)
    case None
    have "JSONParse A (Some a) text w = Ok (Inl (JSErr (js_error_of x))) (w\<lparr>v8 := e', brk := Suc (brk w) + strings_of x\<rparr>)"
      unfolding JSONParse_def option.case using caught Some p body [unfolded None]
      by (intro keyed_error [where q = q and c = "Some c" and ctx = "Some a" and e = e2, OF ok mem]) auto
    then show ?thesis using Some p None by simp
  next
    case j: (Some j)
    have mc: "mctxs w c = Some mc" "isolates w q \<noteq> None" using a by (auto simp: open_in_def)
    have room: "brk w + 2 \<le> mem_limit" using mem by simp
    obtain v w' where "JSONParse A (Some a) text w = Ok (Inr \<lparr>v_ptr = Some v, v_ctx = Some a\<rparr>) w'"
      "mvals w v = None" "refers (Some v) q c (mc_ptr mc) j w'" "blocks w' = blocks w"
      unfolding JSONParse_def option.case
      by (rule keyed_value [where key = "text" and ctx = "Some a" and A = A and j = j and e = e2 and
            body = "\<lambda>cstr. with_context a (\<lambda>g w. bindR (C_JSONParse A (c_ptr g) cstr w) (\<lambda>rtn w. valueResult (Some a) rtn w))",
            OF ok room mc]) (use body [unfolded j] in auto)
    then show ?thesis using Some p j by auto
  qed
qed

theorem parse_result_witness:
  "(\<exists>v w'. JSONParse sample (Some 3) ''7'' demo_world = Ok (Inr \<lparr>v_ptr = Some v, v_ctx = Some 3\<rparr>) w' \<and> refers (Some v) 2 6 (JContext 1) (JString ''7'') w') \<and>
   (\<exists>w' err. JSONParse sample (Some 3) [] demo_world = Ok (Inl err) w') \<and> (\<exists>w'. JSONParse short_strings (Some 3) ''long'' demo_world = Fault Segv w')"
proof -
  have ok: "heap_ok demo_world" "brk demo_world + 4 \<le> mem_limit" using demo_world_ok by (auto simp: world_ok_def mem_limit_def)
  have a: "open_in 3 6 2 \<lparr>mc_iso = 2, mc_vals = [], mc_unboundScripts = [], mc_ptr = JContext 1, mc_nextValId = 0\<rparr> demo_world"
    by (simp add: open_in_def)
  show ?thesis
    using parse_result [OF ok a, of sample "''7''" "[]" "Some (JString ''7'')" "[]" "sample_exn []"]
      parse_result [OF ok a, of sample "[]" "[]" "Some (JString [])" "[]" "sample_exn []"]
      parse_result [OF ok a, of short_strings "''long''" "''Invalid string length''" None "''Invalid string length''" "sample_exn ''Invalid string length''"]
    by (auto simp: sample_def short_strings_def c_str_def)
qed

end
