(* ===== verification/Composition.thy ===== *)
theory Composition
  imports Scripting Objects
begin

text \<open>
  The components together: a Go closure becomes a JavaScript function and is called through it.
  The path goes through the callback table of the isolate, the template, the function, the call,
  and back from V8 through the registry of contexts to the closure.
\<close>

section \<open>The steps of the path\<close>

lemma NewFunctionTemplate_eq:
  assumes g: "gisos w i = Some g" "i_ptr g = Some q" "isolates w q \<noteq> None" "0 \<le> cbSeq g" "cbSeq g + 1 < 2 ^ 31"
    and mem: "brk w < mem_limit" "Suc (gbrk w) < mem_limit"
    and v8: "v8_function_template A q (cbSeq g + 1) (v8 w) = (e, j)"
  shows "NewFunctionTemplate A (Some i) (Some cb) w = Ok (Suc (gbrk w))
     (w\<lparr>gbrk := Suc (Suc (gbrk w)), gisos := (gisos w)(i \<mapsto> g\<lparr>cbSeq := cbSeq g + 1, cbs := (cbs g)(cbSeq g + 1 \<mapsto> cb)\<rparr>),
        v8 := e, brk := Suc (brk w), mtmpls := (mtmpls w)(brk w \<mapsto> \<lparr>mt_iso = q, mt_ptr = j\<rparr>),
        gtmpls := (gtmpls w)(Suc (gbrk w) \<mapsto> \<lparr>t_ptr = Some (brk w), t_iso = Some i\<rparr>)\<rparr>)"
proof -
  from g(3) obtain y where "isolates w q = Some y" by blast
  moreover have "c_int (cbSeq g + 1) = cbSeq g + 1" by (rule c_int_id) (use g in auto)
  ultimately show ?thesis
    using registerCallback_iso [OF g(1,4), of cb] g mem v8
    by (simp add: NewFunctionTemplate_def C_NewFunctionTemplate_def with_isolate_def isolate_scope_def ask_def new_m_template_def
      new_template_def c_new_def go_new_def)
qed

lemma GetFunction_made:
  assumes ok: "heap_ok w" and mem: "brk w < mem_limit"
    and t: "gtmpls w t = Some tm" "t_ptr tm = Some u" "mtmpls w u = Some mt" "isolates w (mt_iso mt) \<noteq> None"
    and c: "gctxs w a = Some c" "c_ptr c = Some p" "mctxs w p = Some mc"
    and v8: "v8_template_function A (mt_ptr mt) (mc_ptr mc) (v8 w) = (e, Some f)"
  obtains v w' where "GetFunction A t a w = Ok (Function \<lparr>v_ptr = Some v, v_ctx = Some a\<rparr>) w'"
    "refers (Some v) (mt_iso mt) p (mc_ptr mc) f w'" "v8 w' = e" "same_go w w'" "blocks w' = blocks w" "brk w' = Suc (brk w)"
    "heap_ok w'" "retained w' p = insert v (retained w p)" "\<And>x q c h j. refers x q c h j w \<Longrightarrow> refers x q c h j w'"
proof -
  have "heap_ok (w\<lparr>v8 := e\<rparr>)" using ok by simp
  then obtain v w' where
    new: "new_value (mt_iso mt) (Some p) f (w\<lparr>v8 := e\<rparr>) = Ok v w'" "mvals w v = None" "brk w' = Suc (brk w)"
      "mvals w' = (mvals w)(v \<mapsto> \<lparr>mv_id = c_long (mc_nextValId mc + 1), mv_iso = mt_iso mt, mv_ctx = Some p, mv_ptr = f\<rparr>)"
      "retained w' p = insert v (retained w p)" "blocks w' = blocks w" "v8 w' = e" "same_go w w'"
      "mctxs w' = (mctxs w)(p \<mapsto> snd (track v mc))" "heap_ok w'"
    by (rule new_value_succeeds [of "w\<lparr>v8 := e\<rparr>" p mc "mt_iso mt" f]) (use mem c(3) in \<open>auto simp: same_go_def\<close>)
  have "GetFunction A t a w = Ok (Function \<lparr>v_ptr = Some v, v_ctx = Some a\<rparr>) w'"
    using t c v8 new(1) by (simp add: GetFunction_def C_FunctionTemplateGetFunction_def with_template_def with_context_def
        local_template_def ask_def rtn_of_def give_value_def valueResult_def or_panic_def)
  moreover have "refers (Some v) (mt_iso mt) p (mc_ptr mc) f w'"
    using new t(4) by (auto simp: refers_def same_go_def track_def Let_def)
  moreover have "refers x q d h j w'" if "refers x q d h j w" for x q d h j
  proof -
    from that obtain y mv md where y: "x = Some y" "mvals w y = Some mv" "mv_iso mv = q" "mv_ctx mv = Some d" "mv_ptr mv = j"
      "mctxs w d = Some md" "mc_ptr md = h" "isolates w q \<noteq> None" by (auto simp: refers_def)
    have "y \<noteq> v" using y(2) new(2) by auto
    moreover have "map_option mc_ptr (mctxs w' d) = Some h" using new(9) y c(3) by (auto simp: track_def Let_def)
    ultimately show ?thesis using y new(4,8) by (auto simp: refers_def same_go_def)
  qed
  ultimately show thesis using new that by blast
qed

section \<open>A Go closure as a JavaScript function\<close>

text \<open>The client: a function template for the closure, its function in the context at \<open>a\<close>, a call of it.\<close>

definition call_closure :: "('e, 'j, 'cb) env \<Rightarrow> addr \<Rightarrow> addr \<Rightarrow> 'cb \<Rightarrow> Value \<Rightarrow> Value list \<Rightarrow> (goerror + Value, 'e, 'j, 'cb) op" where
  "call_closure A i a cb recv args w =
     bindR (NewFunctionTemplate A (Some i) (Some cb) w) (\<lambda>t w.
     bindR (GetFunction A t a w) (\<lambda>fn w. Function_Call A fn recv args w))"

text \<open>The first two steps: the function exists and its reference leads to the closure.\<close>

lemma function_of_closure:
  assumes ok: "world_ok w" and c: "gctxs w a = Some c" "c_ptr c = Some p" "mctxs w p = Some mc"
    and g: "gisos w (c_iso c) = Some g" "i_ptr g = Some q" "cbSeq g + 1 < 2 ^ 31"
    and mem: "brk w + 2 \<le> mem_limit" "gbrk w + 2 \<le> mem_limit"
    and tmpl: "v8_function_template A q (cbSeq g + 1) (v8 w) = (e1, T)"
    and func: "v8_template_function A T (mc_ptr mc) e1 = (e2, Some F)"
  obtains v w' g' where "call_closure A (c_iso c) a cb recv args w = Function_Call A (Function \<lparr>v_ptr = Some v, v_ctx = Some a\<rparr>) recv args w'"
    "refers (Some v) q p (mc_ptr mc) F w'" "world_ok w'" "v8 w' = e2" "blocks w' = blocks w" "brk w' = brk w + 2"
    "gctxs w' = gctxs w" "gisos w' (c_iso c) = Some g'" "getCallback (cbSeq g + 1) g' = Some cb"
    "retained w' p = insert v (retained w p)" "\<And>x q c h j. refers x q c h j w \<Longrightarrow> refers x q c h j w'"
proof -
  let ?t = "Suc (gbrk w)" and ?g = "g\<lparr>cbSeq := cbSeq g + 1, cbs := (cbs g)(cbSeq g + 1 \<mapsto> cb)\<rparr>"
  let ?w = "w\<lparr>gbrk := Suc ?t, gisos := (gisos w)(c_iso c \<mapsto> ?g), v8 := e1, brk := Suc (brk w),
     mtmpls := (mtmpls w)(brk w \<mapsto> \<lparr>mt_iso = q, mt_ptr = T\<rparr>), gtmpls := (gtmpls w)(?t \<mapsto> \<lparr>t_ptr = Some (brk w), t_iso = Some (c_iso c)\<rparr>)\<rparr>"
  have q: "isolates w q \<noteq> None" "0 \<le> cbSeq g" using gisosD [OF ok g(1)] g(2) by (auto simp: cbs_ok_def)
  have new: "NewFunctionTemplate A (Some (c_iso c)) (Some cb) w = Ok ?t ?w"
    by (rule NewFunctionTemplate_eq) (use g q mem tmpl in auto)
  have ok1: "world_ok ?w" using world_NewFunctionTemplate [OF ok, of A "Some (c_iso c)" "Some cb"] by (simp only: new holds.simps)
  then have hok1: "heap_ok ?w" by (simp add: world_ok_def)
  obtain v w' where v: "GetFunction A ?t a ?w = Ok (Function \<lparr>v_ptr = Some v, v_ctx = Some a\<rparr>) w'"
    "refers (Some v) q p (mc_ptr mc) F w'" "v8 w' = e2" "same_go ?w w'" "blocks w' = blocks w" "brk w' = Suc (Suc (brk w))"
    "heap_ok w'" "retained w' p = insert v (retained ?w p)" "\<And>x q c h j. refers x q c h j ?w \<Longrightarrow> refers x q c h j w'"
    by (rule GetFunction_made [OF hok1, of ?t "\<lparr>t_ptr = Some (brk w), t_iso = Some (c_iso c)\<rparr>" "brk w" "\<lparr>mt_iso = q, mt_ptr = T\<rparr>" a c p mc A e2 F])
       (use mem q c func in simp_all)
  have "world_ok w'" using go_ok_same [OF _ v(4)] ok1 v(7) by (simp add: world_ok_def)
  moreover have "refers x q c h j w'" if "refers x q c h j w" for x q c h j
    by (rule v(9), rule refers_cong [OF that]) simp_all
  moreover have "call_closure A (c_iso c) a cb recv args w = Function_Call A (Function \<lparr>v_ptr = Some v, v_ctx = Some a\<rparr>) recv args w'"
    by (simp only: call_closure_def new v(1) bindR.simps)
  moreover have "retained ?w p = retained w p" by (simp add: retained_def)
  moreover have "gctxs w' = gctxs w" "gisos w' (c_iso c) = Some ?g" using v(4) by (simp_all add: same_go_def)
  ultimately show thesis using that [of v w' ?g] v by (simp add: getCallback_def)
qed

text \<open>A call of a function that calls back into Go and passes on what the closure returns.\<close>

lemma Function_Call_back:
  assumes fn: "refers (v_ptr (fn_value fn)) q p h f w" and recv: "refers (v_ptr recv) q' p' h' r w"
    and args: "all_refer args js w" "length args < 2 ^ 31"
    and v8: "v8_call A h f r js (v8 w) = CallGo e cr cbr r js (\<lambda>e ret. Done e (Some (k ret)))"
  shows "Function_Call A fn recv args w =
     bindR (FunctionTemplateCallback (closures A) q cr cbr r js (w\<lparr>v8 := e\<rparr>)) (\<lambda>ret w.
     bindR (rtn_of A q (Some p) (Some (k ret)) w) (\<lambda>rtn w. valueResult (v_ctx (fn_value fn)) rtn w))"
  using fn recv v8 by (simp add: Function_Call_def C_FunctionCall_def buildCallArguments_refer [OF args] run_def bindR_assoc)

text \<open>
  C10: a Go closure that is made a JavaScript function is what a call of the function runs. With
  fewer than 2^31 - 1 closures registered before and V8 calling a template's function back with
  the data it was made with, a call of the function from Go ends up in exactly this closure, in the
  context of the function, with the receiver and all arguments, in order, as new values the context
  tracks; what the closure returns is returned by the call, as a new value of the context.
\<close>

theorem closure_called_through_function:
  assumes ok: "world_ok w" and c: "gctxs w a = Some c" "c_ptr c = Some p" "mctxs w p = Some mc"
    and g: "gisos w (c_iso c) = Some g" "i_ptr g = Some q" "cbSeq g + 1 < 2 ^ 31"
    and mem: "brk w + length args + 3 \<le> mem_limit" "gbrk w + 2 \<le> mem_limit"
    and recv: "refers (v_ptr recv) q' p' h' r w" and args: "all_refer args js w" "length args < 2 ^ 31"
    and tmpl: "v8_function_template A q (cbSeq g + 1) (v8 w) = (e1, T)"
    and func: "v8_template_function A T (mc_ptr mc) e1 = (e2, Some F)"
    and call: "v8_call A (mc_ptr mc) F r js e2 =
      CallGo e3 (c_ref c) (cbSeq g + 1) r js (\<lambda>e ret. Done e (Some (case ret of None \<Rightarrow> undef | Some j \<Rightarrow> j)))"
  shows "\<exists>this ps w1. call_closure A (c_iso c) a cb recv args w =
       bindR (closures A cb (call_info a this ps) w1) (\<lambda>ret w. bindR (js_return ret w) (\<lambda>x w.
       bindR (rtn_of A q (Some p) (Some (case x of None \<Rightarrow> undef | Some j \<Rightarrow> j)) w) (\<lambda>rtn w. valueResult (Some a) rtn w))) \<and>
     map (\<lambda>v. map_option mv_ptr (mvals w1 v)) (this # ps) = map Some (r # js) \<and>
     distinct (this # ps) \<and> set (this # ps) \<inter> retained w p = {} \<and> set (this # ps) \<subseteq> retained w1 p \<and>
     v8 w1 = e3 \<and> blocks w1 = blocks w"
proof -
  obtain v w2 g' where v: "call_closure A (c_iso c) a cb recv args w = Function_Call A (Function \<lparr>v_ptr = Some v, v_ctx = Some a\<rparr>) recv args w2"
    "refers (Some v) q p (mc_ptr mc) F w2" "world_ok w2" "v8 w2 = e2" "blocks w2 = blocks w" "brk w2 = brk w + 2"
    "gctxs w2 = gctxs w" "gisos w2 (c_iso c) = Some g'" "getCallback (cbSeq g + 1) g' = Some cb"
    "retained w2 p = insert v (retained w p)" and keep: "\<And>x q c h j. refers x q c h j w \<Longrightarrow> refers x q c h j w2"
    by (rule function_of_closure [OF ok c g _ mem(2) tmpl func]) (use mem in auto)
  let ?w = "w2\<lparr>v8 := e3\<rparr>"
  have args2: "all_refer args js w2" using args(1) unfolding all_refer_def by (rule list_all2_mono) (blast intro: keep)
  have len: "length args = length js" using args(1) by (simp add: all_refer_def list_all2_lengthD)
  have ok2: "world_ok ?w" using v(3) by simp
  obtain this ps w1 where d: "FunctionTemplateCallback (closures A) q (c_ref c) (cbSeq g + 1) r js ?w =
      bindR (closures A cb (call_info a this ps) w1) js_return" "distinct (this # ps)" "set (this # ps) \<inter> retained ?w p = {}"
      "retained w1 p = retained ?w p \<union> set (this # ps)" "map (\<lambda>q. map_option mv_ptr (mvals w1 q)) (this # ps) = map Some (r # js)"
      "blocks w1 = blocks ?w" "v8 w1 = v8 ?w"
    using FunctionTemplateCallback_dispatch [OF ok2, of a c p g' "cbSeq g + 1" cb js "closures A" q r] v c mem len by auto
  have "Function_Call A (Function \<lparr>v_ptr = Some v, v_ctx = Some a\<rparr>) recv args w2 =
     bindR (FunctionTemplateCallback (closures A) q (c_ref c) (cbSeq g + 1) r js ?w) (\<lambda>ret w.
     bindR (rtn_of A q (Some p) (Some (case ret of None \<Rightarrow> undef | Some j \<Rightarrow> j)) w) (\<lambda>rtn w. valueResult (Some a) rtn w))"
    using Function_Call_back [OF _ keep [OF recv] args2 args(2), of "Function \<lparr>v_ptr = Some v, v_ctx = Some a\<rparr>" q p "mc_ptr mc" F A e3] v call
    by simp
  then have "call_closure A (c_iso c) a cb recv args w = bindR (closures A cb (call_info a this ps) w1) (\<lambda>ret w. bindR (js_return ret w) (\<lambda>x w.
       bindR (rtn_of A q (Some p) (Some (case x of None \<Rightarrow> undef | Some j \<Rightarrow> j)) w) (\<lambda>rtn w. valueResult (Some a) rtn w)))"
    by (simp only: v(1) d(1) bindR_assoc)
  then show ?thesis using d v(5,10) by (intro exI [of _ this] exI [of _ ps] exI [of _ w1]) auto
qed

text \<open>The sample engine, with functions that call back into Go.\<close>

definition calling :: "(bytes, jv, nat) env" where
  "calling = sample\<lparr>v8_call := (\<lambda>h f r js e. case (h, f) of
     (JContext ref, JFunction cbref) \<Rightarrow> CallGo e ref cbref r js (\<lambda>e ret. Done e (Some (case ret of None \<Rightarrow> JUndefined | Some j \<Rightarrow> j)))
   | _ \<Rightarrow> Done e None)\<rparr>"

theorem closure_called_through_function_witness:
  "\<exists>this ps w1. call_closure calling 1 3 7 \<lparr>v_ptr = Some 5, v_ctx = None\<rparr> [\<lparr>v_ptr = Some 4, v_ctx = None\<rparr>] demo_world =
      bindR (sample_closure 7 (call_info 3 this ps) w1) (\<lambda>ret w. bindR (js_return ret w) (\<lambda>x w.
      bindR (rtn_of calling 2 (Some 6) (Some (case x of None \<Rightarrow> JUndefined | Some j \<Rightarrow> j)) w) (\<lambda>rtn w. valueResult (Some 3) rtn w))) \<and>
    map (\<lambda>v. map_option mv_ptr (mvals w1 v)) (this # ps) = [Some JUndefined, Some JNull]"
proof -
  let ?c = "\<lparr>c_ref = 1, c_ptr = Some 6, c_iso = 1\<rparr>"
  have v: "refers (Some 4) 2 3 (JContext 0) JNull demo_world" "refers (Some 5) 2 3 (JContext 0) JUndefined demo_world"
    by (simp_all add: refers_def) (simp_all add: demo_world_def)
  have args: "all_refer [\<lparr>v_ptr = Some 4, v_ctx = None\<rparr>] [JNull] demo_world" using v by (auto simp: all_refer_def)
  have env: "v8_function_template calling 2 (0 + 1) [] = ([], JTemplate 1)" "v8_template_function calling (JTemplate 1) (JContext 1) [] = ([], Some (JFunction 1))"
    "v8_call calling (JContext 1) (JFunction 1) JUndefined [JNull] [] = CallGo [] 1 1 JUndefined [JNull]
       (\<lambda>e ret. Done e (Some (case ret of None \<Rightarrow> JUndefined | Some j \<Rightarrow> j)))" "closures calling = sample_closure"
    by (simp_all add: calling_def sample_def)
  from closure_called_through_function [OF demo_world_ok _ _ demo_contexts(1) _ _ _ _ _ _ args, of 3 ?c _ 2 "\<lparr>v_ptr = Some 5, v_ctx = None\<rparr>" 2 3 "JContext 0" JUndefined
      calling "[]" "JTemplate 1" "[]" "JFunction 1" "[]" JUndefined 7] v env
  show ?thesis by (simp add: demo_isolate mem_limit_def) (elim ex_forward, simp)
qed

end
