(* ===== verification/Profiles.thy ===== *)
theory Profiles
  imports Sample
begin

text \<open>
  What the CPU profiler promises: a stopped profile is a copy of V8's call tree that can be walked
  in both directions, deleting it gives its memory back, and what its duration means.
\<close>

section \<open>Stopping a profile\<close>

lemma StopProfiling_returns:
  assumes "stoppable A c title vp w"
  obtains pf w' where "StopProfiling A c title w = Ok (stopped_profile vp pf (gbrk w)) w'"
  by (rule StopProfiling_Ok [OF assms]) (rule that)

text \<open>
  C15: stopping a profile ends, and the profile it returns is a faithful copy of V8's call tree:
  every node has the data of V8's node, its children in V8's order, and itself as the parent of
  each child; the root has no parent.
\<close>

theorem profile_tree_copied:
  assumes "stoppable A c title vp w"
  shows "\<exists>pf w'. StopProfiling A c title w = Ok pf w' \<and> CPUProfile_GetTitle pf = c_str (vp_title vp) \<and>
     go_tree (gnodes w') None (GetTopDownRoot pf) (vp_root vp)"
proof -
  obtain lo ttl bl h g e where "StopProfiling A c title w = Ok (stopped_profile vp (lo + nodes (vp_root vp)) (gbrk w))
       (w\<lparr>v8 := e, brk := Suc (lo + nodes (vp_root vp)), blocks := bl, cnodes := h,
          cprofiles := (cprofiles w)(lo + nodes (vp_root vp) \<mapsto> c_profile vp ttl lo),
          gbrk := gbrk w + nodes (vp_root vp), gnodes := g\<rparr>)" "go_tree g None (gbrk w) (vp_root vp)"
    by (rule StopProfiling_Ok [OF assms])
  then show ?thesis by (simp add: stopped_profile_def CPUProfile_GetTitle_def GetTopDownRoot_def)
qed

text \<open>The sample process with a profiler.\<close>

definition demo_profiler :: "(bytes, jv, nat) world" where
  "demo_profiler = demo_world\<lparr>brk := 8, cprofilers := [7 \<mapsto> \<lparr>pr_ptr = Some JProfiler, pr_iso = Some 2\<rparr>]\<rparr>"

lemma demo_NewCPUProfiler: "NewCPUProfiler sample 1 demo_world = Ok \<lparr>gp_p = Some 7, gp_iso = 1\<rparr> demo_profiler"
  by (simp add: NewCPUProfiler_def with_isolate_def C_NewCPUProfiler_def isolate_scope_def ask_def new_cprofiler_def c_new_def
      mem_limit_def demo_profiler_def sample_def) (simp add: demo_world_def)

lemma demo_stoppable: "stoppable sample \<lparr>gp_p = Some 7, gp_iso = 1\<rparr> ''t'' sample_profile demo_profiler"
proof -
  have "heap_ok demo_profiler"
    using world_profiles(1) [OF demo_world_ok, of sample 1] unfolding demo_NewCPUProfiler by (simp add: world_ok_def)
  then show ?thesis by (simp add: stoppable_def demo_profiler_def sample_def sample_profile_def sample_tree_def mem_limit_def c_str_def)
qed

theorem profile_tree_copied_witness:
  "\<exists>pf w'. StopProfiling sample \<lparr>gp_p = Some 7, gp_iso = 1\<rparr> ''t'' demo_profiler = Ok pf w' \<and>
     go_tree (gnodes w') None (GetTopDownRoot pf) sample_tree"
  using profile_tree_copied [OF demo_stoppable] by (auto simp: sample_profile_def)

text \<open>
  Nothing checks whether V8 has a profile of that title: without one, V8's null answer is
  dereferenced, which ends the process.
\<close>

lemma stop_without_profile:
  assumes c: "gp_p c = Some p" "gisos w (gp_iso c) = Some g" "i_ptr g \<noteq> None"
    and pr: "cprofilers w p = Some pr" "pr_iso pr = Some i" "pr_ptr pr = Some j" "isolates w i \<noteq> None"
    and title: "v8_new_utf8 A i (c_str title) (v8 w) = (e, Some t)" "v8_profiler_stop A j t e = (e', None)"
    and room: "brk w < mem_limit"
  shows "\<exists>w'. StopProfiling A c title w = Fault Segv w'"
proof -
  let ?w = "w\<lparr>brk := Suc (brk w), blocks := (blocks w)(brk w \<mapsto> Chars (title @ [NUL]))\<rparr>"
  have "read_cstr (brk w) ?w = Some (c_str title)" by simp
  with pr title have "C_CPUProfilerStopProfiling A p (brk w) ?w = Fault Segv (?w\<lparr>v8 := e'\<rparr>)"
    by (auto simp: C_CPUProfilerStopProfiling_def isolate_scope_def utf8_arg_def ask_def checked_def)
  then show ?thesis
    using c room by (auto simp: StopProfiling_def profiler_guard_def with_isolate_def withCString_def CString_def malloc_def c_new_def)
qed

section \<open>Navigating\<close>

lemma go_forest_nth:
  "go_forest h parent as ts \<Longrightarrow> length as = length ts \<and> (\<forall>i < length ts. go_tree h parent (as ! i) (ts ! i))"
  by (induction h parent as ts rule: go_tree_go_forest.induct(2) [where P = "\<lambda>_ _ _ _. True"])
     (auto simp: nth_Cons split: list.splits nat.splits)

lemma GetParent_go_tree: "go_tree (gnodes w) parent a t \<Longrightarrow> GetParent a w = Ok parent w"
  by (cases t) (auto simp: GetParent_def with_node_def split: option.splits)

text \<open>
  C32: the accessors walk the copied tree as V8's tree is. A node has as many children as V8's; the
  child at an index within range is the copy of V8's child there and leads back to its node by
  GetParent; any other index, negative or too large, panics. Nothing changes.
\<close>

theorem tree_navigation:
  assumes t: "go_tree (gnodes w) parent a t"
  shows "GetParent a w = Ok parent w \<and> GetFunctionName a w = Ok (c_str (vn_function t)) w \<and> GetHitCount a w = Ok (uint (vn_hits t)) w \<and>
     GetChildrenCount a w = Ok (int (length (vn_children t))) w \<and>
     (if 0 \<le> i \<and> i < int (length (vn_children t))
      then \<exists>b. GetChild a i w = Ok b w \<and> go_tree (gnodes w) (Some a) b (vn_children t ! nat i) \<and> GetParent b w = Ok (Some a) w
      else GetChild a i w = Fault IndexOutOfRange w)"
proof -
  obtain ptr nid sid resource fname line column hits bailout kids where tr: "t = V8Node ptr nid sid resource fname line column hits bailout kids"
    by (cases t)
  obtain n where n: "gnodes w a = Some n" "n_parent n = parent" "n_functionName n = c_str fname" "n_hitCount n = uint hits"
    and kids: "go_forest (gnodes w) (Some a) (n_children n) kids"
    using t by (auto simp: tr split: option.splits)
  note kids = go_forest_nth [OF kids]
  have child: "\<exists>b. GetChild a i w = Ok b w \<and> go_tree (gnodes w) (Some a) b (kids ! nat i) \<and> GetParent b w = Ok (Some a) w"
    if "0 \<le> i" "i < int (length kids)"
  proof -
    have tree: "go_tree (gnodes w) (Some a) (n_children n ! nat i) (kids ! nat i)" using kids that by auto
    have "GetChild a i w = Ok (n_children n ! nat i) w" using n kids that by (simp add: GetChild_def with_node_def)
    with tree GetParent_go_tree [OF tree] show ?thesis by blast
  qed
  show ?thesis
    using n kids child by (auto simp: tr GetParent_def GetFunctionName_def GetHitCount_def GetChildrenCount_def GetChild_def with_node_def)
qed

theorem tree_navigation_witness:
  "\<exists>pf w' b. StopProfiling sample \<lparr>gp_p = Some 7, gp_iso = 1\<rparr> ''t'' demo_profiler = Ok pf w' \<and>
     GetChildrenCount (pf_root pf) w' = Ok 2 w' \<and> GetChild (pf_root pf) 1 w' = Ok b w' \<and> GetParent b w' = Ok (Some (pf_root pf)) w' \<and>
     GetChild (pf_root pf) 2 w' = Fault IndexOutOfRange w'"
proof -
  obtain lo ttl bl h g e where s: "StopProfiling sample \<lparr>gp_p = Some 7, gp_iso = 1\<rparr> ''t'' demo_profiler =
     Ok (stopped_profile sample_profile (lo + nodes (vp_root sample_profile)) (gbrk demo_profiler))
       (demo_profiler\<lparr>v8 := e, brk := Suc (lo + nodes (vp_root sample_profile)), blocks := bl, cnodes := h,
          cprofiles := (cprofiles demo_profiler)(lo + nodes (vp_root sample_profile) \<mapsto> c_profile sample_profile ttl lo),
          gbrk := gbrk demo_profiler + nodes (vp_root sample_profile), gnodes := g\<rparr>)" (is "_ = Ok ?pf ?w")
    and g: "go_tree g None (gbrk demo_profiler) (vp_root sample_profile)"
    by (rule StopProfiling_Ok [OF demo_stoppable])
  have tree: "go_tree (gnodes ?w) None (pf_root ?pf) sample_tree" using g by (simp add: stopped_profile_def sample_profile_def)
  have "length (vn_children sample_tree) = 2" by (simp add: sample_tree_def)
  then show ?thesis using s tree_navigation [OF tree, of 1] tree_navigation [OF tree, of 2] by auto
qed

section \<open>Deleting a profile\<close>

text \<open>
  C33: deleting a profile that was stopped gives back all the C memory it took: its struct, its
  nodes and its title. Deleting it again does nothing.
\<close>

theorem delete_undoes_stop:
  assumes "stoppable A c title vp w" "StopProfiling A c title w = Ok pf w'"
  shows "\<exists>pf' w''. CPUProfile_Delete A pf w' = Ok pf' w'' \<and> CPUProfile_Delete A pf' w'' = Ok pf' w'' \<and>
     cnodes w'' = cnodes w \<and> cprofiles w'' = cprofiles w \<and> blocks w'' = blocks w"
  using CPUProfile_Delete_stopped [OF assms] by (force simp: CPUProfile_Delete_def)

theorem delete_undoes_stop_witness:
  "\<exists>pf w' pf' w''. StopProfiling sample \<lparr>gp_p = Some 7, gp_iso = 1\<rparr> ''t'' demo_profiler = Ok pf w' \<and>
     CPUProfile_Delete sample pf w' = Ok pf' w'' \<and> cnodes w'' = (\<lambda>_. None) \<and> blocks w'' = (\<lambda>_. None)"
proof -
  obtain pf w' where s: "StopProfiling sample \<lparr>gp_p = Some 7, gp_iso = 1\<rparr> ''t'' demo_profiler = Ok pf w'"
    by (rule StopProfiling_returns [OF demo_stoppable])
  have "cnodes demo_profiler = (\<lambda>_. None)" "blocks demo_profiler = (\<lambda>_. None)" by (simp_all add: demo_profiler_def demo_world_def)
  with s delete_undoes_stop [OF demo_stoppable s] show ?thesis by auto
qed

section \<open>The duration\<close>

text \<open>
  C40: v8 gives the start and the end of a profile in microseconds; the Go half takes them for
  milliseconds, so that the duration it reports is 1000 times the time that passed, as long as
  neither product overflows a 64-bit nanosecond count.
\<close>

theorem duration_off_by_thousand:
  assumes stop: "stoppable A c title vp w" "StopProfiling A c title w = Ok pf w'"
    and t: "0 \<le> vp_start vp" "vp_start vp \<le> vp_end vp" "vp_end vp * 1000000 < 2 ^ 63"
  shows "GetDuration pf = 1000 * ((vp_end vp - vp_start vp) * 1000)"
proof -
  obtain lo where "pf = stopped_profile vp lo (gbrk w)"
    by (rule StopProfiling_returns [OF stop(1)]) (use stop(2) in simp)
  moreover have "milliseconds (vp_start vp) = vp_start vp * 1000000" "milliseconds (vp_end vp) = vp_end vp * 1000000"
    using t by (auto intro!: milliseconds_eq)
  moreover have "c_long (vp_end vp * 1000000 - vp_start vp * 1000000) = vp_end vp * 1000000 - vp_start vp * 1000000"
    using t by (intro c_long_id) auto
  ultimately show ?thesis by (simp add: GetDuration_def stopped_profile_def algebra_simps)
qed

theorem duration_off_by_thousand_witness:
  "\<exists>pf w'. StopProfiling sample \<lparr>gp_p = Some 7, gp_iso = 1\<rparr> ''t'' demo_profiler = Ok pf w' \<and> GetDuration pf = 4000000000"
proof -
  obtain pf w' where s: "StopProfiling sample \<lparr>gp_p = Some 7, gp_iso = 1\<rparr> ''t'' demo_profiler = Ok pf w'"
    by (rule StopProfiling_returns [OF demo_stoppable])
  with duration_off_by_thousand [OF demo_stoppable s] show ?thesis by (auto simp: sample_profile_def)
qed

end
