(* ===== verification/Concurrency.thy ===== *)
theory Concurrency
  imports Registry
begin

text \<open>
  Goroutines that create, look up and close contexts at the same time. Between the two critical
  sections of NewContext, where the C++ context is made, other goroutines run; what they can do to
  the registry is again one of its critical sections. The state is what the mutex guards, plus the
  position of each goroutine and the contexts made so far.
\<close>

section \<open>Critical sections\<close>

record pool =
  p_reg :: registry
  p_drawn :: "nat \<Rightarrow> int option"
  p_made :: "addr \<Rightarrow> int option"
  p_closed :: "addr set"

text \<open>The goroutine \<open>t\<close> draws a reference; it is then inside NewContext.\<close>

definition draw_section :: "nat \<Rightarrow> pool \<Rightarrow> pool" where
  "draw_section t s = (let (r, g) = next_ref (p_reg s) in s\<lparr>p_reg := g, p_drawn := (p_drawn s)(t \<mapsto> r)\<rparr>)"

text \<open>It registers the context at the address \<open>a\<close> with the reference \<open>r\<close> it drew, and returns.\<close>

definition register_section :: "nat \<Rightarrow> int \<Rightarrow> addr \<Rightarrow> pool \<Rightarrow> pool" where
  "register_section t r a s =
     s\<lparr>p_reg := register a r (p_reg s), p_drawn := (p_drawn s)(t := None), p_made := (p_made s)(a \<mapsto> r)\<rparr>"

text \<open>Close of the context at \<open>a\<close>, whose struct holds the reference \<open>r\<close>, by any goroutine and any number of times.\<close>

definition close_section :: "int \<Rightarrow> addr \<Rightarrow> pool \<Rightarrow> pool" where
  "close_section r a s = s\<lparr>p_reg := deregister r (p_reg s), p_closed := insert a (p_closed s)\<rparr>"

text \<open>
  A step of the goroutine \<open>t\<close>. A goroutine inside NewContext does nothing else before it
  registers; the address of a new struct is one no context has; the counter is not exhausted.
\<close>

inductive thread_step :: "nat \<Rightarrow> pool \<Rightarrow> pool \<Rightarrow> bool" where
  draw: "p_drawn s t = None \<Longrightarrow> ctxSeq (p_reg s) + 1 < 2 ^ 63 \<Longrightarrow> thread_step t s (draw_section t s)"
| enter: "p_drawn s t = Some r \<Longrightarrow> p_made s a = None \<Longrightarrow> thread_step t s (register_section t r a s)"
| leave: "p_drawn s t = None \<Longrightarrow> p_made s a = Some r \<Longrightarrow> thread_step t s (close_section r a s)"

inductive_cases thread_stepE: "thread_step t s s'"

definition idle_pool :: pool where
  "idle_pool = \<lparr>p_reg = \<lparr>ctxSeq = 0, ctxRegistry = (\<lambda>_. None)\<rparr>, p_drawn = (\<lambda>_. None), p_made = (\<lambda>_. None), p_closed = {}\<rparr>"

text \<open>Any goroutines, in any order.\<close>

definition any_step :: "pool \<Rightarrow> pool \<Rightarrow> bool" where
  "any_step s s' \<longleftrightarrow> (\<exists>t. thread_step t s s')"

section \<open>The invariant\<close>

text \<open>The references in use: by goroutines inside NewContext, and by contexts.\<close>

definition uses_ok :: "pool \<Rightarrow> bool" where
  "uses_ok s \<longleftrightarrow> inj_on (p_drawn s) (dom (p_drawn s)) \<and> inj_on (p_made s) (dom (p_made s)) \<and>
     ran (p_drawn s) \<inter> ran (p_made s) = {} \<and> ran (p_drawn s) \<union> ran (p_made s) \<subseteq> {1..ctxSeq (p_reg s)} \<and>
     p_closed s \<subseteq> dom (p_made s)"

definition lookups_ok :: "pool \<Rightarrow> bool" where
  "lookups_ok s \<longleftrightarrow> (\<forall>r a. getContext r (p_reg s) = Some a \<longleftrightarrow> p_made s a = Some r \<and> a \<notin> p_closed s)"

definition pool_ok :: "pool \<Rightarrow> bool" where
  "pool_ok s \<longleftrightarrow> reg_ok (p_reg s) \<and> uses_ok s \<and> lookups_ok s"

lemma pool_ok_idle: "pool_ok idle_pool"
  by (simp add: pool_ok_def uses_ok_def lookups_ok_def idle_pool_def reg_ok_def getContext_def)

lemma uses_okD:
  assumes "uses_ok s"
  shows "p_drawn s t = Some r \<Longrightarrow> 1 \<le> r \<and> r \<le> ctxSeq (p_reg s)" "p_made s a = Some r \<Longrightarrow> 1 \<le> r \<and> r \<le> ctxSeq (p_reg s)"
    "p_drawn s t = Some r \<Longrightarrow> p_made s a \<noteq> Some r"
    "p_drawn s t = Some r \<Longrightarrow> p_drawn s u = Some r \<Longrightarrow> t = u" "p_made s a = Some r \<Longrightarrow> p_made s b = Some r \<Longrightarrow> a = b"
    "a \<in> p_closed s \<Longrightarrow> p_made s a \<noteq> None"
  using assms by (auto simp: uses_ok_def subset_iff ran_def inj_on_def dom_def)

lemma drawn_unregistered:
  assumes "pool_ok s" "p_drawn s t = Some r"
  shows "ctxRegistry (p_reg s) r = None"
proof -
  have "getContext r (p_reg s) \<noteq> Some a" for a
    using assms uses_okD(3) [of s t r a] by (auto simp: pool_ok_def lookups_ok_def)
  then show ?thesis by (cases "ctxRegistry (p_reg s) r") (auto simp: getContext_def)
qed

lemma pool_ok_draw:
  assumes ok: "pool_ok s" and room: "ctxSeq (p_reg s) + 1 < 2 ^ 63" and free: "p_drawn s t = None"
  shows "pool_ok (draw_section t s)"
proof -
  have g: "reg_ok (p_reg s)" and u: "uses_ok s" and l: "lookups_ok s" using ok by (auto simp: pool_ok_def)
  let ?r = "ctxSeq (p_reg s) + 1"
  have draw: "draw_section t s = s\<lparr>p_reg := (p_reg s)\<lparr>ctxSeq := ?r\<rparr>, p_drawn := (p_drawn s)(t \<mapsto> ?r)\<rparr>"
    using g room by (simp add: draw_section_def next_ref_eq reg_ok_def)
  have new: "?r \<notin> ran (p_drawn s)" "?r \<notin> ran (p_made s)" using u by (auto simp: uses_ok_def)
  then have "inj_on ((p_drawn s)(t \<mapsto> ?r)) (dom ((p_drawn s)(t \<mapsto> ?r)))"
    using u by (auto simp: uses_ok_def inj_on_def ran_def)
  moreover have "ran ((p_drawn s)(t \<mapsto> ?r)) = insert ?r (ran (p_drawn s))" using free by (rule ran_map_upd)
  ultimately have "uses_ok (draw_section t s)"
    using u new g by (auto simp: uses_ok_def draw reg_ok_def)
  moreover have "reg_ok (p_reg (draw_section t s))" using reg_ok_next_ref [OF g room] g room by (simp add: draw next_ref_eq reg_ok_def)
  moreover have "lookups_ok (draw_section t s)" using l by (simp add: lookups_ok_def draw getContext_def)
  ultimately show ?thesis by (simp add: pool_ok_def)
qed

lemma pool_ok_register:
  assumes ok: "pool_ok s" and t: "p_drawn s t = Some r" and a: "p_made s a = None"
  shows "pool_ok (register_section t r a s)"
proof -
  have g: "reg_ok (p_reg s)" and u: "uses_ok s" and l: "lookups_ok s" using ok by (auto simp: pool_ok_def)
  note none = drawn_unregistered [OF ok t]
  note D = uses_okD [OF u]
  have "ran ((p_drawn s)(t := None)) \<subseteq> ran (p_drawn s) - {r}"
    using D(4) [OF t] by (auto simp: ran_def split: if_splits)
  moreover have "ran ((p_made s)(a \<mapsto> r)) = insert r (ran (p_made s))" using a by (rule ran_map_upd)
  moreover have "inj_on ((p_made s)(a \<mapsto> r)) (dom ((p_made s)(a \<mapsto> r)))"
    using u D(3) [OF t] by (auto simp: uses_ok_def inj_on_def)
  moreover have "inj_on ((p_drawn s)(t := None)) (dom ((p_drawn s)(t := None)))"
    using u by (auto simp: uses_ok_def inj_on_def)
  ultimately have "uses_ok (register_section t r a s)"
    using u D(1) [OF t] by (auto simp: uses_ok_def register_section_def)
  moreover have "reg_ok (p_reg (register_section t r a s))"
    using g D(1) [OF t] none by (simp add: register_section_def reg_ok_register)
  moreover have "lookups_ok (register_section t r a s)"
    using l a D(3) [OF t] D(6) [of a] getContext_register_fresh [OF none]
    by (auto simp: lookups_ok_def register_section_def)
  ultimately show ?thesis by (simp add: pool_ok_def)
qed

lemma pool_ok_close:
  assumes ok: "pool_ok s" and a: "p_made s a = Some r"
  shows "pool_ok (close_section r a s)"
proof -
  have g: "reg_ok (p_reg s)" and u: "uses_ok s" and l: "lookups_ok s" using ok by (auto simp: pool_ok_def)
  have "lookups_ok (close_section r a s)"
    unfolding lookups_ok_def
  proof (intro allI)
    fix q b
    have "getContext q (p_reg (close_section r a s)) = (if q = r then None else getContext q (p_reg s))"
      using getContext_deregister [OF g] by (simp add: close_section_def)
    moreover have "q \<noteq> r \<Longrightarrow> p_made s b = Some q \<Longrightarrow> b \<noteq> a" using a by auto
    moreover have "p_made s b = Some r \<Longrightarrow> b = a" using uses_okD(5) [OF u a] by simp
    ultimately show "getContext q (p_reg (close_section r a s)) = Some b \<longleftrightarrow>
        p_made (close_section r a s) b = Some q \<and> b \<notin> p_closed (close_section r a s)"
      using l by (auto simp: lookups_ok_def close_section_def)
  qed
  moreover have "uses_ok (close_section r a s)" using u a by (auto simp: uses_ok_def close_section_def)
  ultimately show ?thesis using g by (simp add: pool_ok_def close_section_def reg_ok_deregister)
qed

interpretation goroutines: invariant_system "\<lambda>s. s = idle_pool" any_step pool_ok
proof unfold_locales
  fix s t assume "pool_ok s" "any_step s t"
  then show "pool_ok t"
    unfolding any_step_def by (auto elim!: thread_stepE intro: pool_ok_draw pool_ok_register pool_ok_close)
qed (simp add: pool_ok_idle)

text \<open>
  C7: however goroutines that create and close contexts interleave, the registry leads from a
  reference to a context exactly if the context holds that reference and has not been closed; no
  two contexts, finished or being made, have the same reference.
\<close>

theorem interleaved_registry:
  assumes "any_step\<^sup>*\<^sup>* idle_pool s"
  shows "(getContext r (p_reg s) = Some a \<longleftrightarrow> p_made s a = Some r \<and> a \<notin> p_closed s) \<and>
     (p_made s a = Some r \<longrightarrow> p_made s b = Some r \<longrightarrow> a = b) \<and> (p_made s a = Some r \<longrightarrow> p_drawn s t \<noteq> Some r) \<and>
     (p_drawn s t = Some r \<longrightarrow> p_drawn s u = Some r \<longrightarrow> t = u)"
proof -
  have "pool_ok s" using goroutines.reachable_inv [OF refl assms] .
  then have "uses_ok s" "lookups_ok s" by (auto simp: pool_ok_def)
  with uses_okD [OF this(1)] show ?thesis by (auto simp: lookups_ok_def)
qed

text \<open>Two goroutines inside NewContext at the same time.\<close>

definition demo_pool :: pool where
  "demo_pool = register_section 2 2 20 (register_section 1 1 10 (draw_section 2 (draw_section 1 idle_pool)))"

lemmas pool_defs = draw_section_def register_section_def close_section_def idle_pool_def next_ref_def register_def Let_def c_long_def

lemma demo_pool_reached: "any_step\<^sup>*\<^sup>* idle_pool demo_pool"
proof -
  let ?s1 = "draw_section 1 idle_pool" let ?s2 = "draw_section 2 ?s1" let ?s3 = "register_section 1 1 10 ?s2"
  have "thread_step 1 idle_pool ?s1" "thread_step 2 ?s1 ?s2" by (rule thread_step.draw; simp add: pool_defs)+
  moreover have "thread_step 1 ?s2 ?s3" "thread_step 2 ?s3 (register_section 2 2 20 ?s3)"
    by (rule thread_step.enter; simp add: pool_defs)+
  ultimately show ?thesis
    unfolding demo_pool_def by (meson any_step_def rtranclp.rtrancl_into_rtrancl rtranclp.rtrancl_refl)
qed

theorem interleaved_registry_witness:
  "any_step\<^sup>*\<^sup>* idle_pool demo_pool \<and> getContext 1 (p_reg demo_pool) = Some 10 \<and> getContext 2 (p_reg demo_pool) = Some 20"
proof -
  have "p_made demo_pool 10 = Some 1" "p_made demo_pool 20 = Some 2" "p_closed demo_pool = {}"
    by (simp_all add: demo_pool_def pool_defs)
  with interleaved_registry [OF demo_pool_reached, of 1 10 10 0 0] interleaved_registry [OF demo_pool_reached, of 2 20 20 0 0] demo_pool_reached
  show ?thesis by simp
qed

section \<open>Progress\<close>

text \<open>Steps of goroutines other than \<open>t\<close>.\<close>

definition others_step :: "nat \<Rightarrow> pool \<Rightarrow> pool \<Rightarrow> bool" where
  "others_step t s s' \<longleftrightarrow> (\<exists>u. u \<noteq> t \<and> thread_step u s s')"

lemma others_keep_drawn: "(others_step t)\<^sup>*\<^sup>* s s' \<Longrightarrow> p_drawn s' t = p_drawn s t"
  by (induction rule: rtranclp_induct)
     (auto simp: others_step_def draw_section_def register_section_def close_section_def elim!: thread_stepE split: prod.splits)

lemma others_any: "(others_step t)\<^sup>*\<^sup>* s s' \<Longrightarrow> any_step\<^sup>*\<^sup>* s s'"
  by (rule mono_rtranclp [rule_format, of "others_step t"]) (auto simp: others_step_def any_step_def)



end
