(* ===== verification/Forest.thy ===== *)
theory Forest
  imports Api
begin

text \<open>
  An abstract specification of who owns what in the C++ half: a forest. Every live isolate is a
  tree with its internal context; every live \<open>m_ctx\<close> is a branch of an isolate; the values and
  unbound scripts a context is responsible for are sets on its branch. The tables, counters and
  identifiers of v8go.cc are gone. The theory has the operations on forests, the transition
  system they form and its invariant, and the abstraction of a state of the process to its
  forest with one equation per operation that opens, tracks, releases, closes or disposes.
\<close>

section \<open>Forests\<close>

record branch =
  b_isolate :: addr
  b_values :: "addr set"
  b_scripts :: "addr set"

record forest =
  trees :: "addr \<Rightarrow> addr option"
  branches :: "addr \<Rightarrow> branch option"

definition bare :: forest where
  "bare = \<lparr>trees = (\<lambda>_. None), branches = (\<lambda>_. None)\<rparr>"

definition leaves :: "forest \<Rightarrow> addr set" where
  "leaves F = {v. \<exists>c b. branches F c = Some b \<and> v \<in> b_values b}"

definition new_branch :: "addr \<Rightarrow> branch" where
  "new_branch i = \<lparr>b_isolate = i, b_values = {}, b_scripts = {}\<rparr>"

text \<open>A new isolate with its internal context, and a new context in an isolate.\<close>

definition plant :: "addr \<Rightarrow> addr \<Rightarrow> forest \<Rightarrow> forest" where
  "plant i c F = F\<lparr>trees := (trees F)(i \<mapsto> c), branches := (branches F)(c \<mapsto> new_branch i)\<rparr>"

definition graft :: "addr \<Rightarrow> addr \<Rightarrow> forest \<Rightarrow> forest" where
  "graft c i F = F\<lparr>branches := (branches F)(c \<mapsto> new_branch i)\<rparr>"

text \<open>A value or a script joins a context; a value is released.\<close>

definition on_branch :: "addr \<Rightarrow> (branch \<Rightarrow> branch) \<Rightarrow> forest \<Rightarrow> forest" where
  "on_branch c f F = F\<lparr>branches := (branches F)(c := map_option f (branches F c))\<rparr>"

definition sprout :: "addr \<Rightarrow> addr \<Rightarrow> forest \<Rightarrow> forest" where
  "sprout c v = on_branch c (b_values_update (insert v))"

definition bud :: "addr \<Rightarrow> addr \<Rightarrow> forest \<Rightarrow> forest" where
  "bud c s = on_branch c (b_scripts_update (insert s))"

definition pluck :: "addr \<Rightarrow> forest \<Rightarrow> forest" where
  "pluck v F = F\<lparr>branches := (\<lambda>c. map_option (b_values_update (\<lambda>V. V - {v})) (branches F c))\<rparr>"

text \<open>A context goes with everything on its branch; an isolate goes with its internal context.\<close>

definition prune :: "addr \<Rightarrow> forest \<Rightarrow> forest" where
  "prune c F = F\<lparr>branches := (branches F)(c := None)\<rparr>"

definition fell :: "addr \<Rightarrow> forest \<Rightarrow> forest" where
  "fell i F = (case trees F i of None \<Rightarrow> F
     | Some c \<Rightarrow> F\<lparr>trees := (trees F)(i := None), branches := (branches F)(c := None)\<rparr>)"

text \<open>
  The specification: what may happen to a forest. Values are added to live contexts only and are
  new; a context is pruned while its isolate stands and never if it is an internal one.
\<close>

inductive forest_step :: "forest \<Rightarrow> forest \<Rightarrow> bool" where
  plants: "trees F i = None \<Longrightarrow> branches F c = None \<Longrightarrow> forest_step F (plant i c F)"
| grafts: "trees F i \<noteq> None \<Longrightarrow> branches F c = None \<Longrightarrow> forest_step F (graft c i F)"
| sprouts: "branches F c \<noteq> None \<Longrightarrow> v \<notin> leaves F \<Longrightarrow> forest_step F (sprout c v F)"
| buds: "c \<in> ran (trees F) \<Longrightarrow> forest_step F (bud c s F)"
| plucks: "v \<in> leaves F \<Longrightarrow> forest_step F (pluck v F)"
| prunes: "branches F c = Some b \<Longrightarrow> trees F (b_isolate b) \<noteq> None \<Longrightarrow> c \<notin> ran (trees F) \<Longrightarrow> forest_step F (prune c F)"
| fells: "trees F i \<noteq> None \<Longrightarrow> forest_step F (fell i F)"

inductive_cases forest_stepE: "forest_step F G"

lemmas forest_defs = plant_def graft_def sprout_def bud_def pluck_def prune_def fell_def on_branch_def new_branch_def

text \<open>
  The invariant of the specification: the internal context of a standing isolate is a live branch
  of that isolate, and no value is on two branches.
\<close>

definition rooted :: "forest \<Rightarrow> bool" where
  "rooted F \<longleftrightarrow> (\<forall>i c. trees F i = Some c \<longrightarrow> (\<exists>b. branches F c = Some b \<and> b_isolate b = i))"

definition single_owner :: "forest \<Rightarrow> bool" where
  "single_owner F \<longleftrightarrow> (\<forall>c d b e v. branches F c = Some b \<longrightarrow> branches F d = Some e \<longrightarrow>
     v \<in> b_values b \<longrightarrow> v \<in> b_values e \<longrightarrow> c = d)"

definition forest_ok :: "forest \<Rightarrow> bool" where
  "forest_ok F \<longleftrightarrow> rooted F \<and> single_owner F"

lemma forest_ok_bare: "forest_ok bare"
  by (simp add: forest_ok_def rooted_def single_owner_def bare_def)

lemma rooted_step:
  assumes "rooted F" "forest_step F G"
  shows "rooted G"
  unfolding rooted_def
proof (intro allI impI)
  fix j d assume d: "trees G j = Some d"
  have old: "trees F j = Some d \<longrightarrow> (\<exists>b. branches F d = Some b \<and> b_isolate b = j)"
    using assms(1) by (simp add: rooted_def)
  have sole: "\<forall>i. i \<noteq> j \<longrightarrow> trees F j = Some d \<longrightarrow> trees F i \<noteq> Some d"
    using assms(1) unfolding rooted_def by (metis option.inject)
  from assms(2) show "\<exists>b. branches G d = Some b \<and> b_isolate b = j"
    by cases (use d old sole in \<open>auto simp: forest_defs ran_def split: if_splits option.splits\<close>)
qed

lemma single_owner_step:
  assumes "single_owner F" "forest_step F G"
  shows "single_owner G"
  unfolding single_owner_def
proof (intro allI impI)
  fix c d b e v
  assume G: "branches G c = Some b" "branches G d = Some e" "v \<in> b_values b" "v \<in> b_values e"
  have old: "\<forall>b e. branches F c = Some b \<longrightarrow> branches F d = Some e \<longrightarrow> v \<in> b_values b \<longrightarrow> v \<in> b_values e \<longrightarrow> c = d"
    using assms(1) unfolding single_owner_def by blast
  from assms(2) show "c = d"
    by cases (use G old in \<open>auto simp: forest_defs leaves_def split: if_splits option.splits\<close>)
qed

lemma forest_step_ok: "forest_ok F \<Longrightarrow> forest_step F G \<Longrightarrow> forest_ok G"
  by (auto simp: forest_ok_def intro: rooted_step single_owner_step)

interpretation forests: invariant_system "\<lambda>F. F = bare" forest_step forest_ok
  by unfold_locales (auto simp: forest_ok_bare intro: forest_step_ok)

section \<open>The forest of a state\<close>

definition branch_of :: "'j m_ctx \<Rightarrow> branch" where
  "branch_of mc = \<lparr>b_isolate = mc_iso mc, b_values = snd ` set (mc_vals mc), b_scripts = set (mc_unboundScripts mc)\<rparr>"

definition forest_of :: "('e, 'j, 'cb) world \<Rightarrow> forest" where
  "forest_of w = \<lparr>trees = (\<lambda>i. Option.bind (isolates w i) slot0),
     branches = (\<lambda>c. map_option branch_of (mctxs w c))\<rparr>"

lemma forest_of_fields [simp]:
  "trees (forest_of w) i = Option.bind (isolates w i) slot0"
  "branches (forest_of w) c = map_option branch_of (mctxs w c)"
  by (simp_all add: forest_of_def)

text \<open>Two states with the same isolates and C++ contexts have the same forest.\<close>

lemma forest_of_cong: "isolates w' = isolates w \<Longrightarrow> mctxs w' = mctxs w \<Longrightarrow> forest_of w' = forest_of w"
  by (simp add: forest_of_def)

lemma forest_of_quiet [simp]:
  "forest_of (w\<lparr>brk := n\<rparr>) = forest_of w" "forest_of (w\<lparr>mvals := vs\<rparr>) = forest_of w"
  "forest_of (w\<lparr>mtmpls := ts\<rparr>) = forest_of w" "forest_of (w\<lparr>mscripts := ss\<rparr>) = forest_of w"
  "forest_of (w\<lparr>cprofilers := ps\<rparr>) = forest_of w" "forest_of (w\<lparr>cprofiles := fs\<rparr>) = forest_of w"
  "forest_of (w\<lparr>cnodes := ns\<rparr>) = forest_of w" "forest_of (w\<lparr>blocks := bl\<rparr>) = forest_of w"
  "forest_of (w\<lparr>gbrk := n\<rparr>) = forest_of w" "forest_of (w\<lparr>gisos := gi\<rparr>) = forest_of w"
  "forest_of (w\<lparr>gctxs := gc\<rparr>) = forest_of w" "forest_of (w\<lparr>gtmpls := gt\<rparr>) = forest_of w"
  "forest_of (w\<lparr>gnodes := gn\<rparr>) = forest_of w" "forest_of (w\<lparr>reg := r\<rparr>) = forest_of w"
  "forest_of (w\<lparr>v8once := b\<rparr>) = forest_of w" "forest_of (w\<lparr>v8 := e\<rparr>) = forest_of w"
  by (simp_all add: forest_of_def)

lemma forest_of_init [simp]: "forest_of (init_world e) = bare"
  by (simp add: forest_of_def init_world_def bare_def)

text \<open>
  The forest is all there is in memory: the live isolates are the trees, the live C++ contexts the
  branches, and the live values the leaves.
\<close>

lemma leaves_forest:
  assumes "heap_ok w"
  shows "leaves (forest_of w) = dom (mvals w)"
proof
  show "leaves (forest_of w) \<subseteq> dom (mvals w)"
    using retained_entries [OF assms] by (fastforce simp: leaves_def branch_of_def retained_def)
  show "dom (mvals w) \<subseteq> leaves (forest_of w)"
  proof
    fix a assume "a \<in> dom (mvals w)"
    then obtain mv where "mvals w a = Some mv" by auto
    with assms obtain c mc where "mctxs w c = Some mc" "(mv_id mv, a) \<in> set (mc_vals mc)"
      unfolding heap_ok_def values_ok_def by blast
    then show "a \<in> leaves (forest_of w)" by (force simp: leaves_def branch_of_def)
  qed
qed

lemma trees_forest: "heap_ok w \<Longrightarrow> dom (trees (forest_of w)) = dom (isolates w)"
  by (fastforce simp: heap_ok_def internal_ok_def bind_eq_Some_conv)

lemma tree_stands: "heap_ok w \<Longrightarrow> isolates w i \<noteq> None \<Longrightarrow> trees (forest_of w) i \<noteq> None"
  using trees_forest [of w] by (simp only: domIff [symmetric])

lemma branches_forest: "dom (branches (forest_of w)) = dom (mctxs w)"
  by auto

section \<open>The operations on forests\<close>

lemma new_value_forest:
  assumes ok: "heap_ok w" and new: "new_value i ctx j w = Ok a w'"
  obtains c where "ctx = Some c" "branches (forest_of w) c \<noteq> None" "a \<notin> leaves (forest_of w)"
    "forest_of w' = sprout c a (forest_of w)"
proof -
  obtain c mc where c: "ctx = Some c" "mctxs w c = Some mc" and a: "a = brk w"
    and w': "w' = w\<lparr>brk := Suc (brk w), mctxs := (mctxs w)(c \<mapsto> snd (track (brk w) mc)),
      mvals := (mvals w)(brk w \<mapsto> \<lparr>mv_id = c_long (mc_nextValId mc + 1), mv_iso = i, mv_ctx = Some c, mv_ptr = j\<rparr>)\<rparr>"
    by (rule new_value_eq_Ok [OF assms])
  have "branch_of (snd (track a mc)) = b_values_update (insert a) (branch_of mc)"
    using track_entries [OF ok c(2), of a "fst (track a mc)"] by (simp add: branch_of_def)
  then have "forest_of w' = sprout c a (forest_of w)"
    using c(2) by (auto simp: w' a forest_of_def sprout_def on_branch_def)
  moreover have "a \<notin> leaves (forest_of w)" using heap_okD_fresh [OF ok, of a] leaves_forest [OF ok] a by auto
  ultimately show thesis using c by (intro that [of c]) auto
qed

lemma release_forest:
  assumes ok: "heap_ok w" and rel: "C_ValueRelease (Some a) w = Ok u w'"
  shows "a \<in> leaves (forest_of w) \<and> forest_of w' = pluck a (forest_of w)"
proof -
  from rel obtain mv c mc where a: "mvals w a = Some mv" "mv_ctx mv = Some c" and c: "mctxs w c = Some mc"
    and w': "w' = w\<lparr>mctxs := (mctxs w)(c \<mapsto> untrack (mv_id mv) mc), mvals := (mvals w)(a := None)\<rparr>"
    by (auto simp: C_ValueRelease_def untrack_def c_deref_def split: option.splits if_splits)
  have ok': "heap_ok w'" unfolding w' by (rule heap_ok_untrack [OF ok a c])
  have "branches (forest_of w') d = branches (pluck a (forest_of w)) d" for d
  proof (cases "mctxs w d")
    case (Some md)
    then obtain me where me: "mctxs w' d = Some me" "mc_iso me = mc_iso md" "mc_unboundScripts me = mc_unboundScripts md"
      using c by (cases "d = c") (auto simp: w')
    have "retained w' d = retained w d - {a}" by (auto simp: retained_def w')
    then have "snd ` set (mc_vals me) = snd ` set (mc_vals md) - {a}"
      using retained_entries [OF ok Some] retained_entries [OF ok' me(1)] by simp
    then show ?thesis using Some me by (simp add: pluck_def branch_of_def)
  qed (use c in \<open>auto simp: w' pluck_def\<close>)
  moreover have "trees (forest_of w') = trees (pluck a (forest_of w))" by (simp add: w' forest_of_def pluck_def)
  ultimately have "forest_of w' = pluck a (forest_of w)" by (intro forest.equality) auto
  then show ?thesis using leaves_forest [OF ok] a(1) by auto
qed

lemma free_forest: "mctxs w c = Some mc \<Longrightarrow> forest_of (ctx_freed c mc w) = prune c (forest_of w)"
  by (auto simp: forest_of_def prune_def)

lemma close_forest:
  assumes ok: "world_ok w" and c: "gctxs w a = Some c" "c_ptr c = Some p" and close: "Context_Close a w = Ok u w'"
  shows "forest_of w' = prune p (forest_of w) \<and> forest_step (forest_of w) (forest_of w')"
proof -
  let ?w = "w\<lparr>reg := deregister (c_ref c) (reg w)\<rparr>"
  obtain mc where mc: "mctxs w p = Some mc" and w': "w' = ctx_closed a c p mc w"
    by (rule Context_Close_Ok [OF ok c close])
  from close c obtain w1 where "C_ContextFree (Some p) ?w = Ok () w1"
    by (auto simp: Context_Close_def with_context_def bindR_eq_Ok)
  from C_ContextFree_Ok [OF this] mc have live: "isolates w (mc_iso mc) \<noteq> None" by auto
  have "forest_of w' = prune p (forest_of w)" using free_forest [OF mc] by (simp add: w' ctx_closed_def)
  moreover have "p \<notin> ran (trees (forest_of w))"
    using ok c unfolding world_ok_def go_ok_def gctxs_ok_def by (auto simp: ran_def bind_eq_Some_conv)
  moreover have "trees (forest_of w) (mc_iso mc) \<noteq> None" using ok live by (intro tree_stands) (auto simp: world_ok_def)
  ultimately show ?thesis
    using prunes [of "forest_of w" p "branch_of mc"] mc by (simp add: branch_of_def)
qed

lemma dispose_forest:
  assumes ok: "world_ok w" and g: "gisos w a = Some g" "i_ptr g = Some p" and dispose: "Isolate_Dispose A a w = Ok u w'"
  shows "forest_of w' = fell p (forest_of w) \<and> forest_step (forest_of w) (forest_of w')"
proof -
  obtain v c mc where v: "isolates w p = Some v" "slot0 v = Some c" "mctxs w c = Some mc" and w': "w' = iso_disposed A a g p c mc w"
    by (rule Isolate_Dispose_Ok [OF ok g dispose])
  then have "forest_of w' = fell p (forest_of w)"
    by (auto simp: iso_disposed_def fell_def forest_of_def)
  then show ?thesis using fells [of "forest_of w" p] v by simp
qed

lemma new_isolate_forest:
  assumes ok: "world_ok w" and new: "C_NewIsolate A w = Ok i w'"
  shows "\<exists>c. isolates w' i = Some \<lparr>slot0 = Some c\<rparr> \<and> forest_of w' = plant i c (forest_of w) \<and>
     forest_step (forest_of w) (forest_of w')"
proof -
  have hok: "heap_ok w" using ok by (simp add: world_ok_def)
  from new have "i = brk w" "isolates w' i = Some \<lparr>slot0 = Some (Suc i)\<rparr>" "forest_of w' = plant i (Suc i) (forest_of w)"
    by (auto simp: C_NewIsolate_def bindR_eq_Ok c_new_eq_Ok Let_def case_prod_beta plant_def new_branch_def
        forest_of_def branch_of_def)
  then show ?thesis
    using plants [of "forest_of w" i "Suc i"] heap_okD_fresh [OF hok, of i] heap_okD_fresh [OF hok, of "Suc i"]
    by auto
qed

lemma new_context_forest:
  assumes ok: "world_ok w" and new: "open_context A a tm w = Ok b w'"
  shows "\<exists>g p c q. gisos w a = Some g \<and> i_ptr g = Some p \<and> gctxs w' b = Some c \<and> c_ptr c = Some q \<and>
     forest_of w' = graft q p (forest_of w) \<and> forest_step (forest_of w) (forest_of w')"
proof -
  have lim: "gbrk w < mem_limit" using new by (auto simp: open_context_def go_new_def split: if_splits)
  obtain ref r where "next_ref (reg w) = (ref, r)" by fastforce
  from open_context_opened [OF new lim this] obtain e mc g where g: "gisos w a = Some g" "i_ptr g = Some (mc_iso mc)"
    and mc: "mc_vals mc = []" "mc_unboundScripts mc = []" and b: "b = gbrk w"
    and w': "w' = ctx_opened (gbrk w) ref a (brk w) mc (w\<lparr>gbrk := Suc (gbrk w), reg := r, v8 := e, brk := Suc (brk w)\<rparr>)"
    by metis
  have "forest_of w' = graft (brk w) (mc_iso mc) (forest_of w)"
    by (auto simp: w' ctx_opened_def graft_def new_branch_def forest_of_def branch_of_def mc)
  moreover have "mctxs w (brk w) = None" using ok heap_okD_fresh [of w "brk w"] by (simp add: world_ok_def)
  moreover have "trees (forest_of w) (mc_iso mc) \<noteq> None"
    using ok gisosD(3) [OF ok g] by (intro tree_stands) (auto simp: world_ok_def)
  ultimately show ?thesis
    using grafts [of "forest_of w" "mc_iso mc" "brk w"] g b by (simp add: w' ctx_opened_def)
qed

section \<open>The operations of the Go API\<close>

text \<open>An operation on a pointer that may be nil.\<close>

definition unless_nil :: "(addr \<Rightarrow> forest \<Rightarrow> forest) \<Rightarrow> addr option \<Rightarrow> forest \<Rightarrow> forest" where
  "unless_nil f p F = (case p of None \<Rightarrow> F | Some a \<Rightarrow> f a F)"

lemma Value_Release_forest:
  assumes "heap_ok w" "Value_Release v w = Ok u w'"
  shows "forest_of w' = unless_nil pluck (v_ptr v) (forest_of w) \<and> forest_step\<^sup>=\<^sup>= (forest_of w) (forest_of w')"
proof (cases "v_ptr v")
  case None
  with assms(2) show ?thesis by (simp add: Value_Release_def C_ValueRelease_def unless_nil_def)
next
  case (Some a)
  with release_forest [OF assms(1), of a] assms(2) show ?thesis
    by (auto simp: Value_Release_def unless_nil_def intro: plucks)
qed

lemma Context_Close_forest:
  assumes "world_ok w" "gctxs w a = Some c" "Context_Close a w = Ok u w'"
  shows "forest_of w' = unless_nil prune (c_ptr c) (forest_of w) \<and> forest_step\<^sup>=\<^sup>= (forest_of w) (forest_of w')"
proof (cases "c_ptr c")
  case None
  with assms Context_Close_closed [OF assms(1,2)] show ?thesis by (simp add: unless_nil_def)
next
  case (Some p)
  with close_forest [OF assms(1,2) _ assms(3)] show ?thesis by (auto simp: unless_nil_def)
qed

lemma Isolate_Dispose_forest:
  assumes "world_ok w" "gisos w a = Some g" "Isolate_Dispose A a w = Ok u w'"
  shows "forest_of w' = unless_nil fell (i_ptr g) (forest_of w) \<and> forest_step\<^sup>=\<^sup>= (forest_of w) (forest_of w')"
proof (cases "i_ptr g")
  case None
  with assms show ?thesis by (simp add: unless_nil_def Isolate_Dispose_def with_isolate_def)
next
  case (Some p)
  with dispose_forest [OF assms(1,2) _ assms(3)] show ?thesis by (auto simp: unless_nil_def)
qed

lemma quiet_init: "initializeIfNecessary A w = Ok u w' \<Longrightarrow> forest_of w' = forest_of w"
  by (auto simp: initializeIfNecessary_def withCString_def CString_def malloc_def c_new_def C_SetFlags_def C_Init_def
      cfree_def bindR_eq_Ok split: if_splits option.splits)

text \<open>
  A new isolate is a tree whose internal context carries the two constants \<open>null\<close> and \<open>undefined\<close>.
\<close>

lemma constant_forest:
  assumes ok: "world_ok w" and p: "isolates w p = Some \<lparr>slot0 = Some c\<rparr>"
    and new: "internal_scope (Some p) (\<lambda>i c. new_value i c j) w = Ok n w'"
  shows "world_ok w' \<and> isolates w' = isolates w \<and> gisos w' = gisos w \<and> forest_of w' = sprout c n (forest_of w)"
proof -
  have new: "new_value p (Some c) j w = Ok n w'" using new p by (simp add: internal_scope_def)
  have "same_go w w'" using new_value_frame [of w p "Some c" j] new by simp
  moreover have "heap_ok w" using ok by (simp add: world_ok_def)
  from this new have "forest_of w' = sprout c n (forest_of w)" by (rule new_value_forest) simp
  ultimately show ?thesis using world_new_value [OF ok, of p "Some c" j] new by (simp add: same_go_def)
qed

lemma set_constants_forest:
  assumes ok: "world_ok w" and g: "gisos w a = Some g" "i_ptr g = Some p" and p: "isolates w p = Some \<lparr>slot0 = Some c\<rparr>"
    and new: "set_constants A a w = Ok b w'"
  shows "b = a \<and> (\<exists>h. gisos w' a = Some h \<and> i_ptr h = Some p) \<and>
     (\<exists>n u. forest_of w' = sprout c u (sprout c n (forest_of w)))"
proof -
  let ?put = "\<lambda>v. write_iso a (i_null_update (\<lambda>_. Some v))"
  from new g obtain n w1 u w2 where
    n: "internal_scope (Some p) (\<lambda>i c. new_value i c (v8_null A)) w = Ok n w1"
    and u: "internal_scope (Some p) (\<lambda>i c. new_value i c (v8_undefined A)) (?put \<lparr>v_ptr = Some n, v_ctx = None\<rparr> w1) = Ok u w2"
    and w': "w' = write_iso a (i_undefined_update (\<lambda>_. Some \<lparr>v_ptr = Some u, v_ctx = None\<rparr>)) w2" and b: "b = a"
    by (auto simp: set_constants_def with_isolate_def newValueNull_def newValueUndefined_def C_NewValueNull_def
        C_NewValueUndefined_def bindR_eq_Ok Let_def)
  note n1 = constant_forest [OF ok p n]
  then have "world_ok (?put v w1)" "isolates (?put v w1) = isolates w" "forest_of (?put v w1) = forest_of w1" for v
    using world_write_iso [of w1 "i_null_update (\<lambda>_. Some v)" a] by (simp_all add: write_iso_def)
  with constant_forest [OF _ _ u] p have "forest_of w2 = sprout c u (forest_of w1)"
    "gisos w2 = gisos (?put \<lparr>v_ptr = Some n, v_ctx = None\<rparr> w1)" by simp_all
  then show ?thesis using n1 g b by (auto simp: w' write_iso_def)
qed

lemma NewIsolate_forest:
  assumes ok: "world_ok w" and new: "NewIsolate A w = Ok a w'"
  shows "\<exists>g p c n u. gisos w' a = Some g \<and> i_ptr g = Some p \<and>
     forest_of w' = sprout c u (sprout c n (plant p c (forest_of w)))"
proof -
  from new obtain w1 p w2 b w3 where init: "initializeIfNecessary A w = Ok () w1" and iso: "C_NewIsolate A w1 = Ok p w2"
    and struct: "new_Isolate_struct p w2 = Ok b w3" and two: "set_constants A b w3 = Ok a w'"
    by (auto simp: NewIsolate_def bindR_eq_Ok)
  have ok1: "world_ok w1" using world_initializeIfNecessary [OF ok, of A] init by simp
  obtain c where c: "isolates w2 p = Some \<lparr>slot0 = Some c\<rparr>" "forest_of w2 = plant p c (forest_of w1)"
    using new_isolate_forest [OF ok1 iso] by blast
  have ok3: "world_ok w3" using new_struct_spec [OF ok1, of A] iso struct by simp
  obtain g where g: "gisos w3 b = Some g" "i_ptr g = Some p" and w3: "isolates w3 = isolates w2" "forest_of w3 = forest_of w2"
    using struct by (auto simp: new_Isolate_struct_def go_new_def bindR_eq_Ok split: if_splits)
  have "(\<exists>h. gisos w' a = Some h \<and> i_ptr h = Some p) \<and> (\<exists>n u. forest_of w' = sprout c u (sprout c n (forest_of w3)))"
    using set_constants_forest [OF ok3 g _ two] c w3 by simp
  then show ?thesis unfolding w3(2) c(2) quiet_init [OF init] by blast
qed

end
