(* ===== verification/Refinement.thy ===== *)
theory Refinement
  imports Forest Calls Sample
begin

text \<open>
  The package implements the specification by forests: whatever a call of the Go API does to
  isolates, C++ contexts, values and scripts, also when it panics and whatever the closures it
  runs do, is a sequence of steps of the forest. The theory has the simulation for every
  operation and the theorems it gives.
\<close>

section \<open>Following the forest\<close>

definition follows :: "forest \<Rightarrow> ('e, 'j, 'cb) world \<Rightarrow> bool" where
  "follows F w \<longleftrightarrow> world_ok w \<and> forest_step\<^sup>*\<^sup>* F (forest_of w)"

text \<open>The closures of the client follow it, too.\<close>

definition bodies_follow :: "('e, 'j, 'cb) bodies \<Rightarrow> bool" where
  "bodies_follow B \<longleftrightarrow> (\<forall>cb info F w. follows F w \<longrightarrow> keeps (follows F) (B cb info w))"

lemma follows_world: "follows F w \<Longrightarrow> world_ok w"
  by (simp add: follows_def)

lemma follows_heap: "follows F w \<Longrightarrow> heap_ok w"
  by (simp add: follows_def world_ok_def)

text \<open>An operation that makes a step or none.\<close>

lemma follows_upto:
  assumes "follows F w" "keeps world_ok m"
    and "\<And>a w'. m = Ok a w' \<Longrightarrow> forest_step\<^sup>=\<^sup>= (forest_of w) (forest_of w')"
    and "\<And>f w'. m = Fault f w' \<Longrightarrow> recoverable f \<Longrightarrow> forest_of w' = forest_of w"
  shows "keeps (follows F) m"
  using assms by (cases m) (auto simp: follows_def intro: rtranclp.rtrancl_into_rtrancl)

section \<open>The operations that change the forest\<close>

lemma follow_new_value: "follows F w \<Longrightarrow> keeps (follows F) (new_value i c j w)"
proof (rule follows_upto)
  assume w: "follows F w"
  show "keeps world_ok (new_value i c j w)" by (rule world_new_value [OF follows_world [OF w]])
  show "forest_step\<^sup>=\<^sup>= (forest_of w) (forest_of w')" if "new_value i c j w = Ok a w'" for a w'
    using new_value_forest [OF follows_heap [OF w] that] by (metis sprouts sup2I1)
qed (auto simp: new_value_def c_new_def tracked_value_def split: if_splits option.splits prod.splits)

lemma follow_Value_Release: "follows F w \<Longrightarrow> keeps (follows F) (Value_Release v w)"
proof (rule follows_upto)
  assume w: "follows F w"
  show "keeps world_ok (Value_Release v w)" by (rule world_Value_Release [OF follows_world [OF w]])
  show "forest_step\<^sup>=\<^sup>= (forest_of w) (forest_of w')" if "Value_Release v w = Ok u w'" for u w'
    using Value_Release_forest [OF follows_heap [OF w] that] by blast
qed (auto simp: Value_Release_def C_ValueRelease_def split: option.splits if_splits)

lemma follow_new_unbound_script:
  assumes w: "follows F w" and c: "c \<in> ran (trees (forest_of w))"
  shows "keeps (follows F) (new_unbound_script c j w)"
proof (rule follows_upto [OF w])
  show "keeps world_ok (new_unbound_script c j w)" by (rule world_new_unbound_script [OF follows_world [OF w]])
  show "forest_step\<^sup>=\<^sup>= (forest_of w) (forest_of w')" if "new_unbound_script c j w = Ok s w'" for s w'
  proof -
    from that have "forest_of w' = bud c s (forest_of w)"
      by (auto simp: new_unbound_script_def c_new_def tracked_unbound_script_def bud_def on_branch_def forest_of_def
          branch_of_def split: if_splits option.splits)
    then show ?thesis using buds [OF c, of s] by simp
  qed
qed (auto simp: new_unbound_script_def c_new_def tracked_unbound_script_def split: if_splits option.splits)

lemma follow_new_struct: "follows F w \<Longrightarrow> keeps (follows F) (bindR (C_NewIsolate A w) (\<lambda>i w. new_Isolate_struct i w))"
proof (rule follows_upto)
  assume w: "follows F w"
  show "keeps world_ok (bindR (C_NewIsolate A w) (\<lambda>i w. new_Isolate_struct i w))"
    by (rule new_struct_spec [OF follows_world [OF w]])
  show "forest_step\<^sup>=\<^sup>= (forest_of w) (forest_of w')"
    if new: "bindR (C_NewIsolate A w) (\<lambda>i w. new_Isolate_struct i w) = Ok a w'" for a w'
  proof -
    from new obtain i w1 where w1: "C_NewIsolate A w = Ok i w1" "new_Isolate_struct i w1 = Ok a w'" by (auto simp: bindR_eq_Ok)
    then have "forest_of w' = forest_of w1" by (auto simp: new_Isolate_struct_def go_new_def bindR_eq_Ok split: if_splits)
    then show ?thesis using new_isolate_forest [OF follows_world [OF w] w1(1)] by auto
  qed
qed (auto simp: bindR_eq_Fault new_Isolate_struct_def go_new_def dest: C_NewIsolate_Fault split: if_splits)

lemma follow_open_context: "follows F w \<Longrightarrow> keeps (follows F) (open_context A i t w)"
proof (rule follows_upto)
  assume w: "follows F w"
  show "keeps world_ok (open_context A i t w)" by (rule world_open_context [OF follows_world [OF w]])
  show "forest_step\<^sup>=\<^sup>= (forest_of w) (forest_of w')" if "open_context A i t w = Ok b w'" for b w'
    using new_context_forest [OF follows_world [OF w] that] by blast
  show "forest_of w' = forest_of w" if fault: "open_context A i t w = Fault f w'" "recoverable f" for f w'
  proof -
    have "gbrk w < mem_limit" using fault by (auto simp: open_context_def go_new_def split: if_splits)
    from open_context_Fault [OF fault(1) this surjective_pairing] fault(2) show ?thesis by auto
  qed
qed

lemma follow_Context_Close: "follows F w \<Longrightarrow> keeps (follows F) (Context_Close a w)"
proof (rule follows_upto)
  assume w: "follows F w"
  show "keeps world_ok (Context_Close a w)" by (rule world_Context_Close [OF follows_world [OF w]])
  show "forest_step\<^sup>=\<^sup>= (forest_of w) (forest_of w')" if close: "Context_Close a w = Ok u w'" for u w'
  proof -
    from close obtain c where c: "gctxs w a = Some c" by (auto simp: Context_Close_def with_context_def split: option.splits)
    show ?thesis using Context_Close_forest [OF follows_world [OF w] c close] by blast
  qed
qed (auto simp: Context_Close_def with_context_def bindR_eq_Fault dest: C_ContextFree_Fault split: option.splits)

lemma follow_Isolate_Dispose: "follows F w \<Longrightarrow> keeps (follows F) (Isolate_Dispose A a w)"
proof (rule follows_upto)
  assume w: "follows F w"
  show "keeps world_ok (Isolate_Dispose A a w)" by (rule world_Isolate_Dispose [OF follows_world [OF w]])
  show "forest_step\<^sup>=\<^sup>= (forest_of w) (forest_of w')" if dispose: "Isolate_Dispose A a w = Ok u w'" for u w'
  proof -
    from dispose obtain g where g: "gisos w a = Some g"
      by (auto simp: Isolate_Dispose_def with_isolate_def split: option.splits)
    show ?thesis using Isolate_Dispose_forest [OF follows_world [OF w] g dispose] by blast
  qed
qed (auto simp: Isolate_Dispose_def C_IsolateDispose_def with_isolate_def bindR_eq_Fault
      dest: C_ContextFree_Fault split: option.splits if_splits)

section \<open>Every call of the API\<close>

lemma follows_same:
  assumes "follows F w" "world_ok w'" "isolates w' = isolates w" "mctxs w' = mctxs w"
  shows "follows F w'"
  using assms forest_of_cong [of w' w] by (simp add: follows_def)

interpretation following: owner_logic A "\<lambda>w. bodies_follow (closures A) \<and> follows F w" for A F
proof unfold_locales
  fix w :: "('a, 'b, 'c) world" and i u c j
  assume w: "bodies_follow (closures A) \<and> follows F w" and c: "isolates w i = Some u" "slot0 u = Some c"
  have "c \<in> ran (trees (forest_of w))" by (rule ranI [of _ i]) (simp add: c)
  with w show "keeps (\<lambda>w. bodies_follow (closures A) \<and> follows F w) (new_unbound_script c j w)"
    by (simp add: follow_new_unbound_script)
qed (auto simp: bodies_follow_def same_core_def owners_are_def follows_world intro: follows_same
      intro!: follow_new_value follow_Value_Release follow_new_struct follow_open_context follow_Context_Close follow_Isolate_Dispose)

lemma follow_go_step:
  assumes "bodies_follow (closures A)" "world_ok w" "go_step A w w'"
  shows "world_ok w'" "forest_step\<^sup>*\<^sup>* (forest_of w) (forest_of w')"
proof -
  have "follows (forest_of w) w" using assms(2) by (simp add: follows_def)
  with assms(1) have "keeps (follows (forest_of w)) (exec A c w)" for c
    using following.all_calls_keep [of A "forest_of w" w c] by simp
  with assms(3) have "follows (forest_of w) w'" by (rule go_step_keeps)
  then show "world_ok w'" "forest_step\<^sup>*\<^sup>* (forest_of w) (forest_of w')" by (simp_all add: follows_def)
qed

text \<open>A call of a client whose closures follow the forest.\<close>

definition following_step :: "('e, 'j, 'cb) env \<Rightarrow> ('e, 'j, 'cb) world \<Rightarrow> ('e, 'j, 'cb) world \<Rightarrow> bool" where
  "following_step A w w' \<longleftrightarrow> bodies_follow (closures A) \<and> go_step A w w'"

interpretation package: simulation "\<lambda>w. w \<in> range init_world" "following_step A" world_ok "\<lambda>F. F = bare" forest_step forest_of for A
  by unfold_locales (auto simp: following_step_def init_world_ok intro: follow_go_step)

section \<open>The package implements the specification\<close>

text \<open>
  C5: the package refines the abstract ownership forest. Take any run of a client, with any
  arguments, in which calls return or panic, and any continuation of it. Then the isolates,
  contexts, values and scripts of the first state are a forest that the specification reaches from
  the bare one, those of the second are reached from them by steps of the specification, and the
  forest accounts for all that is in memory: the live isolates are its trees, the live C++ contexts
  its branches, the live values its leaves, each on a single branch.
\<close>

theorem package_refines_forest:
  assumes follow: "bodies_follow (closures A)" and run: "(go_step A)\<^sup>*\<^sup>* (init_world e) w" and more: "(go_step A)\<^sup>*\<^sup>* w w'"
  shows "forest_step\<^sup>*\<^sup>* bare (forest_of w) \<and> forest_step\<^sup>*\<^sup>* (forest_of w) (forest_of w') \<and> forest_ok (forest_of w') \<and>
     dom (isolates w') = dom (trees (forest_of w')) \<and> dom (mctxs w') = dom (branches (forest_of w')) \<and>
     dom (mvals w') = leaves (forest_of w')"
proof -
  have eq: "following_step A = go_step A" using follow by (simp add: following_step_def fun_eq_iff)
  have run': "(go_step A)\<^sup>*\<^sup>* (init_world e) w'" using run more by simp
  have ok: "world_ok w" "world_ok w'"
    using package.reachable_inv [OF rangeI, of A e] run run' by (simp_all add: eq)
  have "forest_step\<^sup>*\<^sup>* bare (forest_of w)" "forest_step\<^sup>*\<^sup>* (forest_of w) (forest_of w')"
    using package.steps_sim [of A "init_world e" w] package.steps_sim [of A w w'] run more ok by (simp_all add: eq init_world_ok)
  moreover have "forest_ok (forest_of w')"
    using package.transfer [OF forests.invariant_system_axioms rangeI, of A e w'] run' by (simp add: eq)
  ultimately show ?thesis
    using ok(2) leaves_forest [of w'] trees_forest [of w'] branches_forest [of w'] by (simp only: world_ok_def)
qed

lemma sample_follows: "bodies_follow (closures sample)"
  by (simp add: bodies_follow_def sample_closure_def)

lemma demo_run: "(go_step sample)\<^sup>*\<^sup>* (init_world []) demo_world"
  unfolding go_steps_play
  by (rule exI [of _ "[On_context (Call_NewContext [])]"]) (simp add: answer_def demo_NewContext)

theorem package_refines_forest_witness:
  "forest_step\<^sup>*\<^sup>* bare (forest_of demo_world) \<and> forest_ok (forest_of demo_world) \<and>
   leaves (forest_of demo_world) = {4, 5} \<and> trees (forest_of demo_world) = [2 \<mapsto> 3]"
proof -
  have "dom (mvals demo_world) = {4, 5}" by (auto simp: demo_world_def split: if_splits)
  moreover have "trees (forest_of demo_world) = [2 \<mapsto> 3]" by (auto simp: fun_eq_iff)
  ultimately show ?thesis
    using package_refines_forest [OF sample_follows demo_run rtranclp.rtrancl_refl] by simp
qed

text \<open>
  C8: each operation that opens or gives up something is exactly one operation of the
  specification. A new isolate is a new tree with two values on its internal context, a new context
  a new branch without values of the isolate it was given; Release plucks the value it was given,
  Close prunes the branch of the context with all its values and scripts, Dispose fells the tree of
  the isolate with its internal context; a nil pointer changes nothing.
\<close>

theorem lifecycle_refines:
  fixes w :: "('e, 'j, 'cb) world"
  assumes ok: "world_ok w"
  shows "(\<forall>a w'. NewIsolate A w = Ok a w' \<longrightarrow>
       (\<exists>g p c n u. gisos w' a = Some g \<and> i_ptr g = Some p \<and>
          forest_of w' = sprout c u (sprout c n (plant p c (forest_of w))))) \<and>
     (\<forall>i a w'. NewContext A [OptIsolate (Some i)] w = Ok a w' \<longrightarrow>
       (\<exists>g p c q. gisos w i = Some g \<and> i_ptr g = Some p \<and> gctxs w' a = Some c \<and> c_ptr c = Some q \<and>
          forest_of w' = graft q p (forest_of w))) \<and>
     (\<forall>v w'. Value_Release v w = Ok () w' \<longrightarrow> forest_of w' = unless_nil pluck (v_ptr v) (forest_of w)) \<and>
     (\<forall>a c w'. gctxs w a = Some c \<longrightarrow> Context_Close a w = Ok () w' \<longrightarrow>
       forest_of w' = unless_nil prune (c_ptr c) (forest_of w)) \<and>
     (\<forall>a g w'. gisos w a = Some g \<longrightarrow> Isolate_Dispose A a w = Ok () w' \<longrightarrow>
       forest_of w' = unless_nil fell (i_ptr g) (forest_of w))"
proof (intro conjI allI impI)
  show "\<exists>g p c n u. gisos w' a = Some g \<and> i_ptr g = Some p \<and>
      forest_of w' = sprout c u (sprout c n (plant p c (forest_of w)))" if "NewIsolate A w = Ok a w'" for a w'
    by (rule NewIsolate_forest [OF ok that])
  show "\<exists>g p c q. gisos w i = Some g \<and> i_ptr g = Some p \<and> gctxs w' a = Some c \<and> c_ptr c = Some q \<and>
      forest_of w' = graft q p (forest_of w)" if new: "NewContext A [OptIsolate (Some i)] w = Ok a w'" for i a w'
  proof -
    from new obtain t w1 where w1: "new_template \<lparr>t_ptr = None, t_iso = None\<rparr> w = Ok t w1" "open_context A i t w1 = Ok a w'"
      by (auto simp: NewContext_def context_options_def bindR_eq_Ok)
    have "world_ok w1" using world_new_template [OF ok] w1(1) by (metis holds.simps(1))
    moreover have "gisos w1 = gisos w" "forest_of w1 = forest_of w"
      using w1(1) by (auto simp: new_template_def go_new_def bindR_eq_Ok split: if_splits)
    ultimately show ?thesis using new_context_forest [OF _ w1(2)] by auto
  qed
  show "forest_of w' = unless_nil pluck (v_ptr v) (forest_of w)" if "Value_Release v w = Ok () w'" for v w'
    using Value_Release_forest [OF _ that] ok by (simp add: world_ok_def)
  show "forest_of w' = unless_nil prune (c_ptr c) (forest_of w)"
    if "gctxs w a = Some c" "Context_Close a w = Ok () w'" for a c w'
    using Context_Close_forest [OF ok that] by simp
  show "forest_of w' = unless_nil fell (i_ptr g) (forest_of w)"
    if "gisos w a = Some g" "Isolate_Dispose A a w = Ok () w'" for a g w'
    using Isolate_Dispose_forest [OF ok that] by simp
qed

text \<open>The context of the sample process is closed: its branch goes, the internal context stays.\<close>

theorem lifecycle_refines_witness:
  "\<exists>w'. Context_Close 3 demo_world = Ok () w' \<and> branches (forest_of w') 6 = None \<and>
     branches (forest_of w') 3 = Some \<lparr>b_isolate = 2, b_values = {4, 5}, b_scripts = {}\<rparr>"
proof -
  have "isolates_live demo_world 6" by (auto simp: isolates_live_def demo_world_def)
  then obtain w' where close: "Context_Close 3 demo_world = Ok () w'"
    using Context_Close_eq [OF demo_world_ok, of 3 "\<lparr>c_ref = 1, c_ptr = Some 6, c_iso = 1\<rparr>" 6] by simp
  have "\<forall>a c w'. gctxs demo_world a = Some c \<longrightarrow> Context_Close a demo_world = Ok () w' \<longrightarrow>
      forest_of w' = unless_nil prune (c_ptr c) (forest_of demo_world)"
    using lifecycle_refines [OF demo_world_ok, of sample] by blast
  from this [rule_format, of 3, OF _ close] have "branches (forest_of w') = (branches (forest_of demo_world))(6 := None)"
    by (simp add: unless_nil_def prune_def)
  with close show ?thesis by (intro exI [of _ w']) (simp only:, simp add: branch_of_def)
qed

end
