(* ===== verification/Spec2Isabelle.thy ===== *)
theory Spec2Isabelle
  imports Clients Shutdown Composition Profiles Concurrency Refinement
begin

text \<open>
  A verification of v8go, the Go binding to the V8 JavaScript engine.

  \<^bold>\<open>The program.\<close> The package has two halves in one process. The Go half (context.go, isolate.go,
  value.go, object.go, function.go, template.go, object_template.go, function_template.go, promise.go,
  json.go, errors.go, script_compiler.go, unbound_script.go, cpuprofiler.go, cpuprofile.go,
  cpuprofilenode.go, v8go.go) is what a client calls. The C++ half (v8go.cc, v8go.h) holds V8's
  handles in structs of its own: a context with the table of all values made in it (\<open>m_ctx\<close>), a
  value (\<open>m_value\<close>), a template (\<open>m_template\<close>), an unbound script (\<open>m_unboundScript\<close>) and the
  structs of the profiler. Go holds raw pointers to them and nothing else keeps them alive. A call
  from JavaScript into Go finds its context by an integer in a package-wide registry and its closure
  by an integer in a table of the isolate.

  \<^bold>\<open>State.\<close> The theory Runtime has the state of both halves as one record \<open>world\<close>: partial maps from
  addresses to structs for the C heap (\<open>isolates\<close>, \<open>mctxs\<close>, \<open>mvals\<close>, \<open>mtmpls\<close>, \<open>mscripts\<close>,
  \<open>cprofilers\<close>, \<open>cprofiles\<close>, \<open>cnodes\<close>, \<open>blocks\<close> for malloc), for the Go heap (\<open>gisos\<close>, \<open>gctxs\<close>,
  \<open>gtmpls\<close>, \<open>gnodes\<close>), the registry with its counter, the once flag and the state of V8. An operation
  is a function from a world to \<open>Ok result world\<close> or \<open>Fault cause world\<close>; a fault is a Go panic with
  its value, a nil dereference, an index out of range, an invalid access in C++, an abort of V8, or
  exhausted memory. A dangling pointer is an address its map does not have any more. Go's \<open>int\<close> and C's
  \<open>int\<close> and \<open>long\<close> have their wrap-around written out (\<open>c_int\<close>, \<open>c_long\<close>); fields of fixed width are
  words; a float is its bits; strings are lists of bytes, and a C string ends at its first NUL.

  \<^bold>\<open>V8 and the closures.\<close> V8 is third-party code, so it is a parameter: the record \<open>env\<close> of the theory
  Engine has one field per function of V8 that the sources call, and the closures of the client.
  What may run JavaScript is a tree \<open>js\<close> of calls back into Go, which \<open>run_js\<close> interprets in the
  isolate the scope macro has entered. A theorem that relies on documented behaviour of V8 states it as a hypothesis; the theory Sample has a toy
  engine on which each such theorem is instantiated.

  \<^bold>\<open>Theories and code.\<close>
  \<^item> Prelude, Interfaces: generic lemmas, results with faults and their Hoare-style rules (\<open>holds\<close>,
    \<open>keeps\<close>), integer widths; the locales \<open>handle_table\<close>, \<open>removable_table\<close>, \<open>disposable\<close>,
    \<open>invariant_system\<close> and \<open>simulation\<close> with the lemmas that follow from their laws. They are interpreted
    on the context registry, the callback table, the value tables, Close and Dispose, the calls of any
    client and of careful clients, the interleavings of goroutines, and the refinement of the
    specification by the calls.
  \<^item> Runtime, Registry: the state, allocation, C strings; \<open>ctxSeq\<close>, \<open>register\<close>, \<open>deregister\<close>,
    \<open>getContext\<close> of context.go and the callback table of isolate.go.
  \<^item> Tracking, Ownership, World_Invariant: \<open>tracked_value\<close>, \<open>ValueRelease\<close>, \<open>ContextFree\<close> of v8go.cc;
    the invariant \<open>world_ok\<close>: every value is in the table of exactly one live context under its own
    number, every open Go context is registered and has its own C++ context, every live Go isolate has
    its own V8 isolate with a live internal context, and nothing lives beyond the allocation marks.
  \<^item> Errors, Callback, Engine: errors.go with \<open>ExceptionError\<close>; the way of a call from JavaScript into
    a Go closure (function_template.go, \<open>FunctionTemplateCallback\<close>); the scope macros of v8go.cc.
  \<^item> Isolates, Contexts, Values, Functions, Templates, Promises, Scripts, Profiler: one theory per
    group of Go files with the functions of v8go.cc they call, one definition per function, named as in
    the code with the prefix \<open>C_\<close> for the C++ half, and for each operation that it keeps \<open>world_ok\<close>.
    Profiler also has what its recursions over trees compute.
  \<^item> Balance: no operation but stopping and deleting a profile changes which C blocks are allocated,
    whether it returns, fails with an error or panics.
  \<^item> Handles, Safety: heap typings, sets of pointers of both halves that are alive and closed under
    what each of them depends on (a value on its context and isolate, a context on its isolate, a
    script on the context that owns it, and so on); a calculus whose triples exclude accesses to freed
    memory; the typing of allocation, scopes, C strings, errors and calls back into Go.
  \<^item> Safe_Values, Safe_Objects, Safe_Templates, Safe_Scripts, Safe_Lifecycle, Safe_Disposal: for each
    operation that, given pointers of a typing, it does not touch freed memory, keeps all typings (the
    last theory: those without what it frees) and returns usable pointers.
  \<^item> Api: the exported calls as a datatype, their semantics \<open>exec\<close> with the pointers each call returns,
    the transitions \<open>go_step\<close> of a client that makes any calls, and the invariant of all it can reach.
  \<^item> Calls: one proof for all calls. The locale \<open>call_logic\<close> takes a property of the state that depends
    only on isolates, C++ contexts and stopped profiles and is kept by the operations that change these,
    and gives that every call keeps it, except stopping and deleting a profile; \<open>owner_logic\<close> extends it
    to every call for properties that do not look at profiles. Interpreted in Safe_Profiles and
    Refinement.
  \<^item> Safe_Profiles: the invariant \<open>profiles_ok\<close> (a profile that was stopped and not deleted owns its
    struct, the nodes of its tree and its title, and no two profiles share memory), that no other call
    touches it, and that stopping and deleting a profile are safe and keep it, out of memory included.
  \<^item> Soundness, Clients: what a call uses, frees and asks of its other arguments, the transitions
    \<open>careful_step\<close> of a client that keeps to this discipline, type soundness of one call and memory
    safety of careful clients, for all calls of the API. Assumed are sound closures (\<open>bodies_sound\<close>:
    given values of their own, they keep what was well typed and return nil or a usable value) that stop
    and delete no profiles (\<open>bodies_spare_profiles\<close>) and V8's limit on the length of strings
    (\<open>v8_limits\<close>). The discipline is what the documentation of the package leaves implicit:
    contexts are closed before their isolate is disposed of, values not used after their context is
    closed or they are released, nothing released or deleted twice, profiles stopped only under a title
    that is running, and at most 2^31 - 1 arguments or words.
  \<^item> Forest, Refinement: an abstract specification of ownership, a forest of isolates, contexts, values
    and scripts with seven kinds of steps, its invariant, the abstraction \<open>forest_of\<close> of a state, and the
    simulation: whatever any call does, on return and on panic, is a sequence of steps of the forest, and
    the operations that open or give up something are one step each. Assumed are closures that make such
    steps themselves (\<open>bodies_follow\<close>), which closures that only call the API do.
  \<^item> Shutdown: closing all contexts of an isolate and disposing of it returns and gives everything back.
  \<^item> Sample: the toy engine and a process with one context.
  \<^item> Lifetime: reachable states, leaks, Close, Dispose, Release, references, initialisation.
  \<^item> Scripting: calls into Go, running scripts, exceptions, unbound scripts and code caches.
  \<^item> Conversions: NewValue, round trips of strings and big integers, how long a value can be used.
  \<^item> Objects: properties, internal fields, calls, templates and attributes, promises, JSON.
  \<^item> Composition: a Go closure made a JavaScript function and called through it, across the callback
    table, templates, functions, the registry and the way back into Go.
  \<^item> Profiles: the copy of the call tree, walking it, deleting it, its duration.
  \<^item> Concurrency: the critical sections of NewContext and Close under any interleaving of goroutines.

  \<^bold>\<open>Bounds and fuel.\<close> Both heaps are bump allocators without reuse with the limit \<open>mem_limit\<close> = 2^47,
  the user address space; beyond it an allocation faults. So the 64-bit counters cannot wrap within a
  process, while the 32-bit conversions can, and theorems say where they do. The recursions over C
  profile nodes carry the number of addresses ever handed out as fuel; every tree that was built has at
  most that many nodes, so the fuel never runs out (\<open>C_CPUProfileNodeDelete_spec\<close>,
  \<open>newCPUProfileNode_spec\<close>). The other loops are structural.

  \<^bold>\<open>What is not modelled.\<close> V8 itself, beyond the parameter; the garbage collector of Go, except that the
  finalizer of a template may run at any time as one of the client's calls; data races on structs that
  two goroutines share without a lock, as the package promises nothing about them: an operation runs
  alone except in Concurrency; addresses that are reused after a free; the scheduling inside V8's
  lock; closures that stop or delete profiles while JavaScript calls them, in the discipline of careful
  clients (the calls themselves are modelled and any client may make them elsewhere); the linker flags of
  cgo.go and the leak sanitizer call of leakcheck.go, which are no logic.
\<close>

end
